(* ===== verification/Prelude.thy ===== *)
theory Prelude
  imports Complex_Main "HOL-Library.Multiset"
begin

text \<open>
  The vocabulary every component shares: the Python exceptions of the service, the
  state-and-exception monad in which its methods are written (a method takes the world and
  returns a value or a raised exception, with the world as the method left it), the rules
  that compute what a method guarantees, and the pieces of the Python standard library the
  code relies on (strings, \<open>uuid.UUID\<close>, \<open>datetime\<close>).
\<close>

section \<open>Exceptions\<close>

text \<open>
  One constructor per exception class the code raises or tells apart.
  \<open>ExternalError\<close> stands for whatever a Redis, PostgreSQL or Kubernetes call raises when
  the service behind it fails, \<open>ApiException\<close> for the answer of a Kubernetes API server that
  refuses a request, \<open>OtherError\<close> for a \<open>KeyError\<close> or \<open>AttributeError\<close>.
\<close>

datatype exn =
    BusinessLogicError string
  | SeatNotAvailableError string
  | EventNotFoundError string
  | ReservationNotFoundError string
  | DuplicateReservationError string
  | ReservationExpiredError string
  | PaymentAmountMismatchError rat rat
  | LockAcquireError string
  | HTTPException nat string
  | ValueError string
  | JWTError string
  | TypeError string
  | OtherError string
  | ApiException string
  | ExternalError string

text \<open>\<open>isinstance(e, BusinessLogicError)\<close>: the class and its subclasses.\<close>

fun is_business_error :: "exn \<Rightarrow> bool" where
  "is_business_error (BusinessLogicError _) = True"
| "is_business_error (SeatNotAvailableError _) = True"
| "is_business_error (EventNotFoundError _) = True"
| "is_business_error (ReservationNotFoundError _) = True"
| "is_business_error (DuplicateReservationError _) = True"
| "is_business_error (ReservationExpiredError _) = True"
| "is_business_error (PaymentAmountMismatchError _ _) = True"
| "is_business_error _ = False"

fun is_external :: "exn \<Rightarrow> bool" where
  "is_external (ExternalError _) = True"
| "is_external _ = False"

section \<open>The state-and-exception monad\<close>

type_synonym ('w, 'a) py = "'w \<Rightarrow> (exn + 'a) \<times> 'w"

definition ret :: "'a \<Rightarrow> ('w, 'a) py" where
  "ret a w = (Inr a, w)"

definition raising :: "exn \<Rightarrow> ('w, 'a) py" where
  "raising e w = (Inl e, w)"

definition bnd :: "('w, 'a) py \<Rightarrow> ('a \<Rightarrow> ('w, 'b) py) \<Rightarrow> ('w, 'b) py" where
  "bnd m f w = (case m w of (Inl e, w') \<Rightarrow> (Inl e, w') | (Inr a, w') \<Rightarrow> f a w')"

abbreviation seqn :: "('w, 'a) py \<Rightarrow> ('w, 'b) py \<Rightarrow> ('w, 'b) py" where
  "seqn m n \<equiv> bnd m (\<lambda>_. n)"

text \<open>\<open>try: m except Exception as e: h e\<close>, and \<open>try: m finally: f\<close>.\<close>

definition try_except :: "('w, 'a) py \<Rightarrow> (exn \<Rightarrow> ('w, 'a) py) \<Rightarrow> ('w, 'a) py" where
  "try_except m h w = (case m w of (Inl e, w') \<Rightarrow> h e w' | (Inr a, w') \<Rightarrow> (Inr a, w'))"

definition try_finally :: "('w, 'a) py \<Rightarrow> ('w, 'b) py \<Rightarrow> ('w, 'a) py" where
  "try_finally m f w =
     (case m w of (r, w') \<Rightarrow>
       (case f w' of (Inl e, w'') \<Rightarrow> (Inl e, w'') | (Inr _, w'') \<Rightarrow> (r, w'')))"

text \<open>\<open>for x in xs: acc = f acc x\<close>, and the loop that only has effects.\<close>

fun foldM :: "('b \<Rightarrow> 'a \<Rightarrow> ('w, 'b) py) \<Rightarrow> 'b \<Rightarrow> 'a list \<Rightarrow> ('w, 'b) py" where
  "foldM f acc [] = ret acc"
| "foldM f acc (x # xs) = bnd (f acc x) (\<lambda>acc'. foldM f acc' xs)"

definition for_each :: "('a \<Rightarrow> ('w, unit) py) \<Rightarrow> 'a list \<Rightarrow> ('w, unit) py" where
  "for_each f xs = foldM (\<lambda>_ x. f x) () xs"

text \<open>A pure function of the standard library that may raise.\<close>

definition lift_res :: "exn + 'a \<Rightarrow> ('w, 'a) py" where
  "lift_res r w = (r, w)"

definition raise_if :: "bool \<Rightarrow> exn \<Rightarrow> ('w, unit) py" where
  "raise_if b e = (if b then raising e else ret ())"

lemma bnd_ret [simp]: "bnd (ret a) f = f a"
  by (simp add: bnd_def ret_def fun_eq_iff)

lemma bnd_raising [simp]: "bnd (raising e) f = raising e"
  by (simp add: bnd_def raising_def fun_eq_iff)

lemma ret_bnd [simp]: "bnd m ret = m"
  by (auto simp: bnd_def ret_def fun_eq_iff split: prod.split sum.split)

lemma bnd_assoc: "bnd (bnd m f) g = bnd m (\<lambda>a. bnd (f a) g)"
  by (simp add: bnd_def fun_eq_iff split: prod.split sum.split)

lemma lift_res_simps [simp]: "lift_res (Inr a) = ret a" "lift_res (Inl e) = raising e"
  by (simp_all add: lift_res_def ret_def raising_def fun_eq_iff)

section \<open>What a method guarantees\<close>

text \<open>
  \<open>wp m Q E w\<close>: run from the world \<open>w\<close>, \<open>m\<close> either returns a value and a world that satisfy
  \<open>Q\<close> or raises an exception in a world that satisfies \<open>E\<close>. Methods are total functions, so
  this is total correctness.
\<close>

definition wp :: "('w, 'a) py \<Rightarrow> ('a \<Rightarrow> 'w \<Rightarrow> bool) \<Rightarrow> (exn \<Rightarrow> 'w \<Rightarrow> bool) \<Rightarrow> 'w \<Rightarrow> bool" where
  "wp m Q E w = (case m w of (Inr a, w') \<Rightarrow> Q a w' | (Inl e, w') \<Rightarrow> E e w')"

text \<open>
  \<open>vc v m Q E s\<close> is the same over an abstract view \<open>v\<close> of the world: from every world whose view
  is \<open>s\<close>. The view is what an external service lets the code observe and rely on.
\<close>

definition vc ::
  "('w \<Rightarrow> 's) \<Rightarrow> ('w, 'a) py \<Rightarrow> ('a \<Rightarrow> 's \<Rightarrow> bool) \<Rightarrow> (exn \<Rightarrow> 's \<Rightarrow> bool) \<Rightarrow> 's \<Rightarrow> bool" where
  "vc v m Q E s \<longleftrightarrow> (\<forall>w. v w = s \<longrightarrow> wp m (\<lambda>a w'. Q a (v w')) (\<lambda>e w'. E e (v w')) w)"

named_theorems vc_intro \<open>rules that reduce a goal about a method to its parts\<close>

lemma wp_bnd: "wp (bnd m f) Q E w = wp m (\<lambda>a. wp (f a) Q E) E w"
  by (simp add: wp_def bnd_def split: prod.split sum.split)

lemma wp_try_except: "wp (try_except m h) Q E w = wp m Q (\<lambda>e. wp (h e) Q E) w"
  by (simp add: wp_def try_except_def split: prod.split sum.split)

lemma wp_try_finally:
  "wp (try_finally m f) Q E w = wp m (\<lambda>a. wp f (\<lambda>_. Q a) E) (\<lambda>e. wp f (\<lambda>_. E e) E) w"
  by (simp add: wp_def try_finally_def split: prod.split sum.split)

lemma wp_mono:
  assumes "wp m Q E w" and "\<And>a w'. Q a w' \<Longrightarrow> Q' a w'" and "\<And>e w'. E e w' \<Longrightarrow> E' e w'"
  shows "wp m Q' E' w"
  using assms by (auto simp: wp_def split: prod.splits sum.splits)

lemma wp_conj: "wp m Q E w \<Longrightarrow> wp m Q' E' w \<Longrightarrow> wp m (\<lambda>a w'. Q a w' \<and> Q' a w') (\<lambda>e w'. E e w' \<and> E' e w') w"
  by (auto simp: wp_def split: prod.split sum.split)

lemma vcI:
  "(\<And>w. v w = s \<Longrightarrow> wp m (\<lambda>a w'. Q a (v w')) (\<lambda>e w'. E e (v w')) w) \<Longrightarrow> vc v m Q E s"
  by (simp add: vc_def)

lemma vcD: "vc v m Q E (v w) \<Longrightarrow> wp m (\<lambda>a w'. Q a (v w')) (\<lambda>e w'. E e (v w')) w"
  by (simp add: vc_def)

lemma vcD_pair:
  "vc v m (\<lambda>(a, b) s'. Q a b s') E (v w) \<Longrightarrow> wp m (\<lambda>(a, b) w'. Q a b (v w')) (\<lambda>e w'. E e (v w')) w"
  by (drule vcD) (simp add: case_prod_beta')

lemma vc_ret [vc_intro]: "Q a s \<Longrightarrow> vc v (ret a) Q E s"
  by (simp add: vc_def wp_def ret_def)

lemma vc_raising [vc_intro]: "E e s \<Longrightarrow> vc v (raising e) Q E s"
  by (simp add: vc_def wp_def raising_def)

lemma vc_bnd [vc_intro]: "vc v m (\<lambda>a s'. vc v (f a) Q E s') E s \<Longrightarrow> vc v (bnd m f) Q E s"
  by (rule vcI) (auto simp only: wp_bnd elim!: wp_mono dest!: vcD)

lemma vc_try_except [vc_intro]:
  "vc v m Q (\<lambda>e s'. vc v (h e) Q E s') s \<Longrightarrow> vc v (try_except m h) Q E s"
  by (rule vcI) (auto simp only: wp_try_except elim!: wp_mono dest!: vcD)

lemma vc_try_finally [vc_intro]:
  "vc v m (\<lambda>a s'. vc v f (\<lambda>_. Q a) E s') (\<lambda>e s'. vc v f (\<lambda>_. E e) E s') s \<Longrightarrow>
    vc v (try_finally m f) Q E s"
  by (rule vcI) (auto simp only: wp_try_finally elim!: wp_mono dest!: vcD)

lemma vc_if [vc_intro]:
  "(b \<Longrightarrow> vc v m Q E s) \<Longrightarrow> (\<not> b \<Longrightarrow> vc v n Q E s) \<Longrightarrow> vc v (if b then m else n) Q E s"
  by simp

lemma vc_lift_res [vc_intro]:
  "(\<And>a. r = Inr a \<Longrightarrow> Q a s) \<Longrightarrow> (\<And>e. r = Inl e \<Longrightarrow> E e s) \<Longrightarrow> vc v (lift_res r) Q E s"
  by (cases r) (auto intro: vc_ret vc_raising)

lemma vc_raise_if [vc_intro]:
  "(\<not> b \<Longrightarrow> Q () s) \<Longrightarrow> (b \<Longrightarrow> E e s) \<Longrightarrow> vc v (raise_if b e) Q E s"
  by (auto simp: raise_if_def intro: vc_ret vc_raising)

lemma vc_case_option [vc_intro]:
  "(x = None \<Longrightarrow> vc v m Q E s) \<Longrightarrow> (\<And>a. x = Some a \<Longrightarrow> vc v (f a) Q E s) \<Longrightarrow>
    vc v (case x of None \<Rightarrow> m | Some a \<Rightarrow> f a) Q E s"
  by (cases x) auto

lemma vc_both: "vc v m Q E s \<Longrightarrow> vc v m Q' E' s \<Longrightarrow> vc v m (\<lambda>a s'. Q a s' \<and> Q' a s') (\<lambda>e s'. E e s' \<and> E' e s') s"
  by (auto simp: vc_def wp_def split: prod.splits sum.splits)

lemma vc_conseq:
  assumes "vc v m Q E s" and "\<And>a s'. Q a s' \<Longrightarrow> Q' a s'" and "\<And>e s'. E e s' \<Longrightarrow> E' e s'"
  shows "vc v m Q' E' s"
  using assms by (auto simp: vc_def wp_def split: prod.splits sum.splits)

lemma vc_conj:
  assumes "vc v m Q E s" and "vc v m Q' E' s"
  shows "vc v m (\<lambda>a s'. Q a s' \<and> Q' a s') (\<lambda>e s'. E e s' \<and> E' e s') s"
  using assms by (auto simp: vc_def wp_def split: prod.splits sum.splits)

text \<open>The loop rules: an invariant over the accumulator, kept by the body for every element.\<close>

lemma vc_foldM:
  assumes body: "\<And>acc x s. x \<in> set xs \<Longrightarrow> I acc s \<Longrightarrow> vc v (f acc x) I E s"
    and start: "I acc s" and fin: "\<And>acc s. I acc s \<Longrightarrow> Q acc s"
  shows "vc v (foldM f acc xs) Q E s"
  using body start
proof (induction xs arbitrary: acc s)
  case Nil
  then show ?case by (auto intro: vc_ret fin)
next
  case (Cons x xs)
  have "vc v (f acc x) (\<lambda>acc' s'. vc v (foldM f acc' xs) Q E s') E s"
  proof (rule vc_conseq [OF Cons.prems(1)])
    fix acc' s'
    assume "I acc' s'"
    then show "vc v (foldM f acc' xs) Q E s'" using Cons.prems(1) by (auto intro: Cons.IH)
  qed (use Cons.prems(2) in simp_all)
  then show ?case by (auto intro: vc_bnd)
qed

lemma vc_for_each:
  assumes "\<And>x s. x \<in> set xs \<Longrightarrow> I s \<Longrightarrow> vc v (f x) (\<lambda>_. I) E s"
    and "I s" and "\<And>s. I s \<Longrightarrow> Q () s"
  shows "vc v (for_each f xs) Q E s"
  unfolding for_each_def by (rule vc_foldM [where I = "\<lambda>_. I"]) (use assms in auto)

section \<open>External operations and their documented behaviour\<close>

text \<open>
  The behaviour of a call into an external service is given as the set of outcomes its
  documentation allows, over the abstract view: a returned value or a raised exception, and
  the view afterwards. \<open>refines\<close> says that an operation of the world has no other outcome.
\<close>

type_synonym ('s, 'a) outcomes = "'s \<Rightarrow> ((exn + 'a) \<times> 's) set"

definition refines :: "('w \<Rightarrow> 's) \<Rightarrow> ('w, 'a) py \<Rightarrow> ('s, 'a) outcomes \<Rightarrow> bool" where
  "refines v m S \<longleftrightarrow> (\<forall>w. (fst (m w), v (snd (m w))) \<in> S (v w))"

lemma vc_refines:
  assumes "refines v m S"
    and "\<And>a s'. (Inr a, s') \<in> S s \<Longrightarrow> Q a s'" and "\<And>e s'. (Inl e, s') \<in> S s \<Longrightarrow> E e s'"
  shows "vc v m Q E s"
  unfolding vc_def
proof (intro allI impI)
  fix w
  assume "v w = s"
  with assms(1) have "(fst (m w), v (snd (m w))) \<in> S s" by (auto simp: refines_def)
  then show "wp m (\<lambda>a w'. Q a (v w')) (\<lambda>e w'. E e (v w')) w"
    using assms(2,3) by (cases "m w"; cases "fst (m w)") (auto simp: wp_def)
qed

end
