(* ===== verification/Py_Stdlib.thy ===== *)
theory Py_Stdlib
  imports Prelude "HOL-Library.Word"
begin

text \<open>
  The parts of the Python standard library the service uses: \<open>str\<close> methods and \<open>str()\<close> of
  numbers and lists, \<open>uuid.UUID\<close> (parsing and printing), and \<open>datetime\<close> values with and without
  a time zone. Times are instants in microseconds since the epoch, in UTC.
\<close>

section \<open>Strings\<close>

definition char_code :: "char \<Rightarrow> nat" where
  "char_code c = of_char c"

definition is_space :: "char \<Rightarrow> bool" where
  "is_space c \<longleftrightarrow> c = CHR '' '' \<or> (9 \<le> char_code c \<and> char_code c \<le> 13) \<or>
     (28 \<le> char_code c \<and> char_code c \<le> 31)"

definition strip_chars :: "(char \<Rightarrow> bool) \<Rightarrow> string \<Rightarrow> string" where
  "strip_chars p s = rev (dropWhile p (rev (dropWhile p s)))"

definition py_strip :: "string \<Rightarrow> string" where
  "py_strip = strip_chars is_space"

definition lower_char :: "char \<Rightarrow> char" where
  "lower_char c =
     (if 65 \<le> char_code c \<and> char_code c \<le> 90 then char_of (char_code c + 32) else c)"

definition py_lower :: "string \<Rightarrow> string" where
  "py_lower s = map lower_char s"

definition starts_with :: "string \<Rightarrow> string \<Rightarrow> bool" where
  "starts_with p s \<longleftrightarrow> take (length p) s = p"

text \<open>\<open>s.replace(pat, "")\<close> for a pattern that is not empty.\<close>

fun remove_all :: "string \<Rightarrow> string \<Rightarrow> string" where
  "remove_all pat [] = []"
| "remove_all pat (c # cs) =
     (if pat \<noteq> [] \<and> starts_with pat (c # cs)
      then remove_all pat (drop (length pat - 1) cs)
      else c # remove_all pat cs)"

text \<open>\<open>s.split(",")[0]\<close>: the part before the first comma.\<close>

definition before_comma :: "string \<Rightarrow> string" where
  "before_comma s = takeWhile (\<lambda>c. c \<noteq> CHR '','') s"

fun digits :: "nat \<Rightarrow> string" where
  "digits n = (if n < 10 then [char_of (48 + n)] else digits (n div 10) @ [char_of (48 + n mod 10)])"

declare digits.simps [simp del]

definition str_int :: "int \<Rightarrow> string" where
  "str_int i = (if i < 0 then ''-'' @ digits (nat (- i)) else digits (nat i))"

fun join_with :: "string \<Rightarrow> string list \<Rightarrow> string" where
  "join_with sep [] = []"
| "join_with sep [x] = x"
| "join_with sep (x # xs) = x @ sep @ join_with sep xs"

text \<open>\<open>str\<close> of a list of strings that hold no quote.\<close>

definition repr_str_list :: "string list \<Rightarrow> string" where
  "repr_str_list xs =
     ''['' @ join_with '', '' (map (\<lambda>x. [CHR 0x27] @ x @ [CHR 0x27]) xs) @ '']''"

lemma starts_with_append [simp]: "starts_with p (p @ s)"
  by (simp add: starts_with_def)

lemma remove_all_absent:
  "c \<in> set pat \<Longrightarrow> c \<notin> set s \<Longrightarrow> remove_all pat s = s"
proof (induction s)
  case Nil
  then show ?case by simp
next
  case (Cons d ds)
  have "\<not> starts_with pat (d # ds)"
  proof
    assume "starts_with pat (d # ds)"
    then have "set pat \<subseteq> set (d # ds)"
      by (metis starts_with_def set_take_subset)
    with Cons.prems show False by auto
  qed
  with Cons show ?case by simp
qed

lemma dropWhile_none: "\<forall>c \<in> set s. \<not> p c \<Longrightarrow> dropWhile p s = s"
  by (cases s) auto

lemma strip_chars_absent: "\<forall>c \<in> set s. \<not> p c \<Longrightarrow> strip_chars p s = s"
  by (simp add: strip_chars_def dropWhile_none)

lemma lower_char_idem: "lower_char (lower_char c) = lower_char c"
  by (auto simp: lower_char_def char_code_def)

lemma length_py_lower [simp]: "length (py_lower s) = length s"
  by (simp add: py_lower_def)

lemma py_lower_drop: "py_lower (drop n s) = drop n (py_lower s)"
  by (simp add: py_lower_def drop_map)

section \<open>uuid.UUID\<close>

type_synonym uuid = "128 word"

definition hex_char :: "nat \<Rightarrow> char" where
  "hex_char d = (if d < 10 then char_of (48 + d) else char_of (87 + d))"

definition hex_val :: "char \<Rightarrow> nat option" where
  "hex_val c =
     (let n = char_code c in
      if 48 \<le> n \<and> n \<le> 57 then Some (n - 48)
      else if 97 \<le> n \<and> n \<le> 102 then Some (n - 87)
      else if 65 \<le> n \<and> n \<le> 70 then Some (n - 55)
      else None)"

fun hex_digits :: "nat \<Rightarrow> nat \<Rightarrow> string" where
  "hex_digits 0 n = []"
| "hex_digits (Suc k) n = hex_digits k (n div 16) @ [hex_char (n mod 16)]"

text \<open>\<open>str(u)\<close>: 32 lower-case hexadecimal digits in groups of 8, 4, 4, 4 and 12.\<close>

definition hyphenate :: "string \<Rightarrow> string" where
  "hyphenate h =
     take 8 h @ ''-'' @ take 4 (drop 8 h) @ ''-'' @ take 4 (drop 12 h) @ ''-'' @
     take 4 (drop 16 h) @ ''-'' @ drop 20 h"

definition uuid_str :: "uuid \<Rightarrow> string" where
  "uuid_str u = hyphenate (hex_digits 32 (unat u))"

text \<open>
  \<open>int(s, 16)\<close>: surrounding white space, a sign, a \<open>0x\<close> prefix and single underscores between
  digits are accepted.
\<close>

fun hex_more :: "nat \<Rightarrow> string \<Rightarrow> nat option" and hex_req :: "nat \<Rightarrow> string \<Rightarrow> nat option" where
  "hex_more acc [] = Some acc"
| "hex_more acc (c # cs) =
     (if c = CHR ''_'' then hex_req acc cs
      else case hex_val c of None \<Rightarrow> None | Some d \<Rightarrow> hex_more (acc * 16 + d) cs)"
| "hex_req acc [] = None"
| "hex_req acc (c # cs) =
     (case hex_val c of None \<Rightarrow> None | Some d \<Rightarrow> hex_more (acc * 16 + d) cs)"

definition drop_hex_prefix :: "string \<Rightarrow> string" where
  "drop_hex_prefix s =
     (if starts_with ''0x'' s \<or> starts_with ''0X'' s
      then (if starts_with ''_'' (drop 2 s) then drop 3 s else drop 2 s) else s)"

definition int_base16 :: "string \<Rightarrow> int option" where
  "int_base16 s =
     (case py_strip s of
        [] \<Rightarrow> None
      | c # cs \<Rightarrow>
          if c = CHR ''-'' then map_option (\<lambda>n. - int n) (hex_req 0 (drop_hex_prefix cs))
          else map_option int
            (hex_req 0 (drop_hex_prefix (if c = CHR ''+'' then cs else c # cs))))"

text \<open>\<open>uuid.UUID(s)\<close>, which raises \<open>ValueError\<close> on a string it does not accept.\<close>

definition uuid_parse :: "string \<Rightarrow> exn + uuid" where
  "uuid_parse s =
     (let h = remove_all ''-''
        (strip_chars (\<lambda>c. c = CHR ''{'' \<or> c = CHR ''}'')
          (remove_all ''uuid:'' (remove_all ''urn:'' s)))
      in if length h \<noteq> 32 then Inl (ValueError ''badly formed hexadecimal UUID string'')
         else case int_base16 h of
           None \<Rightarrow> Inl (ValueError ''invalid literal for int() with base 16'')
         | Some i \<Rightarrow>
             if 0 \<le> i \<and> i < 2 ^ 128 then Inr (word_of_int i)
             else Inl (ValueError ''int is out of range (need a 128-bit value)''))"

lemma uuid_parse_error: "uuid_parse s = Inl e \<Longrightarrow> \<exists>m. e = ValueError m"
  by (auto simp: uuid_parse_def Let_def split: if_splits option.splits)

lemma length_hex_digits [simp]: "length (hex_digits k n) = k"
  by (induction k arbitrary: n) auto

lemma code_hex_char: "d < 16 \<Longrightarrow> char_code (hex_char d) = (if d < 10 then 48 + d else 87 + d)"
  by (auto simp: hex_char_def char_code_def)

lemma hex_val_hex_char [simp]: "d < 16 \<Longrightarrow> hex_val (hex_char d) = Some d"
  by (auto simp: hex_val_def code_hex_char Let_def)

lemma hex_digits_codes:
  "c \<in> set (hex_digits k n) \<Longrightarrow>
    (48 \<le> char_code c \<and> char_code c \<le> 57) \<or> (97 \<le> char_code c \<and> char_code c \<le> 102)"
proof (induction k arbitrary: n)
  case 0
  then show ?case by simp
next
  case (Suc k)
  from Suc.prems consider "c \<in> set (hex_digits k (n div 16))" | "c = hex_char (n mod 16)"
    by auto
  then show ?case
  proof cases
    case 1
    then show ?thesis by (rule Suc.IH)
  next
    case 2
    moreover have "n mod 16 < 16" by simp
    ultimately show ?thesis by (auto simp: code_hex_char)
  qed
qed

lemma hex_digits_lower: "py_lower (hex_digits k n) = hex_digits k n"
  unfolding py_lower_def
  by (rule map_idI) (auto dest!: hex_digits_codes simp: lower_char_def)

lemma hex_digits_not_in:
  assumes "char_code c < 48 \<or> (57 < char_code c \<and> char_code c < 97) \<or> 102 < char_code c"
  shows "c \<notin> set (hex_digits k n)"
  using assms hex_digits_codes [of c k n] by linarith

lemma hex_more_append_digit:
  assumes "d < 16"
  shows "hex_more acc (s @ [hex_char d]) =
      (case hex_more acc s of Some m \<Rightarrow> Some (m * 16 + d)
        | None \<Rightarrow> hex_more acc (s @ [hex_char d]))"
    and "hex_req acc (s @ [hex_char d]) =
      (case hex_req acc s of Some m \<Rightarrow> Some (m * 16 + d)
        | None \<Rightarrow> hex_req acc (s @ [hex_char d]))"
proof (induction acc s and acc s rule: hex_more_hex_req.induct)
  case (1 acc)
  have "char_code (hex_char d) \<noteq> char_code (CHR ''_'')"
    using assms by (auto simp: code_hex_char) (auto simp: char_code_def)
  then have "hex_char d \<noteq> CHR ''_''" by auto
  then show ?case using assms by simp
qed (auto split: option.splits)

lemma hex_req_digits: "0 < k \<Longrightarrow> hex_req 0 (hex_digits k n) = Some (n mod 16 ^ k)"
proof (induction k arbitrary: n)
  case 0
  then show ?case by simp
next
  case (Suc k)
  show ?case
  proof (cases k)
    case 0
    then show ?thesis by simp
  next
    case (Suc j)
    with Suc.IH have "hex_req 0 (hex_digits k (n div 16)) = Some (n div 16 mod 16 ^ k)" by simp
    then have "hex_req 0 (hex_digits (Suc k) n) = Some (n div 16 mod 16 ^ k * 16 + n mod 16)"
      using hex_more_append_digit(2) [of "n mod 16" 0 "hex_digits k (n div 16)"] by simp
    also have "n div 16 mod 16 ^ k * 16 + n mod 16 = n mod 16 ^ Suc k"
      using mod_mult2_eq [of n 16 "16 ^ k"] by (simp add: mult.commute)
    finally show ?thesis .
  qed
qed

lemma length_uuid_str: "length (uuid_str u) = 36"
  by (simp add: uuid_str_def hyphenate_def)

lemma set_hyphenate: "set (hyphenate h) \<subseteq> insert (CHR ''-'') (set h)"
  by (auto simp: hyphenate_def dest: in_set_takeD in_set_dropD)

lemma uuid_str_not_in:
  assumes "c \<noteq> CHR ''-''"
    and "char_code c < 48 \<or> (57 < char_code c \<and> char_code c < 97) \<or> 102 < char_code c"
  shows "c \<notin> set (uuid_str u)"
  using set_hyphenate [of "hex_digits 32 (unat u)"]
    hex_digits_not_in [OF assms(2), of 32 "unat u"] assms(1)
  by (auto simp: uuid_str_def)

lemma remove_hyphens: "remove_all ''-'' s = filter (\<lambda>c. c \<noteq> CHR ''-'') s"
  by (induction s) (auto simp: starts_with_def)

lemma filter_hyphenate:
  assumes "CHR ''-'' \<notin> set h" and "length h = 32"
  shows "filter (\<lambda>c. c \<noteq> CHR ''-'') (hyphenate h) = h"
proof -
  have keep: "filter (\<lambda>c. c \<noteq> CHR ''-'') xs = xs" if "set xs \<subseteq> set h" for xs
    using that assms(1) by (auto intro: filter_True)
  have "filter (\<lambda>c. c \<noteq> CHR ''-'') (hyphenate h) =
      take 8 h @ take 4 (drop 8 h) @ take 4 (drop 12 h) @ take 4 (drop 16 h) @ drop 20 h"
    by (simp add: hyphenate_def keep set_take_subset set_drop_subset
        subset_trans [OF set_take_subset set_drop_subset])
  also have "take 4 (drop 16 h) @ drop 20 h = drop 16 h"
    using append_take_drop_id [of 4 "drop 16 h"] by simp
  also have "take 4 (drop 12 h) @ drop 16 h = drop 12 h"
    using append_take_drop_id [of 4 "drop 12 h"] by simp
  also have "take 4 (drop 8 h) @ drop 12 h = drop 8 h"
    using append_take_drop_id [of 4 "drop 8 h"] by simp
  finally show ?thesis by simp
qed

lemma no_u_in_uuid_str: "CHR ''u'' \<notin> set (uuid_str u)"
  by (rule uuid_str_not_in) (simp_all add: char_code_def)

lemma drop_hex_prefix_absent:
  assumes "CHR ''x'' \<notin> set s" and "CHR ''X'' \<notin> set s"
  shows "drop_hex_prefix s = s"
proof -
  have "\<not> starts_with ''0x'' s" and "\<not> starts_with ''0X'' s"
    using assms set_take_subset [of "length ''0x''" s] set_take_subset [of "length ''0X''" s]
    by (auto simp only: starts_with_def list.set) 
  then show ?thesis by (simp add: drop_hex_prefix_def)
qed

lemma int_base16_digits:
  assumes "0 < k"
  shows "int_base16 (hex_digits k n) = Some (int (n mod 16 ^ k))"
proof -
  note absent = hex_digits_not_in [where k = k and n = n]
  have s: "py_strip (hex_digits k n) = hex_digits k n"
    unfolding py_strip_def
  proof (rule strip_chars_absent, rule ballI)
    fix c
    assume "c \<in> set (hex_digits k n)"
    from hex_digits_codes [OF this] show "\<not> is_space c"
      by (auto simp: is_space_def char_code_def)
  qed
  obtain c cs where h: "hex_digits k n = c # cs"
    using assms by (cases "hex_digits k n") (auto dest: arg_cong [where f = length])
  have "c \<noteq> CHR ''-''" and "c \<noteq> CHR ''+''"
    using absent [of "CHR ''-''"] absent [of "CHR ''+''"] h by (auto simp: char_code_def)
  moreover have "drop_hex_prefix (hex_digits k n) = hex_digits k n"
    using absent [of "CHR ''x''"] absent [of "CHR ''X''"]
    by (intro drop_hex_prefix_absent) (auto simp: char_code_def)
  ultimately show ?thesis
    using hex_req_digits [OF assms, of n] s unfolding h
    by (simp add: int_base16_def del: hex_more.simps hex_req.simps)
qed

text \<open>Parsing what \<open>str\<close> prints gives the identifier back.\<close>

lemma uuid_parse_str [simp]: "uuid_parse (uuid_str u) = Inr u"
proof -
  let ?h = "hex_digits 32 (unat u)"
  have "remove_all ''urn:'' (uuid_str u) = uuid_str u"
    by (rule remove_all_absent [where c = "CHR ''u''"]) (simp_all add: no_u_in_uuid_str)
  moreover have "remove_all ''uuid:'' (uuid_str u) = uuid_str u"
    by (rule remove_all_absent [where c = "CHR ''u''"]) (simp_all add: no_u_in_uuid_str)
  moreover have "strip_chars (\<lambda>c. c = CHR ''{'' \<or> c = CHR ''}'') (uuid_str u) = uuid_str u"
    using uuid_str_not_in [of "CHR ''{''" u] uuid_str_not_in [of "CHR ''}''" u]
    by (intro strip_chars_absent) (auto simp: char_code_def)
  moreover have "remove_all ''-'' (uuid_str u) = ?h"
    using hex_digits_not_in [of "CHR ''-''" 32 "unat u"]
    by (simp add: remove_hyphens uuid_str_def filter_hyphenate char_code_def)
  moreover have "unat u mod 16 ^ 32 = unat u"
    using unsigned_less [of u, where 'a = nat] by simp
  moreover have "int (unat u) < 2 ^ 128"
    using uint_lt2p [of u] by simp
  ultimately show ?thesis
    by (simp add: uuid_parse_def int_base16_digits)
qed

lemma uuid_str_inject [simp]: "uuid_str u = uuid_str v \<longleftrightarrow> u = v"
  by (metis uuid_parse_str sum.inject(2))

section \<open>datetime\<close>

text \<open>
  A \<open>datetime\<close> without a time zone (what \<open>datetime.utcnow()\<close> returns) and one with a time zone
  (what \<open>datetime.now(timezone.utc)\<close> returns). Python refuses to order one against the other.
\<close>

datatype pydt = Naive int | Aware int

fun instant :: "pydt \<Rightarrow> int" where
  "instant (Naive t) = t"
| "instant (Aware t) = t"

fun dt_plus :: "pydt \<Rightarrow> int \<Rightarrow> pydt" where
  "dt_plus (Naive t) d = Naive (t + d)"
| "dt_plus (Aware t) d = Aware (t + d)"

fun dt_less :: "pydt \<Rightarrow> pydt \<Rightarrow> exn + bool" where
  "dt_less (Naive a) (Naive b) = Inr (a < b)"
| "dt_less (Aware a) (Aware b) = Inr (a < b)"
| "dt_less _ _ = Inl (TypeError ''cannot compare offset-naive and offset-aware datetimes'')"

definition minutes :: "int \<Rightarrow> int" where
  "minutes n = n * 60 * 1000000"

lemma instant_dt_plus [simp]: "instant (dt_plus d n) = instant d + n"
  by (cases d) auto

end
