(* ===== verification/Models.thy ===== *)
theory Models
  imports Py_Stdlib
begin

text \<open>
  The data of the service: the ORM classes of \<open>src/models\<close> as records of one row, their enum
  columns and the request enums of \<open>src/schemas\<close> as datatypes, the response DTOs, the Redis key
  names and time-to-live constants of \<open>src/redis/constants.py\<close>, and the settings of
  \<open>src/config.py\<close>. Decimal columns are rationals; time columns hold \<^typ>\<open>pydt\<close> values as the
  database driver returns them.
\<close>

section \<open>Enum columns\<close>

datatype seat_status = Available | Hold | Sold

datatype reservation_status = Held | Completed | Cancelled

datatype payment_status = Pending | PaymentCompleted | Failed

datatype payment_method = Card | BankTransfer

fun reservation_status_text :: "reservation_status \<Rightarrow> string" where
  "reservation_status_text Held = ''held''"
| "reservation_status_text Completed = ''completed''"
| "reservation_status_text Cancelled = ''cancelled''"

fun payment_method_text :: "payment_method \<Rightarrow> string" where
  "payment_method_text Card = ''card''"
| "payment_method_text BankTransfer = ''bank_transfer''"

section \<open>Rows\<close>

record user =
  usr_id :: uuid
  usr_email :: string
  hashed_password :: string
  user_name :: string
  usr_phone :: "string option"
  user_created_at :: pydt

record event =
  ev_id :: uuid
  event_name :: string
  ev_description :: "string option"
  ev_location :: string
  start_at :: pydt
  end_at :: pydt
  total_seats :: int
  available_seats :: int
  event_created_at :: pydt

record seat =
  seat_id :: uuid
  seat_event :: uuid
  section_code :: string
  seat_row :: string
  seat_number :: int
  seat_status :: seat_status
  price :: rat
  held_by :: "uuid option"
  held_until :: "pydt option"

record reservation =
  reservation_id :: uuid
  res_user :: uuid
  res_event :: uuid
  res_seat_ids :: "string list"
  res_status :: reservation_status
  res_created_at :: pydt
  expires_at :: pydt

record payment =
  payment_id :: uuid
  pay_reservation :: uuid
  pay_user :: uuid
  pay_amount :: rat
  pay_status :: payment_status
  pay_method :: string
  pay_created_at :: pydt

record tables =
  users :: "user list"
  events :: "event list"
  seats :: "seat list"
  reservations :: "reservation list"
  payments :: "payment list"

section \<open>Response DTOs\<close>

record seat_response =
  sr_seat_id :: uuid
  sr_event_id :: uuid
  sr_section :: string
  sr_row :: string
  sr_seat_number :: int
  sr_status :: seat_status
  sr_price :: rat

definition to_seat_response :: "seat \<Rightarrow> seat_response" where
  "to_seat_response s =
     \<lparr>sr_seat_id = seat_id s, sr_event_id = seat_event s, sr_section = section_code s,
      sr_row = seat_row s, sr_seat_number = seat_number s, sr_status = seat_status s,
      sr_price = price s\<rparr>"

record event_response =
  er_event_id :: uuid
  er_name :: string
  er_description :: "string option"
  er_location :: string
  er_start_at :: pydt
  er_end_at :: pydt
  er_total_seats :: int
  er_available_seats :: int

definition to_event_response :: "event \<Rightarrow> event_response" where
  "to_event_response e =
     \<lparr>er_event_id = ev_id e, er_name = event_name e, er_description = ev_description e,
      er_location = ev_location e, er_start_at = start_at e, er_end_at = end_at e,
      er_total_seats = total_seats e, er_available_seats = available_seats e\<rparr>"

record reservation_response =
  rr_reservation_id :: uuid
  rr_user_id :: uuid
  rr_event_id :: uuid
  rr_seat_ids :: "string list"
  rr_status :: reservation_status
  rr_created_at :: pydt
  rr_expires_at :: pydt
  rr_total_price :: rat

record payment_response =
  pr_payment_id :: uuid
  pr_reservation_id :: uuid
  pr_user_id :: uuid
  pr_amount :: rat
  pr_status :: payment_status
  pr_payment_method :: string
  pr_created_at :: pydt

definition to_payment_response :: "payment \<Rightarrow> payment_response" where
  "to_payment_response p =
     \<lparr>pr_payment_id = payment_id p, pr_reservation_id = pay_reservation p,
      pr_user_id = pay_user p, pr_amount = pay_amount p, pr_status = pay_status p,
      pr_payment_method = pay_method p, pr_created_at = pay_created_at p\<rparr>"

text \<open>\<open>HoldSeatsRequest.validate_seat_count\<close>: one to four seats.\<close>

definition validate_seat_count :: "uuid list \<Rightarrow> exn + uuid list" where
  "validate_seat_count v =
     (if length v = 0 then Inl (ValueError ''At least one seat required'')
      else if length v > 4 then Inl (ValueError ''Cannot hold more than 4 seats at once'')
      else Inr v)"

section \<open>Redis keys and times to live\<close>

definition QUEUE_KEY :: "string \<Rightarrow> string" where
  "QUEUE_KEY e = ''queue:'' @ e"

definition SEAT_HOLD_KEY :: "string \<Rightarrow> string \<Rightarrow> string" where
  "SEAT_HOLD_KEY e s = ''seat:'' @ e @ '':'' @ s @ '':hold''"

definition SEAT_STATUS_KEY :: "string \<Rightarrow> string" where
  "SEAT_STATUS_KEY e = ''seat:'' @ e @ '':status''"

definition LOCK_RESERVATION_KEY :: "string \<Rightarrow> string" where
  "LOCK_RESERVATION_KEY e = ''lock:reservation:'' @ e"

definition CACHE_EVENT_KEY :: "string \<Rightarrow> string" where
  "CACHE_EVENT_KEY e = ''cache:event:'' @ e"

definition CACHE_SEATS_KEY :: "string \<Rightarrow> string" where
  "CACHE_SEATS_KEY e = ''cache:seats:'' @ e"

definition CACHE_AVAILABLE_SEATS_KEY :: "string \<Rightarrow> string" where
  "CACHE_AVAILABLE_SEATS_KEY e = ''cache:available-seats:'' @ e"

text \<open>In milliseconds.\<close>

definition QUEUE_TTL :: int where "QUEUE_TTL = 3600 * 1000"
definition CACHE_TTL :: int where "CACHE_TTL = 600 * 1000"
definition SEAT_HOLD_TTL :: int where "SEAT_HOLD_TTL = 300 * 1000"
definition SEAT_CACHE_TTL :: int where "SEAT_CACHE_TTL = 10 * 1000"

lemma lock_key_not_hold_key: "LOCK_RESERVATION_KEY e \<noteq> SEAT_HOLD_KEY f s"
  by (simp add: LOCK_RESERVATION_KEY_def SEAT_HOLD_KEY_def)

lemma lock_key_not_cache_key:
  "LOCK_RESERVATION_KEY e \<noteq> CACHE_SEATS_KEY f" "LOCK_RESERVATION_KEY e \<noteq> CACHE_AVAILABLE_SEATS_KEY f"
  by (simp_all add: LOCK_RESERVATION_KEY_def CACHE_SEATS_KEY_def CACHE_AVAILABLE_SEATS_KEY_def)

lemma hold_key_not_cache_key:
  "SEAT_HOLD_KEY f s \<noteq> CACHE_SEATS_KEY e" "SEAT_HOLD_KEY f s \<noteq> CACHE_AVAILABLE_SEATS_KEY e"
  by (simp_all add: SEAT_HOLD_KEY_def CACHE_SEATS_KEY_def CACHE_AVAILABLE_SEATS_KEY_def)

lemmas key_distinct [simp] =
  lock_key_not_hold_key lock_key_not_hold_key [symmetric]
  lock_key_not_cache_key lock_key_not_cache_key [symmetric]
  hold_key_not_cache_key hold_key_not_cache_key [symmetric]

lemma lock_key_inject [simp]: "LOCK_RESERVATION_KEY e = LOCK_RESERVATION_KEY f \<longleftrightarrow> e = f"
  by (simp add: LOCK_RESERVATION_KEY_def)

lemma queue_key_inject [simp]: "QUEUE_KEY e = QUEUE_KEY f \<longleftrightarrow> e = f"
  by (simp add: QUEUE_KEY_def)

section \<open>Settings\<close>

record settings =
  database_url :: string
  redis_url :: string
  debug :: bool
  log_level :: string
  secret_key :: string
  jwt_algorithm :: string
  jwt_expiration_hours :: int
  queue_token_expiration_hours :: int
  cors_origins :: "string list"
  internal_secret :: string

text \<open>The defaults of the settings that have one, for the database and the secret the environment gives.\<close>

definition default_settings :: "string \<Rightarrow> string \<Rightarrow> settings" where
  "default_settings db_url secret =
     \<lparr>database_url = db_url, redis_url = ''redis://localhost:6379'', debug = False, log_level = ''info'',
      secret_key = secret, jwt_algorithm = ''HS256'', jwt_expiration_hours = 24,
      queue_token_expiration_hours = 1, cors_origins = [''http://localhost:3001'', ''http://localhost:5173''],
      internal_secret = ''''\<rparr>"

end
