(* ===== verification/Backend.thy ===== *)
theory Backend
  imports Models "HOL-Library.Char_ord" "HOL-Library.List_Lexorder"
begin

text \<open>
  The interfaces to the code that is not in the repository: the Redis client, the SQLAlchemy
  session over PostgreSQL, and the run-time services of the interpreter (clock, sleep, UUIDs,
  random numbers, Prometheus counters). Each is a record of operations on an opaque world; the
  locales state what their documentation promises, over the part of the world the code can
  observe (\<open>vstate\<close>). Every operation that leaves the process may also fail with an
  \<open>ExternalError\<close>. The service's methods take these records as arguments.
\<close>

section \<open>What is observable\<close>

text \<open>
  The values Redis holds. A JSON text is represented by the value \<open>json.dumps\<close> was given, which
  \<open>json.loads\<close> gives back.
\<close>

datatype rvalue =
    Text string
  | Count nat
  | SeatsJson "seat_response list"
  | PlanJson int real
  | ForecastJson int string
  | UpdateJson string "(string \<times> seat_status) list" int

text \<open>
  The Redis keyspace: strings with the time to live they were last given (in milliseconds),
  sorted sets as lists in rank order, their time to live, and the messages published so far.
\<close>

record rdb =
  kv :: "string \<Rightarrow> (rvalue \<times> int option) option"
  zsets :: "string \<Rightarrow> (string \<times> int) list"
  zttl :: "string \<Rightarrow> int option"
  published :: "(string \<times> rvalue) list"

text \<open>
  The view: the committed tables, the tables as the session sees them (with its own changes), the
  session's identity map (the reservation objects it has loaded and not expired), the Redis
  keyspace, the last clock reading, the UUIDs handed out, the counter of blocked duplicates,
  whether the time columns were created with a time zone (by \<open>create_all\<close> on the ORM classes) or
  without (by the Alembic migration), the minimum of each autoscaler and the replicas of each
  deployment of the cluster (by namespace and name), and the process's own variables: the events
  scaled up for, with their opening time, and the gauge and the counter of the pre-scaling; whether
  the file with the weights of the network exists, the optimizer steps taken on the network in
  training, and whether the process has loaded a forecaster.
\<close>

record vstate =
  com :: tables
  ses :: tables
  imap :: "uuid \<Rightarrow> reservation option"
  redis :: rdb
  clk :: int
  issued :: "uuid list"
  dups :: nat
  tz_columns :: bool
  hpa_min :: "string \<times> string \<Rightarrow> int"
  replicas :: "string \<times> string \<Rightarrow> int"
  scaled_events :: "(string \<times> int) list"
  predicted_gauge :: int
  prescales :: nat
  model_file :: bool
  train_steps :: nat
  forecaster_loaded :: bool

text \<open>A session at the start of a request: nothing changed, nothing loaded.\<close>

definition fresh_session :: "vstate \<Rightarrow> bool" where
  "fresh_session s \<longleftrightarrow> ses s = com s \<and> imap s = Map.empty"

section \<open>Redis commands\<close>

definition rdb_get :: "string \<Rightarrow> rdb \<Rightarrow> rvalue option" where
  "rdb_get k d = map_option fst (kv d k)"

definition rdb_set :: "string \<Rightarrow> rvalue \<Rightarrow> int option \<Rightarrow> rdb \<Rightarrow> rdb" where
  "rdb_set k x ttl d = d\<lparr>kv := (kv d)(k \<mapsto> (x, ttl))\<rparr>"

definition rdb_del :: "string \<Rightarrow> rdb \<Rightarrow> rdb" where
  "rdb_del k d = d\<lparr>kv := (kv d)(k := None)\<rparr>"

text \<open>Sorted sets are ordered by score, and by member where scores are equal.\<close>

fun zinsert :: "string \<times> int \<Rightarrow> (string \<times> int) list \<Rightarrow> (string \<times> int) list" where
  "zinsert x [] = [x]"
| "zinsert x (y # ys) =
     (if snd x < snd y \<or> (snd x = snd y \<and> fst x < fst y) then x # y # ys else y # zinsert x ys)"

definition zremove :: "string \<Rightarrow> (string \<times> int) list \<Rightarrow> (string \<times> int) list" where
  "zremove m xs = filter (\<lambda>p. fst p \<noteq> m) xs"

fun zposition :: "string \<Rightarrow> (string \<times> int) list \<Rightarrow> nat option" where
  "zposition m [] = None"
| "zposition m (p # ps) = (if fst p = m then Some 0 else map_option Suc (zposition m ps))"

definition rdb_zadd :: "string \<Rightarrow> string \<Rightarrow> int \<Rightarrow> rdb \<Rightarrow> rdb" where
  "rdb_zadd k m sc d = d\<lparr>zsets := (zsets d)(k := zinsert (m, sc) (zremove m (zsets d k)))\<rparr>"

definition rdb_zrem :: "string \<Rightarrow> string \<Rightarrow> rdb \<Rightarrow> rdb" where
  "rdb_zrem k m d = d\<lparr>zsets := (zsets d)(k := zremove m (zsets d k))\<rparr>"

definition rdb_zrank :: "string \<Rightarrow> string \<Rightarrow> rdb \<Rightarrow> nat option" where
  "rdb_zrank k m d = zposition m (zsets d k)"

definition rdb_expire :: "string \<Rightarrow> int \<Rightarrow> rdb \<Rightarrow> rdb" where
  "rdb_expire k ttl d =
     d\<lparr>kv := (case kv d k of None \<Rightarrow> kv d | Some (x, _) \<Rightarrow> (kv d)(k \<mapsto> (x, Some ttl))),
       zttl := (if zsets d k = [] then zttl d else (zttl d)(k \<mapsto> ttl))\<rparr>"

definition rdb_publish :: "string \<Rightarrow> rvalue \<Rightarrow> rdb \<Rightarrow> rdb" where
  "rdb_publish c x d = d\<lparr>published := published d @ [(c, x)]\<rparr>"

text \<open>The commands queued in a pipeline, which runs as one transaction.\<close>

datatype rcommand =
    CSet string rvalue int
  | CDelete string
  | CPublish string rvalue
  | CZadd string string int
  | CExpire string int

fun run_command :: "rcommand \<Rightarrow> rdb \<Rightarrow> rdb" where
  "run_command (CSet k x ttl) d = rdb_set k x (Some ttl) d"
| "run_command (CDelete k) d = rdb_del k d"
| "run_command (CPublish c x) d = rdb_publish c x d"
| "run_command (CZadd k m sc) d = rdb_zadd k m sc d"
| "run_command (CExpire k ttl) d = rdb_expire k ttl d"

definition run_pipeline :: "rcommand list \<Rightarrow> rdb \<Rightarrow> rdb" where
  "run_pipeline cs d = fold run_command cs d"

section \<open>The operations\<close>

record 'w redis_client =
  r_get :: "string \<Rightarrow> ('w, rvalue option) py"
  r_set_nx :: "string \<Rightarrow> rvalue \<Rightarrow> int \<Rightarrow> ('w, bool) py"
  r_set_ex :: "string \<Rightarrow> rvalue \<Rightarrow> int \<Rightarrow> ('w, unit) py"
  r_exists :: "string \<Rightarrow> ('w, nat) py"
  r_incr :: "string \<Rightarrow> ('w, nat) py"
  r_expire :: "string \<Rightarrow> int \<Rightarrow> ('w, unit) py"
  r_zrank :: "string \<Rightarrow> string \<Rightarrow> ('w, nat option) py"
  r_zcard :: "string \<Rightarrow> ('w, nat) py"
  r_zrem :: "string \<Rightarrow> string \<Rightarrow> ('w, nat) py"
  r_pipeline :: "rcommand list \<Rightarrow> ('w, unit) py"
  r_eval :: "(rdb \<Rightarrow> nat \<times> rdb) \<Rightarrow> ('w, nat) py"

record 'w db_session =
  q_seats :: "(seat \<Rightarrow> bool) \<Rightarrow> ('w, seat list) py"
  q_seats_for_update :: "(seat \<Rightarrow> bool) \<Rightarrow> ('w, seat list) py"
  q_seats_ordered :: "(seat \<Rightarrow> bool) \<Rightarrow> ('w, seat list) py"
  save_seat :: "seat \<Rightarrow> ('w, unit) py"
  reload_seats :: "seat list \<Rightarrow> ('w, seat list) py"
  q_reservations :: "(reservation \<Rightarrow> bool) \<Rightarrow> ('w, reservation list) py"
  insert_reservation ::
    "uuid \<Rightarrow> uuid \<Rightarrow> string list \<Rightarrow> reservation_status \<Rightarrow> pydt \<Rightarrow> ('w, reservation) py"
  assign_reservation_status :: "uuid \<Rightarrow> reservation_status \<Rightarrow> ('w, unit) py"
  reload_reservation :: "reservation \<Rightarrow> ('w, reservation) py"
  q_payments :: "(payment \<Rightarrow> bool) \<Rightarrow> ('w, payment list) py"
  insert_payment ::
    "uuid \<Rightarrow> uuid \<Rightarrow> rat \<Rightarrow> payment_status \<Rightarrow> string \<Rightarrow> ('w, payment) py"
  assign_payment_status :: "uuid \<Rightarrow> payment_status \<Rightarrow> ('w, unit) py"
  reload_payment :: "payment \<Rightarrow> ('w, payment) py"
  q_events :: "(event \<Rightarrow> bool) \<Rightarrow> ('w, event list) py"
  q_events_by_text :: "string \<Rightarrow> ('w, event list) py"
  add_event :: "event \<Rightarrow> ('w, unit) py"
  add_seat :: "seat \<Rightarrow> ('w, unit) py"
  q_users :: "(user \<Rightarrow> bool) \<Rightarrow> ('w, user list) py"
  add_user :: "user \<Rightarrow> ('w, unit) py"
  count_events :: "('w, nat) py"
  q_events_page :: "nat \<Rightarrow> nat \<Rightarrow> ('w, event list) py"
  flush :: "('w, unit) py"
  commit :: "('w, unit) py"
  rollback :: "('w, unit) py"
  close_session :: "('w, unit) py"
  expired_hold_exists :: "('w, bool) py"

text \<open>A line of the access log: method, path, status, duration in milliseconds, and the client's address.\<close>

record access_line =
  al_method :: string
  al_path :: string
  al_status :: nat
  al_duration :: real
  al_ip :: string

record 'w runtime =
  utcnow :: "('w, int) py"
  sleep_ms :: "int \<Rightarrow> ('w, unit) py"
  uuid4 :: "('w, uuid) py"
  random_unit :: "('w, rat) py"
  inc_duplicates :: "('w, unit) py"
  time_time :: "('w, real) py"
  log_access :: "bool \<Rightarrow> access_line \<Rightarrow> ('w, unit) py"

text \<open>The Kubernetes API, and the variables the scaling module keeps in the process.\<close>

record 'w cluster =
  load_any_config :: "('w, bool) py"
  load_in_cluster :: "('w, bool) py"
  patch_hpa_min :: "string \<Rightarrow> string \<Rightarrow> int \<Rightarrow> ('w, unit) py"
  read_scale :: "string \<Rightarrow> string \<Rightarrow> ('w, int) py"
  patch_scale :: "string \<Rightarrow> string \<Rightarrow> int \<Rightarrow> ('w, unit) py"
  get_scaled :: "('w, (string \<times> int) list) py"
  put_scaled :: "(string \<times> int) list \<Rightarrow> ('w, unit) py"
  set_gauge :: "int \<Rightarrow> ('w, unit) py"
  inc_prescales :: "('w, unit) py"

section \<open>Documented behaviour\<close>

subsection \<open>Redis\<close>

definition fails :: "(vstate, 'a) outcomes" where
  "fails s = {(Inl (ExternalError m), s) | m. True}"

definition redis_ok :: "'a \<Rightarrow> (rdb \<Rightarrow> rdb) \<Rightarrow> (vstate, 'a) outcomes" where
  "redis_ok r f s = insert (Inr r, s\<lparr>redis := f (redis s)\<rparr>) (fails s)"

text \<open>\<open>SET k x NX PX ttl\<close> sets only a key that does not exist.\<close>

definition set_nx_outcomes :: "string \<Rightarrow> rvalue \<Rightarrow> int \<Rightarrow> (vstate, bool) outcomes" where
  "set_nx_outcomes k x ttl s =
     (if rdb_get k (redis s) = None then redis_ok True (rdb_set k x (Some ttl)) s
      else redis_ok False id s)"

text \<open>\<open>INCR\<close> starts a missing key at 0 and keeps the time to live of one that exists.\<close>

definition incr_outcomes :: "string \<Rightarrow> (vstate, nat) outcomes" where
  "incr_outcomes k s =
     (case kv (redis s) k of
        None \<Rightarrow> redis_ok 1 (rdb_set k (Count 1) None) s
      | Some (Count n, ttl) \<Rightarrow> redis_ok (Suc n) (rdb_set k (Count (Suc n)) ttl) s
      | Some _ \<Rightarrow> fails s)"

locale redis_laws =
  fixes R :: "'w redis_client" and v :: "'w \<Rightarrow> vstate"
  assumes get: "refines v (r_get R k) (\<lambda>s. redis_ok (rdb_get k (redis s)) id s)"
    and set_nx: "refines v (r_set_nx R k x ttl) (set_nx_outcomes k x ttl)"
    and set_ex: "refines v (r_set_ex R k x ttl) (redis_ok () (rdb_set k x (Some ttl)))"
    and exists: "refines v (r_exists R k)
      (\<lambda>s. redis_ok (if rdb_get k (redis s) = None then 0 else 1) id s)"
    and incr: "refines v (r_incr R k) (incr_outcomes k)"
    and expire: "refines v (r_expire R k ttl) (redis_ok () (rdb_expire k ttl))"
    and zrank: "refines v (r_zrank R k m) (\<lambda>s. redis_ok (rdb_zrank k m (redis s)) id s)"
    and zcard: "refines v (r_zcard R k) (\<lambda>s. redis_ok (length (zsets (redis s) k)) id s)"
    and zrem: "refines v (r_zrem R k m)
      (\<lambda>s. redis_ok (if rdb_zrank k m (redis s) = None then 0 else 1) (rdb_zrem k m) s)"
    and pipeline: "refines v (r_pipeline R cs) (redis_ok () (run_pipeline cs))"
    and eval: "refines v (r_eval R script)
      (\<lambda>s. redis_ok (fst (script (redis s))) (\<lambda>d. snd (script d)) s)"

subsection \<open>The database session\<close>

text \<open>
  What a stored time reads back as, a row as the session's identity map presents it, and the
  identity map after rows were loaded.
\<close>

definition column_dt :: "vstate \<Rightarrow> pydt \<Rightarrow> pydt" where
  "column_dt s d = (if tz_columns s then Aware (instant d) else Naive (instant d))"

definition as_loaded :: "vstate \<Rightarrow> reservation \<Rightarrow> reservation" where
  "as_loaded s r = (case imap s (reservation_id r) of None \<Rightarrow> r | Some r' \<Rightarrow> r')"

definition remember :: "reservation list \<Rightarrow> vstate \<Rightarrow> vstate" where
  "remember rs s = s\<lparr>imap := fold (\<lambda>r m. m(reservation_id r \<mapsto> r)) rs (imap s)\<rparr>"

definition discard :: "vstate \<Rightarrow> vstate" where
  "discard s = s\<lparr>ses := com s, imap := Map.empty\<rparr>"

definition commit_changes :: "vstate \<Rightarrow> vstate" where
  "commit_changes s = s\<lparr>com := ses s, imap := Map.empty\<rparr>"

text \<open>A failed flush or commit leaves the transaction rolled back.\<close>

definition rolls_back :: "(vstate, 'a) outcomes" where
  "rolls_back s = {(Inl (ExternalError m), discard s) | m. True}"

definition rows_like :: "'a list \<Rightarrow> 'a list \<Rightarrow> bool" where
  "rows_like xs ys \<longleftrightarrow> mset xs = mset ys"

definition seat_rows :: "(seat \<Rightarrow> bool) \<Rightarrow> (vstate, seat list) outcomes" where
  "seat_rows P s = {(Inr xs, s) | xs. rows_like xs (filter P (seats (ses s)))} \<union> fails s"

definition seat_key :: "seat \<Rightarrow> string \<times> string \<times> int" where
  "seat_key s = (section_code s, seat_row s, seat_number s)"

definition seat_before :: "seat \<Rightarrow> seat \<Rightarrow> bool" where
  "seat_before a b \<longleftrightarrow>
     section_code a < section_code b \<or>
     (section_code a = section_code b \<and>
       (seat_row a < seat_row b \<or> (seat_row a = seat_row b \<and> seat_number a \<le> seat_number b)))"

definition ordered_seat_rows :: "(seat \<Rightarrow> bool) \<Rightarrow> (vstate, seat list) outcomes" where
  "ordered_seat_rows P s =
     {(Inr xs, s) | xs. rows_like xs (filter P (seats (ses s))) \<and> sorted_wrt seat_before xs} \<union> fails s"

definition put_seat :: "seat \<Rightarrow> tables \<Rightarrow> tables" where
  "put_seat x t = t\<lparr>seats := map (\<lambda>y. if seat_id y = seat_id x then x else y) (seats t)\<rparr>"

definition put_reservation_status :: "uuid \<Rightarrow> reservation_status \<Rightarrow> tables \<Rightarrow> tables" where
  "put_reservation_status i st t =
     t\<lparr>reservations :=
        map (\<lambda>r. if reservation_id r = i then r\<lparr>res_status := st\<rparr> else r) (reservations t)\<rparr>"

definition put_payment_status :: "uuid \<Rightarrow> payment_status \<Rightarrow> tables \<Rightarrow> tables" where
  "put_payment_status i st t =
     t\<lparr>payments := map (\<lambda>p. if payment_id p = i then p\<lparr>pay_status := st\<rparr> else p) (payments t)\<rparr>"

definition reservation_rows :: "(reservation \<Rightarrow> bool) \<Rightarrow> (vstate, reservation list) outcomes" where
  "reservation_rows P s =
     {(Inr (map (as_loaded s) xs), remember (map (as_loaded s) xs) s) | xs.
        rows_like xs (filter P (reservations (ses s)))} \<union> fails s"

text \<open>
  An inserted row gets a primary key that no row has and its creation time; its expiry reads back
  as the column's type says. The object in the session keeps the value it was given.
\<close>

definition insert_reservation_outcomes ::
  "uuid \<Rightarrow> uuid \<Rightarrow> string list \<Rightarrow> reservation_status \<Rightarrow> pydt \<Rightarrow> (vstate, reservation) outcomes" where
  "insert_reservation_outcomes u e sids st ex s =
     {(Inr r, s\<lparr>ses := (ses s)\<lparr>reservations := reservations (ses s) @
                 [r\<lparr>res_created_at := column_dt s (res_created_at r),
                    expires_at := column_dt s ex\<rparr>]\<rparr>,
               imap := (imap s)(reservation_id r \<mapsto> r)\<rparr>) | r.
        reservation_id r \<notin> reservation_id ` set (reservations (ses s)) \<and>
        res_user r = u \<and> res_event r = e \<and> res_seat_ids r = sids \<and> res_status r = st \<and>
        expires_at r = ex} \<union> rolls_back s"

definition insert_payment_outcomes ::
  "uuid \<Rightarrow> uuid \<Rightarrow> rat \<Rightarrow> payment_status \<Rightarrow> string \<Rightarrow> (vstate, payment) outcomes" where
  "insert_payment_outcomes rid u a st meth s =
     {(Inr p, s\<lparr>ses := (ses s)\<lparr>payments := payments (ses s) @
                 [p\<lparr>pay_created_at := column_dt s (pay_created_at p)\<rparr>]\<rparr>\<rparr>) | p.
        payment_id p \<notin> payment_id ` set (payments (ses s)) \<and>
        pay_reservation p = rid \<and> pay_user p = u \<and> pay_amount p = a \<and> pay_status p = st \<and>
        pay_method p = meth} \<union> rolls_back s"

definition assign_reservation_outcomes ::
  "uuid \<Rightarrow> reservation_status \<Rightarrow> (vstate, unit) outcomes" where
  "assign_reservation_outcomes i st s =
     {(Inr (), s\<lparr>ses := put_reservation_status i st (ses s),
                imap := (imap s)(i := map_option (\<lambda>r. r\<lparr>res_status := st\<rparr>) (imap s i))\<rparr>)}"

text \<open>
  A comparison of the key column with a string leaves the reading of the string to the database:
  what \<open>str\<close> prints for a key is read as that key, another text as some key or with an error.
\<close>

definition event_rows_by_text :: "string \<Rightarrow> (vstate, event list) outcomes" where
  "event_rows_by_text ident s =
     {(Inr xs, s) | xs u. rows_like xs (filter (\<lambda>e. ev_id e = u) (events (ses s))) \<and>
        (\<forall>u'. ident = uuid_str u' \<longrightarrow> u = u')} \<union> fails s"

text \<open>A new object is inserted with the next flush; the creation time is a default of the column.\<close>

definition stored_event :: "vstate \<Rightarrow> pydt \<Rightarrow> event \<Rightarrow> event" where
  "stored_event s c e = e\<lparr>start_at := column_dt s (start_at e), end_at := column_dt s (end_at e),
     event_created_at := column_dt s c\<rparr>"

definition stored_user :: "vstate \<Rightarrow> pydt \<Rightarrow> user \<Rightarrow> user" where
  "stored_user s c u = u\<lparr>user_created_at := column_dt s c\<rparr>"

definition event_later :: "event \<Rightarrow> event \<Rightarrow> bool" where
  "event_later a b \<longleftrightarrow> instant (start_at b) \<le> instant (start_at a)"

text \<open>\<open>ORDER BY start_at DESC OFFSET off LIMIT n\<close>.\<close>

definition event_page :: "nat \<Rightarrow> nat \<Rightarrow> (vstate, event list) outcomes" where
  "event_page off n s =
     {(Inr (take n (drop off xs)), s) | xs.
        rows_like xs (events (ses s)) \<and> sorted_wrt event_later xs} \<union> fails s"

text \<open>
  Closing a session drops what it changed. The clean-up's first query compares with the clock of
  the database, which need not agree with the process's.
\<close>

locale db_laws =
  fixes D :: "'w db_session" and v :: "'w \<Rightarrow> vstate"
  assumes q_seats: "refines v (q_seats D P) (seat_rows P)"
    and q_seats_for_update: "refines v (q_seats_for_update D P) (seat_rows P)"
    and q_seats_ordered: "refines v (q_seats_ordered D P) (ordered_seat_rows P)"
    and save_seat: "refines v (save_seat D x) (\<lambda>s. {(Inr (), s\<lparr>ses := put_seat x (ses s)\<rparr>)})"
    and reload_seats: "refines v (reload_seats D xs)
      (\<lambda>s. {(Inr ys, s) | ys. map seat_id ys = map seat_id xs \<and> set ys \<subseteq> set (seats (ses s))} \<union> fails s)"
    and q_reservations: "refines v (q_reservations D PR) (reservation_rows PR)"
    and insert_reservation: "refines v (insert_reservation D u e sids st ex)
      (insert_reservation_outcomes u e sids st ex)"
    and assign_reservation_status: "refines v (assign_reservation_status D i st)
      (assign_reservation_outcomes i st)"
    and reload_reservation: "refines v (reload_reservation D r)
      (\<lambda>s. {(Inr (as_loaded s r'), remember [as_loaded s r'] s) | r'.
              r' \<in> set (reservations (ses s)) \<and> reservation_id r' = reservation_id r} \<union> fails s)"
    and q_payments: "refines v (q_payments D PP)
      (\<lambda>s. {(Inr xs, s) | xs. rows_like xs (filter PP (payments (ses s)))} \<union> fails s)"
    and insert_payment: "refines v (insert_payment D rid u a pst meth)
      (insert_payment_outcomes rid u a pst meth)"
    and assign_payment_status: "refines v (assign_payment_status D i pst)
      (\<lambda>s. {(Inr (), s\<lparr>ses := put_payment_status i pst (ses s)\<rparr>)})"
    and reload_payment: "refines v (reload_payment D p)
      (\<lambda>s. {(Inr p', s) | p'. p' \<in> set (payments (ses s)) \<and> payment_id p' = payment_id p} \<union> fails s)"
    and q_events: "refines v (q_events D PE)
      (\<lambda>s. {(Inr xs, s) | xs. rows_like xs (filter PE (events (ses s)))} \<union> fails s)"
    and q_events_by_text: "refines v (q_events_by_text D ident) (event_rows_by_text ident)"
    and add_event: "refines v (add_event D ev)
      (\<lambda>s. {(Inr (), s\<lparr>ses := (ses s)\<lparr>events := events (ses s) @ [stored_event s c ev]\<rparr>\<rparr>) | c. True})"
    and add_seat: "refines v (add_seat D x)
      (\<lambda>s. {(Inr (), s\<lparr>ses := (ses s)\<lparr>seats := seats (ses s) @ [x]\<rparr>\<rparr>)})"
    and q_users: "refines v (q_users D PU)
      (\<lambda>s. {(Inr xs, s) | xs. rows_like xs (filter PU (users (ses s)))} \<union> fails s)"
    and add_user: "refines v (add_user D usr)
      (\<lambda>s. {(Inr (), s\<lparr>ses := (ses s)\<lparr>users := users (ses s) @ [stored_user s c usr]\<rparr>\<rparr>) | c. True})"
    and count_events: "refines v (count_events D) (\<lambda>s. insert (Inr (length (events (ses s))), s) (fails s))"
    and q_events_page: "refines v (q_events_page D off n) (event_page off n)"
    and flush: "refines v (flush D) (\<lambda>s. insert (Inr (), s) (rolls_back s))"
    and commit: "refines v (commit D) (\<lambda>s. insert (Inr (), commit_changes s) (rolls_back s))"
    and rollback: "refines v (rollback D) (\<lambda>s. insert (Inr (), discard s) (rolls_back s))"
    and close_session: "refines v (close_session D) (\<lambda>s. insert (Inr (), discard s) (rolls_back s))"
    and expired_hold_exists: "refines v (expired_hold_exists D) (\<lambda>s.
      {(Inr (\<exists>r \<in> set (reservations (ses s)). res_status r = Held \<and> instant (expires_at r) < t), s) | t. True}
        \<union> fails s)"

subsection \<open>The run time\<close>

text \<open>
  The clock of \<open>datetime\<close> is not set back between two readings of one request. Nothing is assumed of the
  numbers \<open>time.time\<close> gives; the log handlers report their own failures and raise nothing.
\<close>

locale runtime_laws =
  fixes T :: "'w runtime" and v :: "'w \<Rightarrow> vstate"
  assumes utcnow: "refines v (utcnow T) (\<lambda>s. {(Inr t, s\<lparr>clk := t\<rparr>) | t. clk s \<le> t})"
    and sleep: "refines v (sleep_ms T ms) (\<lambda>s. {(Inr (), s\<lparr>clk := t\<rparr>) | t. clk s + ms * 1000 \<le> t})"
    and uuid4: "refines v (uuid4 T)
      (\<lambda>s. {(Inr u, s\<lparr>issued := u # issued s\<rparr>) | u. u \<notin> set (issued s)} \<union> fails s)"
    and random_unit: "refines v (random_unit T) (\<lambda>s. {(Inr q, s) | q. 0 \<le> q \<and> q < 1})"
    and inc_duplicates: "refines v (inc_duplicates T) (\<lambda>s. {(Inr (), s\<lparr>dups := Suc (dups s)\<rparr>)})"
    and time_time: "refines v (time_time T) (\<lambda>s. {(Inr x, s) | x. True})"
    and log_access: "refines v (log_access T slow line) (\<lambda>s. {(Inr (), s)})"

subsection \<open>The cluster\<close>

definition api_fails :: "(vstate, 'a) outcomes" where
  "api_fails s = fails s \<union> {(Inl (ApiException m), s) | m. True}"

locale cluster_laws =
  fixes K :: "'w cluster" and v :: "'w \<Rightarrow> vstate"
  assumes load_any_config: "refines v (load_any_config K) (\<lambda>s. {(Inr b, s) | b. True})"
    and load_in_cluster: "refines v (load_in_cluster K) (\<lambda>s. {(Inr b, s) | b. True})"
    and patch_hpa_min: "refines v (patch_hpa_min K name ns n)
      (\<lambda>s. insert (Inr (), s\<lparr>hpa_min := (hpa_min s)((ns, name) := n)\<rparr>) (api_fails s))"
    and read_scale: "refines v (read_scale K name ns)
      (\<lambda>s. insert (Inr (replicas s (ns, name)), s) (api_fails s))"
    and patch_scale: "refines v (patch_scale K name ns n)
      (\<lambda>s. insert (Inr (), s\<lparr>replicas := (replicas s)((ns, name) := n)\<rparr>) (api_fails s))"
    and get_scaled: "refines v (get_scaled K) (\<lambda>s. {(Inr (scaled_events s), s)})"
    and put_scaled: "refines v (put_scaled K es) (\<lambda>s. {(Inr (), s\<lparr>scaled_events := es\<rparr>)})"
    and set_gauge: "refines v (set_gauge K g) (\<lambda>s. {(Inr (), s\<lparr>predicted_gauge := g\<rparr>)})"
    and inc_prescales: "refines v (inc_prescales K) (\<lambda>s. {(Inr (), s\<lparr>prescales := Suc (prescales s)\<rparr>)})"

locale lock_services = redis_laws R v + runtime_laws T v
  for R :: "'w redis_client" and T :: "'w runtime" and v :: "'w \<Rightarrow> vstate"

locale backend = lock_services R T v + db_laws D v
  for R :: "'w redis_client" and D :: "'w db_session" and T :: "'w runtime" and v :: "'w \<Rightarrow> vstate"

section \<open>What a method may rely on\<close>

text \<open>The laws as rules about the guarantees of a method, one per operation.\<close>

named_theorems law_simps \<open>the definitions of the documented outcomes\<close>

lemmas [law_simps] = fails_def redis_ok_def set_nx_outcomes_def seat_rows_def ordered_seat_rows_def
  reservation_rows_def insert_reservation_outcomes_def insert_payment_outcomes_def
  assign_reservation_outcomes_def rolls_back_def event_page_def event_rows_by_text_def api_fails_def

context redis_laws
begin

lemma vc_get [vc_intro]:
  "Q (rdb_get k (redis s)) s \<Longrightarrow> (\<And>m. E (ExternalError m) s) \<Longrightarrow> vc v (r_get R k) Q E s"
  by (rule vc_refines [OF get]) (auto simp: law_simps)

lemma vc_set_nx [vc_intro]:
  assumes "rdb_get k (redis s) = None \<Longrightarrow> Q True (s\<lparr>redis := rdb_set k x (Some ttl) (redis s)\<rparr>)"
    and "rdb_get k (redis s) \<noteq> None \<Longrightarrow> Q False s" and "\<And>m. E (ExternalError m) s"
  shows "vc v (r_set_nx R k x ttl) Q E s"
  by (rule vc_refines [OF set_nx]) (use assms in \<open>auto simp: law_simps split: if_splits\<close>)

lemma vc_set_ex [vc_intro]:
  "Q () (s\<lparr>redis := rdb_set k x (Some ttl) (redis s)\<rparr>) \<Longrightarrow> (\<And>m. E (ExternalError m) s) \<Longrightarrow>
    vc v (r_set_ex R k x ttl) Q E s"
  by (rule vc_refines [OF set_ex]) (auto simp: law_simps)

lemma vc_exists [vc_intro]:
  "Q (if rdb_get k (redis s) = None then 0 else 1) s \<Longrightarrow> (\<And>m. E (ExternalError m) s) \<Longrightarrow>
    vc v (r_exists R k) Q E s"
  by (rule vc_refines [OF exists]) (auto simp: law_simps)

lemma vc_incr:
  assumes "\<And>a s'. (Inr a, s') \<in> incr_outcomes k s \<Longrightarrow> Q a s'" and "\<And>m. E (ExternalError m) s"
  shows "vc v (r_incr R k) Q E s"
  by (rule vc_refines [OF incr])
    (use assms in \<open>auto simp: law_simps incr_outcomes_def split: option.splits rvalue.splits\<close>)

lemma vc_expire [vc_intro]:
  "Q () (s\<lparr>redis := rdb_expire k ttl (redis s)\<rparr>) \<Longrightarrow> (\<And>m. E (ExternalError m) s) \<Longrightarrow>
    vc v (r_expire R k ttl) Q E s"
  by (rule vc_refines [OF expire]) (auto simp: law_simps)

lemma vc_zrank [vc_intro]:
  "Q (rdb_zrank k m (redis s)) s \<Longrightarrow> (\<And>m. E (ExternalError m) s) \<Longrightarrow> vc v (r_zrank R k m) Q E s"
  by (rule vc_refines [OF zrank]) (auto simp: law_simps)

lemma vc_zcard [vc_intro]:
  "Q (length (zsets (redis s) k)) s \<Longrightarrow> (\<And>m. E (ExternalError m) s) \<Longrightarrow> vc v (r_zcard R k) Q E s"
  by (rule vc_refines [OF zcard]) (auto simp: law_simps)

lemma vc_zrem [vc_intro]:
  "Q (if rdb_zrank k m (redis s) = None then 0 else 1) (s\<lparr>redis := rdb_zrem k m (redis s)\<rparr>) \<Longrightarrow>
    (\<And>m. E (ExternalError m) s) \<Longrightarrow> vc v (r_zrem R k m) Q E s"
  by (rule vc_refines [OF zrem]) (auto simp: law_simps)

lemma vc_pipeline [vc_intro]:
  "Q () (s\<lparr>redis := run_pipeline cs (redis s)\<rparr>) \<Longrightarrow> (\<And>m. E (ExternalError m) s) \<Longrightarrow>
    vc v (r_pipeline R cs) Q E s"
  by (rule vc_refines [OF pipeline]) (auto simp: law_simps)

lemma vc_eval [vc_intro]:
  "Q (fst (script (redis s))) (s\<lparr>redis := snd (script (redis s))\<rparr>) \<Longrightarrow>
    (\<And>m. E (ExternalError m) s) \<Longrightarrow> vc v (r_eval R script) Q E s"
  by (rule vc_refines [OF eval]) (auto simp: law_simps)

end

context db_laws
begin

lemma vc_q_seats [vc_intro]:
  "(\<And>xs. rows_like xs (filter P (seats (ses s))) \<Longrightarrow> Q xs s) \<Longrightarrow> (\<And>m. E (ExternalError m) s) \<Longrightarrow>
    vc v (q_seats D P) Q E s"
  by (rule vc_refines [OF q_seats]) (auto simp: law_simps)

lemma vc_q_seats_for_update [vc_intro]:
  "(\<And>xs. rows_like xs (filter P (seats (ses s))) \<Longrightarrow> Q xs s) \<Longrightarrow> (\<And>m. E (ExternalError m) s) \<Longrightarrow>
    vc v (q_seats_for_update D P) Q E s"
  by (rule vc_refines [OF q_seats_for_update]) (auto simp: law_simps)

lemma vc_q_seats_ordered [vc_intro]:
  "(\<And>xs. rows_like xs (filter P (seats (ses s))) \<Longrightarrow> sorted_wrt seat_before xs \<Longrightarrow> Q xs s) \<Longrightarrow>
    (\<And>m. E (ExternalError m) s) \<Longrightarrow> vc v (q_seats_ordered D P) Q E s"
  by (rule vc_refines [OF q_seats_ordered]) (auto simp: law_simps)

lemma vc_save_seat [vc_intro]:
  "Q () (s\<lparr>ses := put_seat x (ses s)\<rparr>) \<Longrightarrow> vc v (save_seat D x) Q E s"
  by (rule vc_refines [OF save_seat]) auto

lemma vc_reload_seats [vc_intro]:
  "(\<And>ys. map seat_id ys = map seat_id xs \<Longrightarrow> set ys \<subseteq> set (seats (ses s)) \<Longrightarrow> Q ys s) \<Longrightarrow>
    (\<And>m. E (ExternalError m) s) \<Longrightarrow> vc v (reload_seats D xs) Q E s"
  by (rule vc_refines [OF reload_seats]) (auto simp: law_simps)

lemma vc_q_reservations [vc_intro]:
  "(\<And>xs. rows_like xs (filter P (reservations (ses s))) \<Longrightarrow>
      Q (map (as_loaded s) xs) (remember (map (as_loaded s) xs) s)) \<Longrightarrow>
    (\<And>m. E (ExternalError m) s) \<Longrightarrow> vc v (q_reservations D P) Q E s"
  by (rule vc_refines [OF q_reservations]) (auto simp: law_simps)

lemma vc_insert_reservation [vc_intro]:
  assumes "\<And>r. reservation_id r \<notin> reservation_id ` set (reservations (ses s)) \<Longrightarrow>
      res_user r = u \<Longrightarrow> res_event r = e \<Longrightarrow> res_seat_ids r = sids \<Longrightarrow> res_status r = st \<Longrightarrow>
      expires_at r = ex \<Longrightarrow>
      Q r (s\<lparr>ses := (ses s)\<lparr>reservations := reservations (ses s) @
                 [r\<lparr>res_created_at := column_dt s (res_created_at r),
                    expires_at := column_dt s ex\<rparr>]\<rparr>,
               imap := (imap s)(reservation_id r \<mapsto> r)\<rparr>)"
    and "\<And>m. E (ExternalError m) (discard s)"
  shows "vc v (insert_reservation D u e sids st ex) Q E s"
  by (rule vc_refines [OF insert_reservation]) (use assms in \<open>auto simp: law_simps\<close>)

lemma vc_assign_reservation_status [vc_intro]:
  "Q () (s\<lparr>ses := put_reservation_status i st (ses s),
           imap := (imap s)(i := map_option (\<lambda>r. r\<lparr>res_status := st\<rparr>) (imap s i))\<rparr>) \<Longrightarrow>
    vc v (assign_reservation_status D i st) Q E s"
  by (rule vc_refines [OF assign_reservation_status]) (auto simp: law_simps)

lemma vc_reload_reservation [vc_intro]:
  "(\<And>r'. r' \<in> set (reservations (ses s)) \<Longrightarrow> reservation_id r' = reservation_id r \<Longrightarrow>
      Q (as_loaded s r') (remember [as_loaded s r'] s)) \<Longrightarrow>
    (\<And>m. E (ExternalError m) s) \<Longrightarrow> vc v (reload_reservation D r) Q E s"
  by (rule vc_refines [OF reload_reservation]) (auto simp: law_simps)

lemma vc_q_payments [vc_intro]:
  "(\<And>xs. rows_like xs (filter P (payments (ses s))) \<Longrightarrow> Q xs s) \<Longrightarrow> (\<And>m. E (ExternalError m) s) \<Longrightarrow>
    vc v (q_payments D P) Q E s"
  by (rule vc_refines [OF q_payments]) (auto simp: law_simps)

lemma vc_insert_payment [vc_intro]:
  assumes "\<And>p. payment_id p \<notin> payment_id ` set (payments (ses s)) \<Longrightarrow>
      pay_reservation p = rid \<Longrightarrow> pay_user p = u \<Longrightarrow> pay_amount p = a \<Longrightarrow> pay_status p = st \<Longrightarrow>
      pay_method p = meth \<Longrightarrow>
      Q p (s\<lparr>ses := (ses s)\<lparr>payments := payments (ses s) @
                 [p\<lparr>pay_created_at := column_dt s (pay_created_at p)\<rparr>]\<rparr>\<rparr>)"
    and "\<And>m. E (ExternalError m) (discard s)"
  shows "vc v (insert_payment D rid u a st meth) Q E s"
  by (rule vc_refines [OF insert_payment]) (use assms in \<open>auto simp: law_simps\<close>)

lemma vc_assign_payment_status [vc_intro]:
  "Q () (s\<lparr>ses := put_payment_status i st (ses s)\<rparr>) \<Longrightarrow> vc v (assign_payment_status D i st) Q E s"
  by (rule vc_refines [OF assign_payment_status]) auto

lemma vc_reload_payment [vc_intro]:
  "(\<And>p'. p' \<in> set (payments (ses s)) \<Longrightarrow> payment_id p' = payment_id p \<Longrightarrow> Q p' s) \<Longrightarrow>
    (\<And>m. E (ExternalError m) s) \<Longrightarrow> vc v (reload_payment D p) Q E s"
  by (rule vc_refines [OF reload_payment]) (auto simp: law_simps)

lemma vc_q_events [vc_intro]:
  "(\<And>xs. rows_like xs (filter P (events (ses s))) \<Longrightarrow> Q xs s) \<Longrightarrow> (\<And>m. E (ExternalError m) s) \<Longrightarrow>
    vc v (q_events D P) Q E s"
  by (rule vc_refines [OF q_events]) (auto simp: law_simps)

lemma vc_q_events_by_text [vc_intro]:
  "(\<And>xs u. rows_like xs (filter (\<lambda>e. ev_id e = u) (events (ses s))) \<Longrightarrow> (\<And>u'. ident = uuid_str u' \<Longrightarrow> u = u') \<Longrightarrow>
      Q xs s) \<Longrightarrow>
    (\<And>m. E (ExternalError m) s) \<Longrightarrow> vc v (q_events_by_text D ident) Q E s"
  by (rule vc_refines [OF q_events_by_text]) (auto simp: law_simps)

lemma vc_add_event [vc_intro]:
  "(\<And>c. Q () (s\<lparr>ses := (ses s)\<lparr>events := events (ses s) @ [stored_event s c e]\<rparr>\<rparr>)) \<Longrightarrow>
    vc v (add_event D e) Q E s"
  by (rule vc_refines [OF add_event]) auto

lemma vc_add_seat [vc_intro]:
  "Q () (s\<lparr>ses := (ses s)\<lparr>seats := seats (ses s) @ [x]\<rparr>\<rparr>) \<Longrightarrow> vc v (add_seat D x) Q E s"
  by (rule vc_refines [OF add_seat]) auto

lemma vc_q_users [vc_intro]:
  "(\<And>xs. rows_like xs (filter P (users (ses s))) \<Longrightarrow> Q xs s) \<Longrightarrow> (\<And>m. E (ExternalError m) s) \<Longrightarrow>
    vc v (q_users D P) Q E s"
  by (rule vc_refines [OF q_users]) (auto simp: law_simps)

lemma vc_add_user [vc_intro]:
  "(\<And>c. Q () (s\<lparr>ses := (ses s)\<lparr>users := users (ses s) @ [stored_user s c u]\<rparr>\<rparr>)) \<Longrightarrow>
    vc v (add_user D u) Q E s"
  by (rule vc_refines [OF add_user]) auto

lemma vc_count_events [vc_intro]:
  "Q (length (events (ses s))) s \<Longrightarrow> (\<And>m. E (ExternalError m) s) \<Longrightarrow> vc v (count_events D) Q E s"
  by (rule vc_refines [OF count_events]) (auto simp: law_simps)

lemma vc_q_events_page [vc_intro]:
  "(\<And>xs. rows_like xs (events (ses s)) \<Longrightarrow> sorted_wrt event_later xs \<Longrightarrow>
      Q (take n (drop off xs)) s) \<Longrightarrow>
    (\<And>m. E (ExternalError m) s) \<Longrightarrow> vc v (q_events_page D off n) Q E s"
  by (rule vc_refines [OF q_events_page]) (auto simp: law_simps)

lemma vc_flush [vc_intro]:
  "Q () s \<Longrightarrow> (\<And>m. E (ExternalError m) (discard s)) \<Longrightarrow> vc v (flush D) Q E s"
  by (rule vc_refines [OF flush]) (auto simp: law_simps)

lemma vc_commit [vc_intro]:
  "Q () (commit_changes s) \<Longrightarrow> (\<And>m. E (ExternalError m) (discard s)) \<Longrightarrow> vc v (commit D) Q E s"
  by (rule vc_refines [OF commit]) (auto simp: law_simps)

lemma vc_rollback [vc_intro]:
  "Q () (discard s) \<Longrightarrow> (\<And>m. E (ExternalError m) (discard s)) \<Longrightarrow> vc v (rollback D) Q E s"
  by (rule vc_refines [OF rollback]) (auto simp: law_simps)

lemma vc_close_session [vc_intro]:
  "Q () (discard s) \<Longrightarrow> (\<And>m. E (ExternalError m) (discard s)) \<Longrightarrow> vc v (close_session D) Q E s"
  by (rule vc_refines [OF close_session]) (auto simp: law_simps)

lemma vc_expired_hold_exists [vc_intro]:
  "(\<And>b. Q b s) \<Longrightarrow> (\<And>m. E (ExternalError m) s) \<Longrightarrow> vc v (expired_hold_exists D) Q E s"
  by (rule vc_refines [OF expired_hold_exists]) (auto simp: law_simps)

end

context runtime_laws
begin

lemma vc_utcnow [vc_intro]: "(\<And>t. clk s \<le> t \<Longrightarrow> Q t (s\<lparr>clk := t\<rparr>)) \<Longrightarrow> vc v (utcnow T) Q E s"
  by (rule vc_refines [OF utcnow]) auto

lemma vc_sleep [vc_intro]:
  "(\<And>t. clk s + ms * 1000 \<le> t \<Longrightarrow> Q () (s\<lparr>clk := t\<rparr>)) \<Longrightarrow> vc v (sleep_ms T ms) Q E s"
  by (rule vc_refines [OF sleep]) auto

lemma vc_uuid4 [vc_intro]:
  "(\<And>u. u \<notin> set (issued s) \<Longrightarrow> Q u (s\<lparr>issued := u # issued s\<rparr>)) \<Longrightarrow>
    (\<And>m. E (ExternalError m) s) \<Longrightarrow> vc v (uuid4 T) Q E s"
  by (rule vc_refines [OF uuid4]) (auto simp: law_simps)

lemma vc_random_unit [vc_intro]:
  "(\<And>q. 0 \<le> q \<Longrightarrow> q < 1 \<Longrightarrow> Q q s) \<Longrightarrow> vc v (random_unit T) Q E s"
  by (rule vc_refines [OF random_unit]) auto

lemma vc_inc_duplicates [vc_intro]:
  "Q () (s\<lparr>dups := Suc (dups s)\<rparr>) \<Longrightarrow> vc v (inc_duplicates T) Q E s"
  by (rule vc_refines [OF inc_duplicates]) auto

lemma vc_time_time [vc_intro]: "(\<And>x. Q x s) \<Longrightarrow> vc v (time_time T) Q E s"
  by (rule vc_refines [OF time_time]) auto

lemma vc_log_access [vc_intro]: "Q () s \<Longrightarrow> vc v (log_access T slow line) Q E s"
  by (rule vc_refines [OF log_access]) auto

end

context cluster_laws
begin

lemma vc_load_config [vc_intro]:
  "(\<And>b. Q b s) \<Longrightarrow> vc v (load_any_config K) Q E s" "(\<And>b. Q b s) \<Longrightarrow> vc v (load_in_cluster K) Q E s"
  by (rule vc_refines [OF load_any_config] vc_refines [OF load_in_cluster], auto)+

lemma vc_patch_hpa_min [vc_intro]:
  "Q () (s\<lparr>hpa_min := (hpa_min s)((ns, name) := n)\<rparr>) \<Longrightarrow> (\<And>m. E (ExternalError m) s) \<Longrightarrow>
    (\<And>m. E (ApiException m) s) \<Longrightarrow> vc v (patch_hpa_min K name ns n) Q E s"
  by (rule vc_refines [OF patch_hpa_min]) (auto simp: law_simps)

lemma vc_read_scale [vc_intro]:
  "Q (replicas s (ns, name)) s \<Longrightarrow> (\<And>m. E (ExternalError m) s) \<Longrightarrow>
    (\<And>m. E (ApiException m) s) \<Longrightarrow> vc v (read_scale K name ns) Q E s"
  by (rule vc_refines [OF read_scale]) (auto simp: law_simps)

lemma vc_patch_scale [vc_intro]:
  "Q () (s\<lparr>replicas := (replicas s)((ns, name) := n)\<rparr>) \<Longrightarrow> (\<And>m. E (ExternalError m) s) \<Longrightarrow>
    (\<And>m. E (ApiException m) s) \<Longrightarrow> vc v (patch_scale K name ns n) Q E s"
  by (rule vc_refines [OF patch_scale]) (auto simp: law_simps)

lemma vc_get_scaled [vc_intro]: "Q (scaled_events s) s \<Longrightarrow> vc v (get_scaled K) Q E s"
  by (rule vc_refines [OF get_scaled]) auto

lemma vc_put_scaled [vc_intro]: "Q () (s\<lparr>scaled_events := es\<rparr>) \<Longrightarrow> vc v (put_scaled K es) Q E s"
  by (rule vc_refines [OF put_scaled]) auto

lemma vc_set_gauge [vc_intro]: "Q () (s\<lparr>predicted_gauge := g\<rparr>) \<Longrightarrow> vc v (set_gauge K g) Q E s"
  by (rule vc_refines [OF set_gauge]) auto

lemma vc_inc_prescales [vc_intro]:
  "Q () (s\<lparr>prescales := Suc (prescales s)\<rparr>) \<Longrightarrow> vc v (inc_prescales K) Q E s"
  by (rule vc_refines [OF inc_prescales]) auto

end

end
