(* ===== verification/Repositories.thy ===== *)
theory Repositories
  imports Backend
begin

text \<open>
  The repositories of \<open>src/repositories\<close>: one definition per query, and the rules that say what
  the queries by primary key return when the tables have distinct keys. The session is created
  with \<open>autoflush=False\<close>; no query of the service reads a row with a change not yet flushed.
\<close>

definition first_row :: "'a list \<Rightarrow> 'a option" where
  "first_row xs = (case xs of [] \<Rightarrow> None | x # _ \<Rightarrow> Some x)"

section \<open>EventRepository\<close>

definition event_get_all :: "'w db_session \<Rightarrow> nat \<Rightarrow> nat \<Rightarrow> ('w, event list \<times> nat) py" where
  "event_get_all D page limit =
     bnd (count_events D) (\<lambda>total.
     bnd (q_events_page D ((page - 1) * limit) limit) (\<lambda>xs. ret (xs, total)))"

definition event_get_by_id :: "'w db_session \<Rightarrow> uuid \<Rightarrow> ('w, event option) py" where
  "event_get_by_id D event_id =
     bnd (q_events D (\<lambda>e. ev_id e = event_id)) (\<lambda>xs. ret (first_row xs))"

section \<open>SeatRepository\<close>

definition seat_get_by_event_id :: "'w db_session \<Rightarrow> uuid \<Rightarrow> ('w, seat list) py" where
  "seat_get_by_event_id D event_id = q_seats_ordered D (\<lambda>x. seat_event x = event_id)"

definition seat_get_by_id :: "'w db_session \<Rightarrow> uuid \<Rightarrow> ('w, seat option) py" where
  "seat_get_by_id D i = bnd (q_seats D (\<lambda>x. seat_id x = i)) (\<lambda>xs. ret (first_row xs))"

definition get_available_seats :: "'w db_session \<Rightarrow> uuid \<Rightarrow> ('w, seat list) py" where
  "get_available_seats D event_id =
     q_seats D (\<lambda>x. seat_event x = event_id \<and> seat_status x = Available)"

definition update_seat_status ::
  "'w db_session \<Rightarrow> uuid \<Rightarrow> seat_status \<Rightarrow> ('w, seat option) py" where
  "update_seat_status D i st =
     bnd (seat_get_by_id D i) (\<lambda>x.
     case x of
       None \<Rightarrow> ret None
     | Some y \<Rightarrow> seqn (save_seat D (y\<lparr>seat_status := st\<rparr>)) (seqn (commit D) (ret (Some (y\<lparr>seat_status := st\<rparr>)))))"

section \<open>UserRepository\<close>

definition user_get_by_email :: "'w db_session \<Rightarrow> string \<Rightarrow> ('w, user option) py" where
  "user_get_by_email D email = bnd (q_users D (\<lambda>u. usr_email u = email)) (\<lambda>xs. ret (first_row xs))"

definition user_get_by_id :: "'w db_session \<Rightarrow> uuid \<Rightarrow> ('w, user option) py" where
  "user_get_by_id D i = bnd (q_users D (\<lambda>u. usr_id u = i)) (\<lambda>xs. ret (first_row xs))"

section \<open>ReservationRepository\<close>

definition reservation_create ::
  "'w db_session \<Rightarrow> uuid \<Rightarrow> uuid \<Rightarrow> string list \<Rightarrow> pydt \<Rightarrow> ('w, reservation) py" where
  "reservation_create D user_id event_id seat_ids expires =
     insert_reservation D user_id event_id seat_ids Held expires"

definition reservation_get_by_id :: "'w db_session \<Rightarrow> uuid \<Rightarrow> ('w, reservation option) py" where
  "reservation_get_by_id D i =
     bnd (q_reservations D (\<lambda>r. reservation_id r = i)) (\<lambda>rs. ret (first_row rs))"

definition get_held_by_user_and_event ::
  "'w db_session \<Rightarrow> 'w runtime \<Rightarrow> uuid \<Rightarrow> uuid \<Rightarrow> ('w, reservation option) py" where
  "get_held_by_user_and_event D T user_id event_id =
     bnd (utcnow T) (\<lambda>now.
     bnd (q_reservations D (\<lambda>r. res_user r = user_id \<and> res_event r = event_id \<and>
        res_status r = Held \<and> now < instant (expires_at r))) (\<lambda>rs.
     ret (first_row rs)))"

text \<open>\<open>created_at\<close> is never assigned again, so the order of the rows is that of the objects.\<close>

definition get_by_user :: "'w db_session \<Rightarrow> uuid \<Rightarrow> ('w, reservation list) py" where
  "get_by_user D user_id =
     bnd (q_reservations D (\<lambda>r. res_user r = user_id)) (\<lambda>rs.
     ret (sort_key (\<lambda>r. - instant (res_created_at r)) rs))"

definition get_held_by_user :: "'w db_session \<Rightarrow> uuid \<Rightarrow> ('w, reservation list) py" where
  "get_held_by_user D user_id = q_reservations D (\<lambda>r. res_user r = user_id \<and> res_status r = Held)"

definition get_expired_held :: "'w db_session \<Rightarrow> 'w runtime \<Rightarrow> ('w, reservation list) py" where
  "get_expired_held D T =
     bnd (utcnow T) (\<lambda>now.
     q_reservations D (\<lambda>r. res_status r = Held \<and> instant (expires_at r) < now))"

definition reservation_update_status ::
  "'w db_session \<Rightarrow> uuid \<Rightarrow> reservation_status \<Rightarrow> ('w, reservation option) py" where
  "reservation_update_status D i st =
     bnd (reservation_get_by_id D i) (\<lambda>r.
     case r of
       None \<Rightarrow> ret None
     | Some x \<Rightarrow> seqn (assign_reservation_status D i st) (seqn (flush D) (ret (Some (x\<lparr>res_status := st\<rparr>)))))"

section \<open>PaymentRepository\<close>

definition payment_create ::
  "'w db_session \<Rightarrow> uuid \<Rightarrow> uuid \<Rightarrow> rat \<Rightarrow> string \<Rightarrow> ('w, payment) py" where
  "payment_create D rid user_id amount meth = insert_payment D rid user_id amount Pending meth"

definition payment_get_by_id :: "'w db_session \<Rightarrow> uuid \<Rightarrow> ('w, payment option) py" where
  "payment_get_by_id D i = bnd (q_payments D (\<lambda>p. payment_id p = i)) (\<lambda>ps. ret (first_row ps))"

definition get_by_reservation :: "'w db_session \<Rightarrow> uuid \<Rightarrow> ('w, payment option) py" where
  "get_by_reservation D rid = bnd (q_payments D (\<lambda>p. pay_reservation p = rid)) (\<lambda>ps. ret (first_row ps))"

definition payment_update_status ::
  "'w db_session \<Rightarrow> uuid \<Rightarrow> payment_status \<Rightarrow> ('w, payment option) py" where
  "payment_update_status D i st =
     bnd (payment_get_by_id D i) (\<lambda>p.
     case p of
       None \<Rightarrow> ret None
     | Some x \<Rightarrow> seqn (assign_payment_status D i st) (seqn (flush D) (ret (Some (x\<lparr>pay_status := st\<rparr>)))))"

section \<open>Rows with distinct keys\<close>

lemma first_row_simps [simp]: "first_row [] = None" "first_row (x # xs) = Some x"
  by (simp_all add: first_row_def)

lemma first_row_map: "first_row (map f xs) = map_option f (first_row xs)"
  by (cases xs) auto

lemma rows_like_set: "rows_like xs ys \<Longrightarrow> set xs = set ys"
  unfolding rows_like_def by (rule mset_eq_setD)

lemma rows_like_length: "rows_like xs ys \<Longrightarrow> length xs = length ys"
  unfolding rows_like_def by (rule mset_eq_length)

lemma rows_like_distinct: "rows_like xs ys \<Longrightarrow> distinct (map f ys) \<Longrightarrow> distinct (map f xs)"
  unfolding rows_like_def by (metis mset_eq_imp_distinct_iff mset_map)

lemma same_key:
  "distinct (map key ys) \<Longrightarrow> x \<in> set ys \<Longrightarrow> y \<in> set ys \<Longrightarrow> key x = key y \<Longrightarrow> x = y"
  by (auto simp: distinct_map dest: inj_onD)

text \<open>The rows with a given key: none, or the one row that has it.\<close>

lemma keyed_row:
  assumes "distinct (map key ys)" and "rows_like xs (filter (\<lambda>y. key y = i) ys)"
  shows "xs = [] \<and> i \<notin> key ` set ys \<or> (\<exists>y \<in> set ys. key y = i \<and> xs = [y])"
proof -
  have set: "set xs = {y \<in> set ys. key y = i}" using rows_like_set [OF assms(2)] by auto
  have "distinct (map key xs)"
    by (rule rows_like_distinct [OF assms(2)]) (simp add: assms(1) distinct_map_filter)
  show ?thesis
  proof (cases xs)
    case Nil
    with set show ?thesis by auto
  next
    case (Cons y rest)
    have "rest = []"
    proof (cases rest)
      case (Cons z zs)
      with \<open>xs = y # rest\<close> \<open>distinct (map key xs)\<close> have "key y \<noteq> key z" by simp
      moreover have "key y = i" "key z = i" using set \<open>xs = y # rest\<close> Cons by auto
      ultimately show ?thesis by simp
    qed simp
    with Cons set show ?thesis by auto
  qed
qed

context db_laws
begin

lemma vc_reservation_get_by_id:
  assumes "distinct (map reservation_id (reservations (ses s)))"
    and "i \<notin> reservation_id ` set (reservations (ses s)) \<Longrightarrow> Q None s"
    and "\<And>r. r \<in> set (reservations (ses s)) \<Longrightarrow> reservation_id r = i \<Longrightarrow>
      Q (Some (as_loaded s r)) (remember [as_loaded s r] s)"
    and "\<And>m. E (ExternalError m) s"
  shows "vc v (reservation_get_by_id D i) Q E s"
  unfolding reservation_get_by_id_def
proof (intro vc_bnd vc_q_reservations vc_ret)
  fix xs
  assume "rows_like xs (filter (\<lambda>r. reservation_id r = i) (reservations (ses s)))"
  from keyed_row [OF assms(1) this] assms(2,3)
  show "Q (first_row (map (as_loaded s) xs)) (remember (map (as_loaded s) xs) s)"
    by (auto simp: remember_def)
qed (rule assms(4))

text \<open>The reservations of a user, each once, the newest first.\<close>

lemma vc_get_by_user:
  assumes "\<And>rs s'. rows_like rs (map (as_loaded s) (filter (\<lambda>r. res_user r = u) (reservations (ses s)))) \<Longrightarrow>
      sorted_wrt (\<lambda>r r'. instant (res_created_at r') \<le> instant (res_created_at r)) rs \<Longrightarrow>
      ses s' = ses s \<Longrightarrow> com s' = com s \<Longrightarrow> Q rs s'"
    and "\<And>m. E (ExternalError m) s"
  shows "vc v (get_by_user D u) Q E s"
  unfolding get_by_user_def
proof (intro vc_bnd vc_q_reservations vc_ret)
  fix xs
  assume xs: "rows_like xs (filter (\<lambda>r. res_user r = u) (reservations (ses s)))"
  let ?rs = "sort_key (\<lambda>r. - instant (res_created_at r)) (map (as_loaded s) xs)"
  have "rows_like ?rs (map (as_loaded s) (filter (\<lambda>r. res_user r = u) (reservations (ses s))))"
    using xs by (simp add: rows_like_def)
  moreover have "sorted_wrt (\<lambda>r r'. instant (res_created_at r') \<le> instant (res_created_at r)) ?rs"
    using sorted_sort_key [of "\<lambda>r. - instant (res_created_at r)" "map (as_loaded s) xs"]
    by (simp add: sorted_map)
  ultimately show "Q ?rs (remember (map (as_loaded s) xs) s)"
    by (rule assms(1)) (simp_all add: remember_def)
qed (rule assms(2))

lemma vc_payment_get_by_id:
  assumes "distinct (map payment_id (payments (ses s)))"
    and "i \<notin> payment_id ` set (payments (ses s)) \<Longrightarrow> Q None s"
    and "\<And>p. p \<in> set (payments (ses s)) \<Longrightarrow> payment_id p = i \<Longrightarrow> Q (Some p) s"
    and "\<And>m. E (ExternalError m) s"
  shows "vc v (payment_get_by_id D i) Q E s"
  unfolding payment_get_by_id_def
proof (intro vc_bnd vc_q_payments vc_ret)
  fix xs
  assume "rows_like xs (filter (\<lambda>p. payment_id p = i) (payments (ses s)))"
  from keyed_row [OF assms(1) this] assms(2,3) show "Q (first_row xs) s" by auto
qed (rule assms(4))

lemma vc_event_get_by_id:
  assumes "distinct (map ev_id (events (ses s)))"
    and "i \<notin> ev_id ` set (events (ses s)) \<Longrightarrow> Q None s"
    and "\<And>p. p \<in> set (events (ses s)) \<Longrightarrow> ev_id p = i \<Longrightarrow> Q (Some p) s"
    and "\<And>m. E (ExternalError m) s"
  shows "vc v (event_get_by_id D i) Q E s"
  unfolding event_get_by_id_def
proof (intro vc_bnd vc_q_events vc_ret)
  fix xs
  assume "rows_like xs (filter (\<lambda>p. ev_id p = i) (events (ses s)))"
  from keyed_row [OF assms(1) this] assms(2,3) show "Q (first_row xs) s" by auto
qed (rule assms(4))

text \<open>The users table has a unique constraint on the e-mail address.\<close>

lemma vc_user_get_by_email:
  assumes "distinct (map usr_email (users (ses s)))"
    and "e \<notin> usr_email ` set (users (ses s)) \<Longrightarrow> Q None s"
    and "\<And>u. u \<in> set (users (ses s)) \<Longrightarrow> usr_email u = e \<Longrightarrow> Q (Some u) s"
    and "\<And>m. E (ExternalError m) s"
  shows "vc v (user_get_by_email D e) Q E s"
  unfolding user_get_by_email_def
proof (intro vc_bnd vc_q_users vc_ret)
  fix xs
  assume "rows_like xs (filter (\<lambda>u. usr_email u = e) (users (ses s)))"
  from keyed_row [OF assms(1) this] assms(2,3) show "Q (first_row xs) s" by auto
qed (rule assms(4))

lemma vc_user_get_by_id:
  assumes "distinct (map usr_id (users (ses s)))"
    and "i \<notin> usr_id ` set (users (ses s)) \<Longrightarrow> Q None s"
    and "\<And>u. u \<in> set (users (ses s)) \<Longrightarrow> usr_id u = i \<Longrightarrow> Q (Some u) s"
    and "\<And>m. E (ExternalError m) s"
  shows "vc v (user_get_by_id D i) Q E s"
  unfolding user_get_by_id_def
proof (intro vc_bnd vc_q_users vc_ret)
  fix xs
  assume "rows_like xs (filter (\<lambda>u. usr_id u = i) (users (ses s)))"
  from keyed_row [OF assms(1) this] assms(2,3) show "Q (first_row xs) s" by auto
qed (rule assms(4))

end

end
