(* ===== verification/Bookings.thy ===== *)
theory Bookings
  imports Repositories
begin

text \<open>
  What the reservation service promises of the tables, as functions on them: taking seats for a new
  reservation, and closing a reservation with its seats freed or sold; and the invariant of the
  booking tables. The service is shown to implement these functions in \<open>Reservation_Service\<close>.
\<close>

section \<open>Changes of the tables\<close>

definition set_seats :: "(seat \<Rightarrow> bool) \<Rightarrow> (seat \<Rightarrow> seat) \<Rightarrow> tables \<Rightarrow> tables" where
  "set_seats P f t = t\<lparr>seats := map (\<lambda>y. if P y then f y else y) (seats t)\<rparr>"

definition hold_seat :: "uuid \<Rightarrow> pydt \<Rightarrow> seat \<Rightarrow> seat" where
  "hold_seat u until x = x\<lparr>seat_status := Hold, held_by := Some u, held_until := Some until\<rparr>"

definition free_seat :: "seat \<Rightarrow> seat" where
  "free_seat x = x\<lparr>seat_status := Available, held_by := None, held_until := None\<rparr>"

definition sell_seat :: "seat \<Rightarrow> seat" where
  "sell_seat x = x\<lparr>seat_status := Sold, held_by := None, held_until := None\<rparr>"

text \<open>\<open>[uuid.UUID(s) for s in seat_ids]\<close>.\<close>

fun parse_seat_ids :: "string list \<Rightarrow> exn + uuid list" where
  "parse_seat_ids [] = Inr []"
| "parse_seat_ids (s # ss) =
     (case uuid_parse s of Inl e \<Rightarrow> Inl e
      | Inr u \<Rightarrow> (case parse_seat_ids ss of Inl e \<Rightarrow> Inl e | Inr us \<Rightarrow> Inr (u # us)))"

definition names :: "reservation \<Rightarrow> seat \<Rightarrow> bool" where
  "names r x \<longleftrightarrow> uuid_str (seat_id x) \<in> set (res_seat_ids r)"

definition hold_tables :: "uuid list \<Rightarrow> pydt \<Rightarrow> reservation \<Rightarrow> tables \<Rightarrow> tables" where
  "hold_tables ids until r t =
     (set_seats (\<lambda>x. seat_id x \<in> set ids \<and> seat_event x = res_event r) (hold_seat (res_user r) until) t)
       \<lparr>reservations := reservations t @ [r]\<rparr>"

definition close_tables :: "reservation_status \<Rightarrow> (seat \<Rightarrow> seat) \<Rightarrow> reservation \<Rightarrow> tables \<Rightarrow> tables" where
  "close_tables st f r t = put_reservation_status (reservation_id r) st (set_seats (names r) f t)"

abbreviation cancel_tables :: "reservation \<Rightarrow> tables \<Rightarrow> tables" where
  "cancel_tables \<equiv> close_tables Cancelled free_seat"

abbreviation complete_tables :: "reservation \<Rightarrow> tables \<Rightarrow> tables" where
  "complete_tables \<equiv> close_tables Completed sell_seat"

section \<open>The invariant\<close>

text \<open>The reservations that claim a seat, and what the seat's row must then say.\<close>

definition holders :: "tables \<Rightarrow> seat \<Rightarrow> reservation list" where
  "holders t x = filter (\<lambda>r. names r x \<and> res_status r \<noteq> Cancelled) (reservations t)"

definition seat_ok :: "tables \<Rightarrow> seat \<Rightarrow> bool" where
  "seat_ok t x \<longleftrightarrow>
     (case holders t x of
        [] \<Rightarrow> seat_status x = Available
      | [r] \<Rightarrow> res_status r = Held \<and> seat_status x = Hold \<and> held_by x = Some (res_user r) \<or>
               res_status r = Completed \<and> seat_status x = Sold
      | _ \<Rightarrow> False)"

definition refers_ok :: "tables \<Rightarrow> reservation \<Rightarrow> bool" where
  "refers_ok t r \<longleftrightarrow>
     (\<forall>sid \<in> set (res_seat_ids r). \<exists>x \<in> set (seats t). sid = uuid_str (seat_id x) \<and> seat_event x = res_event r)"

definition booking_ok :: "tables \<Rightarrow> bool" where
  "booking_ok t \<longleftrightarrow>
     distinct (map seat_id (seats t)) \<and> distinct (map reservation_id (reservations t)) \<and>
     (\<forall>r \<in> set (reservations t). refers_ok t r) \<and> (\<forall>x \<in> set (seats t). seat_ok t x)"

lemma booking_okD:
  assumes "booking_ok t"
  shows "distinct (map seat_id (seats t))" and "distinct (map reservation_id (reservations t))"
    and "r \<in> set (reservations t) \<Longrightarrow> refers_ok t r" and "x \<in> set (seats t) \<Longrightarrow> seat_ok t x"
  using assms by (auto simp: booking_ok_def)

lemma set_seats_sel [simp]:
  "seats (set_seats P f t) = map (\<lambda>y. if P y then f y else y) (seats t)"
  "reservations (set_seats P f t) = reservations t" "payments (set_seats P f t) = payments t"
  "events (set_seats P f t) = events t" "users (set_seats P f t) = users t"
  by (simp_all add: set_seats_def)

lemma put_reservation_status_sel [simp]:
  "seats (put_reservation_status i st t) = seats t" "payments (put_reservation_status i st t) = payments t"
  "events (put_reservation_status i st t) = events t" "users (put_reservation_status i st t) = users t"
  "reservations (put_reservation_status i st t) =
    map (\<lambda>r. if reservation_id r = i then r\<lparr>res_status := st\<rparr> else r) (reservations t)"
  by (simp_all add: put_reservation_status_def)

lemma put_seat_sel [simp]:
  "seats (put_seat x t) = map (\<lambda>y. if seat_id y = seat_id x then x else y) (seats t)"
  "payments (put_seat x t) = payments t" "reservations (put_seat x t) = reservations t"
  "events (put_seat x t) = events t" "users (put_seat x t) = users t"
  by (simp_all add: put_seat_def)

lemma seat_change_sel [simp]:
  "seat_id (hold_seat u d x) = seat_id x" "seat_event (hold_seat u d x) = seat_event x"
  "seat_id (free_seat x) = seat_id x" "seat_event (free_seat x) = seat_event x"
  "seat_id (sell_seat x) = seat_id x" "seat_event (sell_seat x) = seat_event x"
  "price (hold_seat u d x) = price x" "price (free_seat x) = price x" "price (sell_seat x) = price x"
  by (simp_all add: hold_seat_def free_seat_def sell_seat_def)

lemma names_cong: "seat_id x = seat_id y \<Longrightarrow> names r x = names r y"
  by (simp add: names_def)

lemma names_status [simp]: "names (r\<lparr>res_status := st\<rparr>) x = names r x"
  by (simp add: names_def)

lemma names_change [simp]:
  "names r (hold_seat u d x) = names r x" "names r (free_seat x) = names r x" "names r (sell_seat x) = names r x"
  by (simp_all add: names_def)

lemma parse_seat_ids_str [simp]: "parse_seat_ids (map uuid_str us) = Inr us"
  by (induction us) auto

lemma refers_parse:
  assumes "refers_ok t r"
  obtains us where "parse_seat_ids (res_seat_ids r) = Inr us"
    and "\<And>x. seat_id x \<in> set us \<longleftrightarrow> names r x"
proof -
  have "\<exists>us. res_seat_ids r = map uuid_str us"
    using assms by (intro ex_map_conv [THEN iffD2]) (auto simp: refers_ok_def)
  then obtain us where us: "res_seat_ids r = map uuid_str us" by blast
  show ?thesis
    by (rule that [of us]) (auto simp: us names_def)
qed

text \<open>Saving the changed rows of a query is \<open>set_seats\<close>.\<close>

lemma fold_put_seat:
  assumes "distinct (map seat_id (seats t))" and "set xs \<subseteq> set (seats t)"
    and "\<And>x. seat_id (f x) = seat_id x"
  shows "fold (\<lambda>x. put_seat (f x)) xs t = set_seats (\<lambda>y. y \<in> set xs) f t"
proof -
  have gen: "fold (\<lambda>x. put_seat (f x)) xs u =
      u\<lparr>seats := map (\<lambda>y. fold (\<lambda>x y. if seat_id y = seat_id x then f x else y) xs y) (seats u)\<rparr>" for u
    by (induction xs arbitrary: u) (simp_all add: put_seat_def assms(3) comp_def)
  have one: "fold (\<lambda>x y. if seat_id y = seat_id x then f x else y) xs y = (if y \<in> set xs then f y else y)"
    if "y \<in> set (seats t)" for y
  proof -
    have same: "seat_id y = seat_id x \<longleftrightarrow> x = y" if "x \<in> set xs" for x
      using assms(1,2) that \<open>y \<in> set (seats t)\<close> by (auto simp: distinct_map dest: inj_onD)
    have "fold (\<lambda>x z. if seat_id z = seat_id x then f x else z) us z =
        (if y \<in> set us then f y else z)" if "set us \<subseteq> set xs" and "z = y \<or> z = f y" for us z
      using that
    proof (induction us arbitrary: z)
      case (Cons u us)
      then have "seat_id z = seat_id u \<longleftrightarrow> u = y" using same [of u] assms(3) by auto
      with Cons show ?case by auto
    qed simp
    then show ?thesis by simp
  qed
  show ?thesis unfolding gen set_seats_def using one by (auto intro!: map_cong)
qed

section \<open>The changes keep the invariant\<close>

lemma set_seats_cong:
  "(\<And>x. x \<in> set (seats t) \<Longrightarrow> P x = Q x) \<Longrightarrow> set_seats P f t = set_seats Q f t"
  unfolding set_seats_def by (auto intro!: map_cong)

lemma seat_ids_set_seats:
  "(\<And>x. seat_id (f x) = seat_id x) \<Longrightarrow> map seat_id (seats (set_seats P f t)) = map seat_id (seats t)"
  by simp

lemma refers_set_seats:
  assumes "\<And>x. seat_id (f x) = seat_id x" and "\<And>x. seat_event (f x) = seat_event x"
    and "seats t' = map (\<lambda>y. if P y then f y else y) (seats t)" and "refers_ok t r"
  shows "refers_ok t' r"
  unfolding refers_ok_def
proof
  fix sid
  assume "sid \<in> set (res_seat_ids r)"
  with assms(4) obtain x where "x \<in> set (seats t)" "sid = uuid_str (seat_id x)" "seat_event x = res_event r"
    by (auto simp: refers_ok_def)
  with assms(1-3) show "\<exists>x\<in>set (seats t'). sid = uuid_str (seat_id x) \<and> seat_event x = res_event r"
    by (intro bexI [of _ "if P x then f x else x"]) auto
qed

lemma refers_cong: "res_seat_ids r = res_seat_ids r' \<Longrightarrow> res_event r = res_event r' \<Longrightarrow> refers_ok t r = refers_ok t r'"
  by (simp add: refers_ok_def)

text \<open>Taking available seats of one event for a new reservation.\<close>

lemma booking_ok_hold:
  assumes ok: "booking_ok t"
    and new: "reservation_id r \<notin> reservation_id ` set (reservations t)" "res_status r = Held"
    and ids: "set (res_seat_ids r) = {uuid_str (seat_id x) | x. x \<in> set (seats t) \<and> seat_id x \<in> set is \<and> seat_event x = res_event r}"
    and free: "\<And>x. x \<in> set (seats t) \<Longrightarrow> seat_id x \<in> set is \<Longrightarrow> seat_event x = res_event r \<Longrightarrow> seat_status x = Available"
  shows "booking_ok (hold_tables is until r t)"
proof -
  let ?f = "hold_seat (res_user r) until" and ?P = "\<lambda>x. seat_id x \<in> set is \<and> seat_event x = res_event r"
  let ?t = "hold_tables is until r t"
  have seats: "seats ?t = map (\<lambda>y. if ?P y then ?f y else y) (seats t)"
    and res: "reservations ?t = reservations t @ [r]" by (simp_all add: hold_tables_def)
  have sel: "names r x \<longleftrightarrow> ?P x" if "x \<in> set (seats t)" for x
  proof -
    have same: "y = x" if "y \<in> set (seats t)" "seat_id y = seat_id x" for y
      using same_key [OF booking_okD(1) [OF ok]] that \<open>x \<in> set (seats t)\<close> by blast
    have "names r x \<longleftrightarrow> (\<exists>y. seat_id x = seat_id y \<and> y \<in> set (seats t) \<and> ?P y)"
      by (simp add: names_def ids)
    with that same show ?thesis by metis
  qed
  have old: "refers_ok ?t r'" if "r' \<in> set (reservations t)" for r'
    by (rule refers_set_seats [OF _ _ seats]) (use booking_okD(3) [OF ok that] in simp_all)
  have this_one: "refers_ok ?t r"
    by (rule refers_set_seats [OF _ _ seats]) (auto simp: refers_ok_def ids)
  have each: "seat_ok ?t (if ?P x then ?f x else x)" if "x \<in> set (seats t)" for x
  proof (cases "?P x")
    case True
    with free that have "seat_status x = Available" by blast
    with booking_okD(4) [OF ok that] have "holders t x = []"
      by (auto simp: seat_ok_def split: list.splits)
    then have "holders ?t (?f x) = [r]"
      using True sel [OF that] new(2) by (simp add: holders_def res)
    with True new show ?thesis by (simp add: seat_ok_def hold_seat_def)
  next
    case False
    then have "holders ?t x = holders t x"
      using sel [OF that] by (auto simp: holders_def res)
    with booking_okD(4) [OF ok that] show ?thesis
      unfolding if_not_P [OF False] by (simp add: seat_ok_def)
  qed
  show ?thesis
    unfolding booking_ok_def
  proof (intro conjI ballI)
    have "map seat_id (seats ?t) = map seat_id (seats t)" by (simp add: seats)
    with booking_okD(1) [OF ok] show "distinct (map seat_id (seats ?t))" by metis
    show "distinct (map reservation_id (reservations ?t))"
      using booking_okD(2) [OF ok] new(1) by (simp add: res)
    show "refers_ok ?t q" if "q \<in> set (reservations ?t)" for q
      using that old this_one by (auto simp: res)
    show "seat_ok ?t y" if "y \<in> set (seats ?t)" for y
      using that each unfolding seats by (metis (no_types, lifting) imageE list.set_map)
  qed
qed

text \<open>Closing a held reservation, with its seats freed or sold.\<close>

lemma holders_close:
  assumes ok: "booking_ok t" and r: "r \<in> set (reservations t)" and x: "x \<in> set (seats t)"
  shows "holders (close_tables st f r t) x =
    filter (\<lambda>q. names q x \<and> res_status q \<noteq> Cancelled)
      (map (\<lambda>q. if q = r then q\<lparr>res_status := st\<rparr> else q) (reservations t))"
proof -
  have "reservation_id q = reservation_id r \<longleftrightarrow> q = r" if "q \<in> set (reservations t)" for q
    using that r booking_okD(2) [OF ok] by (auto simp: distinct_map dest: inj_onD)
  then have "map (\<lambda>q. if reservation_id q = reservation_id r then q\<lparr>res_status := st\<rparr> else q) (reservations t) =
      map (\<lambda>q. if q = r then q\<lparr>res_status := st\<rparr> else q) (reservations t)"
    by (intro map_cong) auto
  then show ?thesis unfolding holders_def close_tables_def by (simp only: put_reservation_status_sel set_seats_sel)
qed

lemma filter_one_changed:
  assumes "filter P xs = [r]" and "distinct xs"
  shows "filter P (map (\<lambda>q. if q = r then g q else q) xs) = (if P (g r) then [g r] else [])"
proof -
  have "filter P (map (\<lambda>q. if q = r then g q else q) xs) =
      map (\<lambda>q. if q = r then g q else q) (filter (\<lambda>q. if q = r then P (g r) else P q) xs)"
    by (simp add: filter_map comp_def if_distrib cong: if_cong)
  also have "filter (\<lambda>q. if q = r then P (g r) else P q) xs =
      filter (\<lambda>q. q = r \<longrightarrow> P (g r)) (filter P xs)"
  proof -
    have "r \<in> set xs \<and> P r" using set_filter [of P xs] assms(1) by auto
    then show ?thesis by (auto intro!: filter_cong)
  qed
  finally show ?thesis using assms(1) by simp
qed

lemma holders_close_named:
  assumes ok: "booking_ok t" and r: "r \<in> set (reservations t)" "res_status r = Held"
    and x: "x \<in> set (seats t)" "names r x" and st: "st \<noteq> Held"
  shows "seat_status x = Hold" and "holders t x = [r]"
    and "holders (close_tables st f r t) x = (if st = Cancelled then [] else [r\<lparr>res_status := st\<rparr>])"
proof -
  have "r \<in> set (holders t x)" using r x(2) by (simp add: holders_def)
  with booking_okD(4) [OF ok x(1)] show one: "holders t x = [r]"
    by (auto simp: seat_ok_def split: list.splits)
  with booking_okD(4) [OF ok x(1)] r(2) show "seat_status x = Hold"
    by (simp add: seat_ok_def)
  have "distinct (reservations t)" using booking_okD(2) [OF ok] by (simp add: distinct_map)
  with one show "holders (close_tables st f r t) x = (if st = Cancelled then [] else [r\<lparr>res_status := st\<rparr>])"
    using x(2) unfolding holders_close [OF ok r(1) x(1)]
    by (subst filter_one_changed) (simp_all add: holders_def)
qed

lemma holders_close_other:
  assumes "booking_ok t" and "r \<in> set (reservations t)" and "x \<in> set (seats t)" and "\<not> names r x"
  shows "holders (close_tables st f r t) x = holders t x"
proof -
  have "filter P (map (\<lambda>q. if q = r then g q else q) xs) = filter P xs"
    if "\<not> P (g r)" and "\<not> P r" for P xs and g :: "reservation \<Rightarrow> reservation"
    using that by (induction xs) auto
  with assms(4) show ?thesis unfolding holders_close [OF assms(1-3)] by (simp add: holders_def)
qed

lemma holders_cong: "seat_id x = seat_id y \<Longrightarrow> holders t x = holders t y"
  by (simp add: holders_def names_cong [of x y])

lemma booking_ok_close:
  assumes ok: "booking_ok t" and r: "r \<in> set (reservations t)" "res_status r = Held"
    and f: "\<And>x. seat_id (f x) = seat_id x" "\<And>x. seat_event (f x) = seat_event x"
    and closes: "st = Cancelled \<and> (\<forall>x. seat_status (f x) = Available) \<or>
      st = Completed \<and> (\<forall>x. seat_status (f x) = Sold)"
  shows "booking_ok (close_tables st f r t)"
proof -
  let ?t = "close_tables st f r t"
  have seats: "seats ?t = map (\<lambda>y. if names r y then f y else y) (seats t)"
    by (simp add: close_tables_def)
  have res: "reservations ?t =
      map (\<lambda>q. if reservation_id q = reservation_id r then q\<lparr>res_status := st\<rparr> else q) (reservations t)"
    by (simp add: close_tables_def)
  have each: "seat_ok ?t (if names r x then f x else x)" if "x \<in> set (seats t)" for x
  proof (cases "names r x")
    case True
    have "st \<noteq> Held" using closes by auto
    note closed = holders_close_named(3) [OF ok r that True this, of f]
    have "holders ?t (f x) = holders ?t x" by (rule holders_cong) (rule f(1))
    with True closed closes show ?thesis by (auto simp: seat_ok_def)
  next
    case False
    with holders_close_other [OF ok r(1) that] booking_okD(4) [OF ok that] show ?thesis
      by (simp add: seat_ok_def)
  qed
  show ?thesis
    unfolding booking_ok_def
  proof (intro conjI ballI)
    have "map seat_id (seats ?t) = map seat_id (seats t)" by (simp add: seats f(1))
    with booking_okD(1) [OF ok] show "distinct (map seat_id (seats ?t))" by metis
    have "map reservation_id (reservations ?t) = map reservation_id (reservations t)"
      unfolding res by simp
    with booking_okD(2) [OF ok] show "distinct (map reservation_id (reservations ?t))" by metis
    show "refers_ok ?t q" if "q \<in> set (reservations ?t)" for q
    proof -
      from that obtain q' where "q' \<in> set (reservations t)"
        "res_seat_ids q = res_seat_ids q'" "res_event q = res_event q'"
        unfolding res by auto
      with booking_okD(3) [OF ok, of q'] refers_cong [of q q' t]
      show ?thesis by (intro refers_set_seats [OF f seats]) simp
    qed
    show "seat_ok ?t y" if "y \<in> set (seats ?t)" for y
      using that each unfolding seats by (metis (no_types, lifting) imageE list.set_map)
  qed
qed

lemma booking_ok_cancel:
  "booking_ok t \<Longrightarrow> r \<in> set (reservations t) \<Longrightarrow> res_status r = Held \<Longrightarrow> booking_ok (cancel_tables r t)"
  by (rule booking_ok_close) (simp_all add: free_seat_def)

lemma booking_ok_complete:
  "booking_ok t \<Longrightarrow> r \<in> set (reservations t) \<Longrightarrow> res_status r = Held \<Longrightarrow> booking_ok (complete_tables r t)"
  by (rule booking_ok_close) (simp_all add: sell_seat_def)

end
