(* ===== verification/Mem_Backend.thy ===== *)
theory Mem_Backend
  imports Backend "HOL-Library.Product_Lexorder"
begin

text \<open>
  An in-memory backend, as the tests' \<open>fakeredis\<close> and a session over one process's tables: each
  operation takes the first outcome its documentation allows. The world adds to the view a script
  of failures (the n-th call into a service fails when the n-th flag is set), of clock readings and
  of random draws. It satisfies every law of \<open>Backend\<close>, so concrete runs of the service can be
  evaluated on it, on error paths too.
\<close>

record mem =
  mview :: vstate
  faults :: "bool list"
  ticks :: "int list"
  dice :: "rat list"

definition attempt :: "(vstate \<Rightarrow> ('a \<times> vstate) option) \<Rightarrow> (vstate \<Rightarrow> vstate) \<Rightarrow> (mem, 'a) py" where
  "attempt f undo w =
     (let w' = w\<lparr>faults := tl (faults w)\<rparr> in
      if faults w \<noteq> [] \<and> hd (faults w)
      then (Inl (ExternalError ''connection lost''), w'\<lparr>mview := undo (mview w)\<rparr>)
      else case f (mview w) of
        None \<Rightarrow> (Inl (ExternalError ''refused''), w'\<lparr>mview := undo (mview w)\<rparr>)
      | Some (a, s) \<Rightarrow> (Inr a, w'\<lparr>mview := s\<rparr>))"

lemma refines_attempt:
  assumes "\<And>s a s'. f s = Some (a, s') \<Longrightarrow> (Inr a, s') \<in> S s"
    and "\<And>s m. (Inl (ExternalError m), undo s) \<in> S s"
  shows "refines mview (attempt f undo) S"
  using assms by (auto simp: refines_def attempt_def Let_def split: option.split)

definition always :: "(vstate \<Rightarrow> 'a \<times> vstate) \<Rightarrow> (mem, 'a) py" where
  "always f w = (Inr (fst (f (mview w))), w\<lparr>mview := snd (f (mview w))\<rparr>)"

lemma refines_always: "(\<And>s. (Inr (fst (f s)), snd (f s)) \<in> S s) \<Longrightarrow> refines mview (always f) S"
  by (auto simp: refines_def always_def)

definition fresh_uuid :: "uuid list \<Rightarrow> uuid option" where
  "fresh_uuid used = List.find (\<lambda>u. u \<notin> set used) (map word_of_nat [1..<Suc (Suc (length used))])"

lemma fresh_uuid_Some: "fresh_uuid used = Some u \<Longrightarrow> u \<notin> set used"
  by (auto simp: fresh_uuid_def find_Some_iff)

definition mem_redis :: "mem redis_client" where
  "mem_redis =
     \<lparr>r_get = (\<lambda>k. attempt (\<lambda>s. Some (rdb_get k (redis s), s)) id),
      r_set_nx = (\<lambda>k x ttl. attempt (\<lambda>s. Some
        (if rdb_get k (redis s) = None then (True, s\<lparr>redis := rdb_set k x (Some ttl) (redis s)\<rparr>)
         else (False, s))) id),
      r_set_ex = (\<lambda>k x ttl. attempt (\<lambda>s. Some ((), s\<lparr>redis := rdb_set k x (Some ttl) (redis s)\<rparr>)) id),
      r_exists = (\<lambda>k. attempt (\<lambda>s. Some (if rdb_get k (redis s) = None then 0 else 1, s)) id),
      r_incr = (\<lambda>k. attempt (\<lambda>s. case kv (redis s) k of
          None \<Rightarrow> Some (1, s\<lparr>redis := rdb_set k (Count 1) None (redis s)\<rparr>)
        | Some (Count n, ttl) \<Rightarrow> Some (Suc n, s\<lparr>redis := rdb_set k (Count (Suc n)) ttl (redis s)\<rparr>)
        | Some _ \<Rightarrow> None) id),
      r_expire = (\<lambda>k ttl. attempt (\<lambda>s. Some ((), s\<lparr>redis := rdb_expire k ttl (redis s)\<rparr>)) id),
      r_zrank = (\<lambda>k m. attempt (\<lambda>s. Some (rdb_zrank k m (redis s), s)) id),
      r_zcard = (\<lambda>k. attempt (\<lambda>s. Some (length (zsets (redis s) k), s)) id),
      r_zrem = (\<lambda>k m. attempt (\<lambda>s. Some (if rdb_zrank k m (redis s) = None then 0 else 1,
          s\<lparr>redis := rdb_zrem k m (redis s)\<rparr>)) id),
      r_pipeline = (\<lambda>cs. attempt (\<lambda>s. Some ((), s\<lparr>redis := run_pipeline cs (redis s)\<rparr>)) id),
      r_eval = (\<lambda>f. attempt (\<lambda>s. Some (fst (f (redis s)), s\<lparr>redis := snd (f (redis s))\<rparr>)) id)\<rparr>"

definition mem_db :: "mem db_session" where
  "mem_db =
     \<lparr>q_seats = (\<lambda>P. attempt (\<lambda>s. Some (filter P (seats (ses s)), s)) id),
      q_seats_for_update = (\<lambda>P. attempt (\<lambda>s. Some (filter P (seats (ses s)), s)) id),
      q_seats_ordered = (\<lambda>P. attempt (\<lambda>s. Some (sort_key seat_key (filter P (seats (ses s))), s)) id),
      save_seat = (\<lambda>x. always (\<lambda>s. ((), s\<lparr>ses := put_seat x (ses s)\<rparr>))),
      reload_seats = (\<lambda>xs. attempt (\<lambda>s.
        let found = (\<lambda>x. List.find (\<lambda>y. seat_id y = seat_id x) (seats (ses s)))
        in if list_all (\<lambda>x. found x \<noteq> None) xs then Some (map (\<lambda>x. the (found x)) xs, s) else None) id),
      q_reservations = (\<lambda>P. attempt (\<lambda>s.
        let rs = map (as_loaded s) (filter P (reservations (ses s))) in Some (rs, remember rs s)) id),
      insert_reservation = (\<lambda>u e sids st ex. attempt (\<lambda>s.
        case fresh_uuid (map reservation_id (reservations (ses s))) of None \<Rightarrow> None
        | Some i \<Rightarrow>
          let r = \<lparr>reservation_id = i, res_user = u, res_event = e, res_seat_ids = sids,
                   res_status = st, res_created_at = Aware (clk s), expires_at = ex\<rparr>
          in Some (r, s\<lparr>ses := (ses s)\<lparr>reservations := reservations (ses s) @
                 [r\<lparr>res_created_at := column_dt s (res_created_at r),
                    expires_at := column_dt s ex\<rparr>]\<rparr>,
               imap := (imap s)(reservation_id r \<mapsto> r)\<rparr>)) discard),
      assign_reservation_status = (\<lambda>i st. always (\<lambda>s.
        ((), s\<lparr>ses := put_reservation_status i st (ses s),
              imap := (imap s)(i := map_option (\<lambda>r. r\<lparr>res_status := st\<rparr>) (imap s i))\<rparr>))),
      reload_reservation = (\<lambda>r. attempt (\<lambda>s.
        case List.find (\<lambda>r'. reservation_id r' = reservation_id r) (reservations (ses s)) of
          None \<Rightarrow> None | Some r' \<Rightarrow> Some (as_loaded s r', remember [as_loaded s r'] s)) id),
      q_payments = (\<lambda>P. attempt (\<lambda>s. Some (filter P (payments (ses s)), s)) id),
      insert_payment = (\<lambda>rid u a st meth. attempt (\<lambda>s.
        case fresh_uuid (map payment_id (payments (ses s))) of None \<Rightarrow> None
        | Some i \<Rightarrow>
          let p = \<lparr>payment_id = i, pay_reservation = rid, pay_user = u, pay_amount = a, pay_status = st,
                   pay_method = meth, pay_created_at = Aware (clk s)\<rparr>
          in Some (p, s\<lparr>ses := (ses s)\<lparr>payments := payments (ses s) @
                 [p\<lparr>pay_created_at := column_dt s (pay_created_at p)\<rparr>]\<rparr>\<rparr>)) discard),
      assign_payment_status = (\<lambda>i st. always (\<lambda>s. ((), s\<lparr>ses := put_payment_status i st (ses s)\<rparr>))),
      reload_payment = (\<lambda>p. attempt (\<lambda>s.
        case List.find (\<lambda>p'. payment_id p' = payment_id p) (payments (ses s)) of
          None \<Rightarrow> None | Some p' \<Rightarrow> Some (p', s)) id),
      q_events = (\<lambda>P. attempt (\<lambda>s. Some (filter P (events (ses s)), s)) id),
      q_events_by_text = (\<lambda>ident. attempt (\<lambda>s. case uuid_parse ident of Inl e \<Rightarrow> None
        | Inr u \<Rightarrow> Some (filter (\<lambda>e. ev_id e = u) (events (ses s)), s)) id),
      add_event = (\<lambda>e. always (\<lambda>s. ((), s\<lparr>ses := (ses s)\<lparr>events := events (ses s) @
        [stored_event s (Aware (clk s)) e]\<rparr>\<rparr>))),
      add_seat = (\<lambda>x. always (\<lambda>s. ((), s\<lparr>ses := (ses s)\<lparr>seats := seats (ses s) @ [x]\<rparr>\<rparr>))),
      q_users = (\<lambda>P. attempt (\<lambda>s. Some (filter P (users (ses s)), s)) id),
      add_user = (\<lambda>u. always (\<lambda>s. ((), s\<lparr>ses := (ses s)\<lparr>users := users (ses s) @
        [stored_user s (Aware (clk s)) u]\<rparr>\<rparr>))),
      count_events = attempt (\<lambda>s. Some (length (events (ses s)), s)) id,
      q_events_page = (\<lambda>off n. attempt (\<lambda>s.
        Some (take n (drop off (sort_key (\<lambda>e. - instant (start_at e)) (events (ses s)))), s)) id),
      flush = attempt (\<lambda>s. Some ((), s)) discard,
      commit = attempt (\<lambda>s. Some ((), commit_changes s)) discard,
      rollback = attempt (\<lambda>s. Some ((), discard s)) discard,
      close_session = attempt (\<lambda>s. Some ((), discard s)) discard,
      expired_hold_exists = attempt (\<lambda>s. Some (list_ex (\<lambda>r. res_status r = Held \<and>
        instant (expires_at r) < clk s) (reservations (ses s)), s)) id\<rparr>"

definition mem_runtime :: "mem runtime" where
  "mem_runtime =
     \<lparr>utcnow = (\<lambda>w. case ticks w of [] \<Rightarrow> (Inr (clk (mview w)), w)
        | t # ts \<Rightarrow> (let now = max t (clk (mview w)) in
            (Inr now, w\<lparr>mview := (mview w)\<lparr>clk := now\<rparr>, ticks := ts\<rparr>))),
      sleep_ms = (\<lambda>ms. always (\<lambda>s. ((), s\<lparr>clk := clk s + ms * 1000\<rparr>))),
      uuid4 = attempt (\<lambda>s. case fresh_uuid (issued s) of None \<Rightarrow> None
        | Some u \<Rightarrow> Some (u, s\<lparr>issued := u # issued s\<rparr>)) id,
      random_unit = (\<lambda>w. case dice w of [] \<Rightarrow> (Inr 0, w)
        | q # qs \<Rightarrow> (Inr (if 0 \<le> q \<and> q < 1 then q else 0), w\<lparr>dice := qs\<rparr>)),
      inc_duplicates = always (\<lambda>s. ((), s\<lparr>dups := Suc (dups s)\<rparr>)),
      time_time = always (\<lambda>s. (real_of_int (clk s) / 1000000, s)),
      log_access = (\<lambda>slow line. always (\<lambda>s. ((), s)))\<rparr>"

definition mem_cluster :: "mem cluster" where
  "mem_cluster =
     \<lparr>load_any_config = always (\<lambda>s. (True, s)),
      load_in_cluster = always (\<lambda>s. (True, s)),
      patch_hpa_min = (\<lambda>name ns n. attempt (\<lambda>s. Some ((), s\<lparr>hpa_min := (hpa_min s)((ns, name) := n)\<rparr>)) id),
      read_scale = (\<lambda>name ns. attempt (\<lambda>s. Some (replicas s (ns, name), s)) id),
      patch_scale = (\<lambda>name ns n. attempt (\<lambda>s. Some ((), s\<lparr>replicas := (replicas s)((ns, name) := n)\<rparr>)) id),
      get_scaled = always (\<lambda>s. (scaled_events s, s)),
      put_scaled = (\<lambda>es. always (\<lambda>s. ((), s\<lparr>scaled_events := es\<rparr>))),
      set_gauge = (\<lambda>g. always (\<lambda>s. ((), s\<lparr>predicted_gauge := g\<rparr>))),
      inc_prescales = always (\<lambda>s. ((), s\<lparr>prescales := Suc (prescales s)\<rparr>))\<rparr>"

section \<open>The laws hold\<close>

lemma rows_like_refl [simp]: "rows_like xs xs"
  by (simp add: rows_like_def)

lemma rows_like_sort [simp]: "rows_like (sort_key f xs) xs"
  by (simp add: rows_like_def)

lemma sorted_seats: "sorted_wrt seat_before (sort_key seat_key xs)"
proof -
  have "sorted (map seat_key (sort_key seat_key xs))" by (rule sorted_sort_key)
  then show ?thesis
    unfolding sorted_map
    by (rule sorted_wrt_mono_rel [rotated])
      (auto simp: seat_before_def seat_key_def less_eq_prod_def less_prod_def order.order_iff_strict)
qed

lemma sorted_events: "sorted_wrt event_later (sort_key (\<lambda>e. - instant (start_at e)) xs)"
proof -
  have "sorted (map (\<lambda>e. - instant (start_at e)) (sort_key (\<lambda>e. - instant (start_at e)) xs))"
    by (rule sorted_sort_key)
  then show ?thesis
    unfolding sorted_map by (rule sorted_wrt_mono_rel [rotated]) (auto simp: event_later_def)
qed

lemma mem_redis_laws: "redis_laws mem_redis mview"
  by unfold_locales
    (auto intro!: refines_attempt simp: mem_redis_def law_simps incr_outcomes_def
      split: if_splits option.splits rvalue.splits)

lemma find_SomeD: "List.find P xs = Some x \<Longrightarrow> P x \<and> x \<in> set xs"
  by (auto simp: find_Some_iff)

lemma find_seat:
  "\<exists>y. List.find (\<lambda>y. seat_id y = i) ts = Some y \<Longrightarrow>
    seat_id (the (List.find (\<lambda>y. seat_id y = i) ts)) = i"
  "\<exists>y. List.find (\<lambda>y. seat_id y = i) ts = Some y \<Longrightarrow>
    the (List.find (\<lambda>y. seat_id y = i) ts) \<in> set ts"
  by (auto dest: find_SomeD)

lemma mem_db_laws: "db_laws mem_db mview"
proof unfold_locales
  show "refines mview (reload_seats mem_db xs) (\<lambda>s.
      {(Inr ys, s) | ys. map seat_id ys = map seat_id xs \<and> set ys \<subseteq> set (seats (ses s))} \<union> fails s)" for xs
    unfolding mem_db_def
    by (auto intro!: refines_attempt simp: law_simps Let_def list_all_iff find_seat
        split: if_splits)
next
  show "refines mview (q_seats_ordered mem_db P) (ordered_seat_rows P)" for P
    unfolding mem_db_def by (auto intro!: refines_attempt simp: law_simps sorted_seats)
next
  show "refines mview (q_events_page mem_db off n) (event_page off n)" for off n
    unfolding mem_db_def
    by (auto intro!: refines_attempt exI [where x = "sort_key (\<lambda>e. - instant (start_at e)) _"]
        simp: law_simps sorted_events)
next
  show "refines mview (q_events_by_text mem_db ident) (event_rows_by_text ident)" for ident
    unfolding mem_db_def
    by (auto intro!: refines_attempt simp: law_simps split: sum.splits) (metis rows_like_refl sum.inject(2) uuid_parse_str)
next
  show "refines mview (expired_hold_exists mem_db) (\<lambda>s.
      {(Inr (\<exists>r \<in> set (reservations (ses s)). res_status r = Held \<and> instant (expires_at r) < t), s) | t. True}
        \<union> fails s)"
    unfolding mem_db_def by (auto intro!: refines_attempt simp: law_simps list_ex_iff)
qed (auto intro!: refines_attempt refines_always rows_like_refl
      simp: mem_db_def law_simps Let_def
      split: option.splits dest!: fresh_uuid_Some find_SomeD)

lemma mem_runtime_laws: "runtime_laws mem_runtime mview"
proof unfold_locales
  show "refines mview (utcnow mem_runtime) (\<lambda>s. {(Inr t, s\<lparr>clk := t\<rparr>) | t. clk s \<le> t})"
    by (auto simp: refines_def mem_runtime_def Let_def split: list.split)
next
  show "refines mview (random_unit mem_runtime) (\<lambda>s. {(Inr q, s) | q. 0 \<le> q \<and> q < 1})"
    by (auto simp: refines_def mem_runtime_def split: list.split)
qed (auto intro!: refines_attempt refines_always simp: mem_runtime_def law_simps
      split: option.splits dest: fresh_uuid_Some)

lemma mem_cluster_laws: "cluster_laws mem_cluster mview"
  unfolding mem_cluster_def
  by unfold_locales
    (simp_all, (rule refines_attempt refines_always; force simp: law_simps)+)

interpretation mem_r: redis_laws mem_redis mview by (rule mem_redis_laws)
interpretation mem_d: db_laws mem_db mview by (rule mem_db_laws)
interpretation mem_t: runtime_laws mem_runtime mview by (rule mem_runtime_laws)
interpretation mem_l: lock_services mem_redis mem_runtime mview by unfold_locales
interpretation mem_b: backend mem_redis mem_db mem_runtime mview by unfold_locales

interpretation mem_k: cluster_laws mem_cluster mview by (rule mem_cluster_laws)

lemma mem_lock_services: "lock_services mem_redis mem_runtime mview" by unfold_locales

lemma mem_backend: "backend mem_redis mem_db mem_runtime mview" by unfold_locales

section \<open>A world to start from\<close>

definition empty_redis :: rdb where
  "empty_redis = \<lparr>kv = Map.empty, zsets = (\<lambda>_. []), zttl = Map.empty, published = []\<rparr>"

definition empty_tables :: tables where
  "empty_tables = \<lparr>users = [], events = [], seats = [], reservations = [], payments = []\<rparr>"

text \<open>A session just opened on the given tables, at time 0, with nothing in Redis.\<close>

definition start_view :: "tables \<Rightarrow> vstate" where
  "start_view t =
     \<lparr>com = t, ses = t, imap = Map.empty, redis = empty_redis, clk = 0, issued = [], dups = 0,
      tz_columns = False, hpa_min = (\<lambda>_. 2), replicas = (\<lambda>_. 2), scaled_events = [], predicted_gauge = 0,
      prescales = 0, model_file = False, train_steps = 0, forecaster_loaded = False\<rparr>"

definition start_mem :: "tables \<Rightarrow> mem" where
  "start_mem t = \<lparr>mview = start_view t, faults = [], ticks = [], dice = []\<rparr>"

lemma start_view_sel [simp]:
  "com (start_view t) = t" "ses (start_view t) = t" "imap (start_view t) = Map.empty"
  "redis (start_view t) = empty_redis" "clk (start_view t) = 0" "issued (start_view t) = []"
  "dups (start_view t) = 0" "tz_columns (start_view t) = False" "scaled_events (start_view t) = []" "mview (start_mem t) = start_view t"
  "fresh_session (start_view t)"
  by (simp_all add: start_view_def start_mem_def fresh_session_def)

lemma empty_redis_sel [simp]:
  "kv empty_redis k = None" "zsets empty_redis k = []" "zttl empty_redis k = None"
  "published empty_redis = []" "rdb_get k empty_redis = None"
  by (simp_all add: empty_redis_def rdb_get_def)

end
