(* ===== verification/Redis_Lock.thy ===== *)
theory Redis_Lock
  imports Mem_Backend
begin

text \<open>
  The distributed lock of \<open>src/redis/lock.py\<close>: the lock object, its acquisition with retries and
  exponential back-off, the Lua script that releases it, and the context manager
  \<open>reservation_lock\<close> under which every reservation change runs. The last section is the protocol
  between clients of one lock as a step relation.
\<close>

section \<open>The lock object\<close>

definition LOCK_TTL_MS :: int where
  "LOCK_TTL_MS = 10000"

text \<open>\<open>RELEASE_SCRIPT\<close>: delete the key only where it holds the given value.\<close>

definition release_script :: "string \<Rightarrow> string \<Rightarrow> rdb \<Rightarrow> nat \<times> rdb" where
  "release_script key val d =
     (if rdb_get key d = Some (Text val) then (1, rdb_del key d) else (0, d))"

record redis_lock =
  lock_key :: string
  lock_ttl_ms :: int
  lock_value :: "string option"

definition new_lock :: "string \<Rightarrow> redis_lock" where
  "new_lock key = \<lparr>lock_key = key, lock_ttl_ms = LOCK_TTL_MS, lock_value = None\<rparr>"

text \<open>The loop of \<open>acquire\<close> over the attempts that are left, with the current delay.\<close>

fun acquire_attempts ::
  "'w redis_client \<Rightarrow> 'w runtime \<Rightarrow> redis_lock \<Rightarrow> string \<Rightarrow> nat \<Rightarrow> nat list \<Rightarrow> int \<Rightarrow> ('w, bool) py" where
  "acquire_attempts R T l val retry [] delay = ret False"
| "acquire_attempts R T l val retry (n # ns) delay =
     bnd (r_set_nx R (lock_key l) (Text val) (lock_ttl_ms l)) (\<lambda>ok.
       if ok then ret True
       else if int n < int retry - 1
       then seqn (sleep_ms T delay) (acquire_attempts R T l val retry ns (min (delay * 2) 1000))
       else acquire_attempts R T l val retry ns delay)"

definition acquire ::
  "'w redis_client \<Rightarrow> 'w runtime \<Rightarrow> redis_lock \<Rightarrow> nat \<Rightarrow> int \<Rightarrow> ('w, bool \<times> redis_lock) py" where
  "acquire R T l retry delay =
     bnd (uuid4 T) (\<lambda>u.
     bnd (acquire_attempts R T l (uuid_str u) retry [0..<retry] delay) (\<lambda>ok.
     ret (ok, l\<lparr>lock_value := Some (uuid_str u)\<rparr>)))"

definition release :: "'w redis_client \<Rightarrow> redis_lock \<Rightarrow> ('w, bool \<times> redis_lock) py" where
  "release R l =
     (case lock_value l of
        None \<Rightarrow> ret (False, l)
      | Some val \<Rightarrow>
          bnd (r_eval R (release_script (lock_key l) val)) (\<lambda>n.
          ret (n \<noteq> 0, l\<lparr>lock_value := None\<rparr>)))"

definition is_locked :: "'w redis_client \<Rightarrow> redis_lock \<Rightarrow> ('w, bool) py" where
  "is_locked R l = bnd (r_exists R (lock_key l)) (\<lambda>n. ret (n = 1))"

definition acquire_reservation_lock ::
  "'w redis_client \<Rightarrow> 'w runtime \<Rightarrow> string \<Rightarrow> nat \<Rightarrow> int \<Rightarrow> ('w, redis_lock) py" where
  "acquire_reservation_lock R T event_id retry delay =
     bnd (acquire R T (new_lock (LOCK_RESERVATION_KEY event_id)) retry delay) (\<lambda>(ok, l).
     if \<not> ok
     then raising (LockAcquireError (''Cannot acquire reservation lock for event '' @ event_id))
     else ret l)"

text \<open>\<open>with reservation_lock(r, event_id): body\<close>.\<close>

definition reservation_lock ::
  "'w redis_client \<Rightarrow> 'w runtime \<Rightarrow> string \<Rightarrow> ('w, 'a) py \<Rightarrow> ('w, 'a) py" where
  "reservation_lock R T event_id body =
     bnd (acquire_reservation_lock R T event_id 3 100) (\<lambda>l. try_finally body (release R l))"

section \<open>Acquiring and releasing\<close>

lemma release_script_own [simp]:
  "rdb_get key d = Some (Text val) \<Longrightarrow> release_script key val d = (1, rdb_del key d)"
  by (simp add: release_script_def)

lemma release_script_other [simp]:
  "rdb_get key d \<noteq> Some (Text val) \<Longrightarrow> release_script key val d = (0, d)"
  by (simp add: release_script_def)

lemma rdb_get_set [simp]: "rdb_get k (rdb_set k' x ttl d) = (if k = k' then Some x else rdb_get k d)"
  by (simp add: rdb_get_def rdb_set_def)

lemma rdb_get_del [simp]: "rdb_get k (rdb_del k' d) = (if k = k' then None else rdb_get k d)"
  by (simp add: rdb_get_def rdb_del_def)

lemma rdb_del_set [simp]: "rdb_get k d = None \<Longrightarrow> rdb_del k (rdb_set k x ttl d) = d"
  by (simp add: rdb_get_def rdb_set_def rdb_del_def fun_upd_idem)

text \<open>What a waiting client has slept for, in milliseconds: the delay doubles up to a second.\<close>

fun backoff_ms :: "nat \<Rightarrow> int \<Rightarrow> int" where
  "backoff_ms 0 delay = 0"
| "backoff_ms (Suc n) delay = delay + backoff_ms n (min (delay * 2) 1000)"

text \<open>
  How an acquisition that did not fail ends: from the view \<open>s\<close>, with the answer \<open>ok\<close>, the lock object
  \<open>l'\<close> and the view \<open>s'\<close>.
\<close>

definition acquired ::
  "redis_lock \<Rightarrow> nat \<Rightarrow> int \<Rightarrow> vstate \<Rightarrow> bool \<Rightarrow> redis_lock \<Rightarrow> vstate \<Rightarrow> bool" where
  "acquired l retry delay s ok l' s' \<longleftrightarrow>
     (\<exists>u. u \<notin> set (issued s) \<and> l' = l\<lparr>lock_value := Some (uuid_str u)\<rparr> \<and>
       (if rdb_get (lock_key l) (redis s) = None
        then ok \<and> s' = s\<lparr>issued := u # issued s,
               redis := rdb_set (lock_key l) (Text (uuid_str u)) (Some (lock_ttl_ms l)) (redis s)\<rparr>
        else \<not> ok \<and> (\<exists>t. s' = s\<lparr>issued := u # issued s, clk := t\<rparr> \<and>
               clk s + backoff_ms (retry - 1) delay * 1000 \<le> t)))"

text \<open>The client's own changes to the view while it waits: the clock only.\<close>

context lock_services
begin

lemma vc_attempts_busy:
  assumes "rdb_get (lock_key l) (redis s) \<noteq> None"
    and "\<And>t. clk s + backoff_ms (n - 1) delay * 1000 \<le> t \<Longrightarrow> Q False (s\<lparr>clk := t\<rparr>)"
    and "\<And>m t. (0 \<le> delay \<Longrightarrow> clk s \<le> t) \<Longrightarrow> E (ExternalError m) (s\<lparr>clk := t\<rparr>)"
    and "n \<le> retry"
  shows "vc v (acquire_attempts R T l val retry [retry - n..<retry] delay) Q E s"
  using assms
proof (induction n arbitrary: s delay)
  case 0
  from "0.prems"(2) [of "clk s"] show ?case by (auto intro: vc_ret)
next
  case (Suc n)
  note failure = Suc.prems(3) [where t = "clk s", simplified]
  have upt: "[retry - Suc n..<retry] = (retry - Suc n) # [retry - n..<retry]"
    using Suc.prems(4) by (simp add: upt_conv_Cons Suc_diff_Suc)
  show ?case
  proof (cases n)
    case 0
    from Suc.prems(2) [of "clk s"] have "Q False s" using 0 by simp
    with 0 Suc.prems(1,4) show ?thesis
      unfolding upt by (auto intro!: vc_intro failure)
  next
    case (Suc k)
    have rest: "vc v (acquire_attempts R T l val retry [retry - n..<retry] (min (delay * 2) 1000))
        Q E (s\<lparr>clk := t\<rparr>)" if t: "clk s + delay * 1000 \<le> t" for t
    proof (rule Suc.IH)
      fix m ta
      assume later: "0 \<le> min (delay * 2) 1000 \<Longrightarrow> clk (s\<lparr>clk := t\<rparr>) \<le> ta"
      have "clk s \<le> ta" if "0 \<le> delay" using that t later by simp
      then show "E (ExternalError m) (s\<lparr>clk := t\<rparr>\<lparr>clk := ta\<rparr>)" using Suc.prems(3) by simp
    qed (use Suc.prems t Suc in \<open>auto simp: algebra_simps\<close>)
    from Suc Suc.prems(1,4) show ?thesis
      unfolding upt by (auto intro!: vc_intro failure rest [unfolded Suc])
  qed
qed

lemma vc_three_attempts_busy:
  assumes "rdb_get (lock_key l) (redis s) \<noteq> None"
    and "\<And>t. clk s + 300 * 1000 \<le> t \<Longrightarrow> Q False (s\<lparr>clk := t\<rparr>)"
    and "\<And>m t. clk s \<le> t \<Longrightarrow> E (ExternalError m) (s\<lparr>clk := t\<rparr>)"
  shows "vc v (acquire_attempts R T l val 3 [0..<3] 100) Q E s"
proof -
  have "backoff_ms (3 - 1) 100 = 300" by (simp add: eval_nat_numeral)
  with assms show ?thesis
    using vc_attempts_busy [of l s 3 100 Q E 3 val] by simp
qed

lemma vc_attempts_free:
  assumes "rdb_get (lock_key l) (redis s) = None" and "0 < retry"
    and "Q True (s\<lparr>redis := rdb_set (lock_key l) (Text val) (Some (lock_ttl_ms l)) (redis s)\<rparr>)"
    and "\<And>m. E (ExternalError m) s"
  shows "vc v (acquire_attempts R T l val retry [0..<retry] delay) Q E s"
  using assms by (auto simp: upt_conv_Cons intro!: vc_intro)

lemma vc_acquire:
  assumes "0 < retry"
  shows "vc v (acquire R T l retry delay) (\<lambda>(ok, l'). acquired l retry delay s ok l')
    (\<lambda>e s'. is_external e \<and> redis s' = redis s) s"
  unfolding acquire_def
proof (rule vc_bnd, rule vc_uuid4, rule vc_bnd)
  fix u
  assume u: "u \<notin> set (issued s)"
  let ?s = "s\<lparr>issued := u # issued s\<rparr>" and ?l = "l\<lparr>lock_value := Some (uuid_str u)\<rparr>"
  have "vc v (acquire_attempts R T l (uuid_str u) retry [0..<retry] delay)
      (\<lambda>ok. acquired l retry delay s ok ?l) (\<lambda>e s'. is_external e \<and> redis s' = redis s) ?s"
  proof (cases "rdb_get (lock_key l) (redis s)")
    case None
    with assms u show ?thesis
      by (intro vc_attempts_free) (auto simp: acquired_def)
  next
    case (Some x)
    have "vc v (acquire_attempts R T l (uuid_str u) retry [retry - retry..<retry] delay)
        (\<lambda>ok. acquired l retry delay s ok ?l) (\<lambda>e s'. is_external e \<and> redis s' = redis s) ?s"
      using Some u by (intro vc_attempts_busy) (auto simp: acquired_def)
    then show ?thesis by simp
  qed
  then show "vc v (acquire_attempts R T l (uuid_str u) retry [0..<retry] delay)
      (\<lambda>ok. vc v (ret (ok, ?l)) (\<lambda>(ok, l'). acquired l retry delay s ok l')
        (\<lambda>e s'. is_external e \<and> redis s' = redis s))
      (\<lambda>e s'. is_external e \<and> redis s' = redis s) ?s"
    by (rule vc_conseq) (auto intro: vc_ret)
qed simp

lemma vc_release [vc_intro]:
  assumes "Q (rdb_get (lock_key l) (redis s) = Some (Text val), l\<lparr>lock_value := None\<rparr>)
      (s\<lparr>redis := snd (release_script (lock_key l) val (redis s))\<rparr>)"
    and "\<And>m. E (ExternalError m) s" and "lock_value l = Some val"
  shows "vc v (release R l) Q E s"
  using assms unfolding release_def by (auto intro!: vc_intro simp: release_script_def)

lemma vc_acquire_reservation_lock:
  assumes free: "\<And>u. u \<notin> set (issued s) \<Longrightarrow> rdb_get (LOCK_RESERVATION_KEY e) (redis s) = None \<Longrightarrow>
      Q \<lparr>lock_key = LOCK_RESERVATION_KEY e, lock_ttl_ms = LOCK_TTL_MS,
         lock_value = Some (uuid_str u)\<rparr>
        (s\<lparr>issued := u # issued s,
           redis := rdb_set (LOCK_RESERVATION_KEY e) (Text (uuid_str u)) (Some LOCK_TTL_MS) (redis s)\<rparr>)"
    and busy: "\<And>u t. rdb_get (LOCK_RESERVATION_KEY e) (redis s) \<noteq> None \<Longrightarrow>
      clk s + 300 * 1000 \<le> t \<Longrightarrow>
      E (LockAcquireError (''Cannot acquire reservation lock for event '' @ e))
        (s\<lparr>issued := u # issued s, clk := t\<rparr>)"
    and failing: "\<And>m us t. clk s \<le> t \<Longrightarrow> E (ExternalError m) (s\<lparr>issued := us, clk := t\<rparr>)"
  shows "vc v (acquire_reservation_lock R T e 3 100) Q E s"
proof (cases "rdb_get (LOCK_RESERVATION_KEY e) (redis s)")
  case None
  have down: "E (ExternalError m) (s\<lparr>issued := us\<rparr>)" for m us
    using failing [where m = m and us = us and t = "clk s"] by simp
  from None show ?thesis
    unfolding acquire_reservation_lock_def acquire_def new_lock_def
    using down [of _ "issued s"]
    by (auto intro!: vc_intro vc_attempts_free free down)
next
  case (Some x)
  then show ?thesis
    unfolding acquire_reservation_lock_def acquire_def new_lock_def
    using failing [where us = "issued s" and t = "clk s"]
    by (auto intro!: vc_intro vc_three_attempts_busy busy failing)
qed

text \<open>
  The rule for \<open>with reservation_lock\<close>: the body runs with the key set to a token nobody else was
  given; whether it returns or raises, the release script runs (or fails); and a lock that is
  taken is reported after the three attempts.
\<close>

lemma vc_reservation_lock:
  assumes body: "\<And>u. u \<notin> set (issued s) \<Longrightarrow> rdb_get (LOCK_RESERVATION_KEY e) (redis s) = None \<Longrightarrow>
      vc v body
        (\<lambda>a s'. Q a (s'\<lparr>redis := snd (release_script (LOCK_RESERVATION_KEY e) (uuid_str u) (redis s'))\<rparr>) \<and>
          (\<forall>m. E (ExternalError m) s'))
        (\<lambda>x s'. E x (s'\<lparr>redis := snd (release_script (LOCK_RESERVATION_KEY e) (uuid_str u) (redis s'))\<rparr>) \<and>
          (\<forall>m. E (ExternalError m) s'))
        (s\<lparr>issued := u # issued s,
           redis := rdb_set (LOCK_RESERVATION_KEY e) (Text (uuid_str u)) (Some LOCK_TTL_MS) (redis s)\<rparr>)"
    and busy: "\<And>u t. rdb_get (LOCK_RESERVATION_KEY e) (redis s) \<noteq> None \<Longrightarrow>
      clk s + 300 * 1000 \<le> t \<Longrightarrow>
      E (LockAcquireError (''Cannot acquire reservation lock for event '' @ e))
        (s\<lparr>issued := u # issued s, clk := t\<rparr>)"
    and failing: "\<And>m us t. clk s \<le> t \<Longrightarrow> E (ExternalError m) (s\<lparr>issued := us, clk := t\<rparr>)"
  shows "vc v (reservation_lock R T e body) Q E s"
  unfolding reservation_lock_def
proof (rule vc_bnd, rule vc_acquire_reservation_lock)
  fix u
  assume u: "u \<notin> set (issued s)" "rdb_get (LOCK_RESERVATION_KEY e) (redis s) = None"
  let ?l = "\<lparr>lock_key = LOCK_RESERVATION_KEY e, lock_ttl_ms = LOCK_TTL_MS,
    lock_value = Some (uuid_str u)\<rparr>"
  show "vc v (try_finally body (release R ?l)) Q E (s\<lparr>issued := u # issued s,
      redis := rdb_set (LOCK_RESERVATION_KEY e) (Text (uuid_str u)) (Some LOCK_TTL_MS) (redis s)\<rparr>)"
    by (rule vc_try_finally, rule vc_conseq [OF body [OF u]])
      (auto intro!: vc_release [where l = ?l and val = "uuid_str u"])
qed (use busy failing in auto)

end

section \<open>The protocol between clients\<close>

text \<open>
  Clients of one lock key, each with the token its last successful \<open>acquire\<close> left in its lock
  object. A step is a successful \<open>SET NX PX\<close> with a new token, a \<open>release\<close> (the script, then
  the token is forgotten), or Redis expiring the key.
\<close>

datatype lock_event = Acquire nat string | Release nat | Expire

record lock_system =
  lock_store :: rdb
  holding :: "nat \<Rightarrow> string option"
  tokens :: "string set"

inductive lock_step :: "string \<Rightarrow> lock_system \<Rightarrow> lock_event \<Rightarrow> lock_system \<Rightarrow> bool" for key where
  acquire: "holding S p = None \<Longrightarrow> tok \<notin> tokens S \<Longrightarrow> rdb_get key (lock_store S) = None \<Longrightarrow>
     lock_step key S (Acquire p tok)
       (S\<lparr>lock_store := rdb_set key (Text tok) (Some LOCK_TTL_MS) (lock_store S),
          holding := (holding S)(p \<mapsto> tok), tokens := insert tok (tokens S)\<rparr>)"
| release: "holding S p = Some tok \<Longrightarrow>
     lock_step key S (Release p)
       (S\<lparr>lock_store := snd (release_script key tok (lock_store S)),
          holding := (holding S)(p := None)\<rparr>)"
| expire: "lock_step key S Expire (S\<lparr>lock_store := rdb_del key (lock_store S)\<rparr>)"

inductive_cases lock_step_Acquire: "lock_step key S (Acquire p tok) S'"
inductive_cases lock_step_Release: "lock_step key S (Release p) S'"
inductive_cases lock_step_Expire: "lock_step key S Expire S'"

definition lock_start :: "rdb \<Rightarrow> lock_system" where
  "lock_start d = \<lparr>lock_store = d, holding = Map.empty, tokens = {}\<rparr>"

inductive lock_run :: "string \<Rightarrow> lock_system \<Rightarrow> lock_event list \<Rightarrow> lock_system \<Rightarrow> bool" for key S where
  none: "lock_run key S [] S"
| step: "lock_run key S evs S' \<Longrightarrow> lock_step key S' ev S'' \<Longrightarrow> lock_run key S (evs @ [ev]) S''"

text \<open>
  Tokens are never shared; what the key holds is a token some client holds, once the key was
  free at the start; and, until the key expires, a client that holds a token has the key.
\<close>

definition lock_tokens_ok :: "lock_system \<Rightarrow> bool" where
  "lock_tokens_ok S \<longleftrightarrow>
     (\<forall>p tok. holding S p = Some tok \<longrightarrow> tok \<in> tokens S) \<and> inj_on (holding S) (dom (holding S))"

definition lock_key_ok :: "string \<Rightarrow> lock_system \<Rightarrow> bool" where
  "lock_key_ok key S \<longleftrightarrow>
     (\<forall>p tok. holding S p = Some tok \<longrightarrow> rdb_get key (lock_store S) = Some (Text tok))"

lemma lock_step_tokens_ok: "lock_step key S ev S' \<Longrightarrow> lock_tokens_ok S \<Longrightarrow> lock_tokens_ok S'"
  by (induction rule: lock_step.induct)
    (auto simp: lock_tokens_ok_def inj_on_def dom_def split: if_splits)

lemma lock_run_tokens_ok:
  "lock_run key S evs S' \<Longrightarrow> lock_tokens_ok S \<Longrightarrow> lock_tokens_ok S'"
  by (induction rule: lock_run.induct) (auto dest: lock_step_tokens_ok)

lemma same_token_same_client:
  "lock_tokens_ok S \<Longrightarrow> holding S p = Some a \<Longrightarrow> holding S q = Some a \<Longrightarrow> p = q"
  unfolding lock_tokens_ok_def by (metis domI inj_on_def)

lemma lock_holder_unique:
  assumes "lock_tokens_ok S" and "lock_key_ok key S"
    and "holding S p = Some a" and "holding S q = Some b"
  shows "p = q"
proof -
  from assms(2-4) have "Some (Text a) = Some (Text b)" unfolding lock_key_ok_def by metis
  with assms show ?thesis by (auto intro: same_token_same_client)
qed

lemma lock_step_key_ok:
  assumes "lock_step key S ev S'" and "lock_tokens_ok S" and "lock_key_ok key S" and "ev \<noteq> Expire"
  shows "lock_key_ok key S'"
  using assms
proof (induction rule: lock_step.induct)
  case (acquire S p tok)
  then show ?case by (auto simp: lock_key_ok_def)
next
  case (release S p tok)
  then have "q = p" if "holding S q = Some u" for q u
    using that lock_holder_unique by blast
  then show ?case by (auto simp: lock_key_ok_def)
qed simp

lemma lock_run_key_ok:
  "lock_run key S evs S' \<Longrightarrow> lock_tokens_ok S \<Longrightarrow> lock_key_ok key S \<Longrightarrow> Expire \<notin> set evs \<Longrightarrow>
    lock_key_ok key S'"
  by (induction rule: lock_run.induct) (auto dest: lock_step_key_ok lock_run_tokens_ok)

lemma lock_start_ok: "lock_tokens_ok (lock_start d)" "lock_key_ok key (lock_start d)"
  by (simp_all add: lock_tokens_ok_def lock_key_ok_def lock_start_def)

section \<open>Properties\<close>

text \<open>A release deletes the key exactly where it still holds the lock's own token, and
  changes nothing otherwise; in both cases the lock object forgets its token. If the call to Redis
  fails, nothing has changed.\<close>

lemma release_deletes_only_own_lock:
  assumes "redis_laws R v" and "lock_value l = Some tok"
  shows "wp (release R l)
    (\<lambda>(ok, l') w'. l' = l\<lparr>lock_value := None\<rparr> \<and>
       ok = (rdb_get (lock_key l) (redis (v w)) = Some (Text tok)) \<and>
       v w' = (if ok then (v w)\<lparr>redis := rdb_del (lock_key l) (redis (v w))\<rparr> else v w))
    (\<lambda>e w'. is_external e \<and> v w' = v w) w"
proof -
  have "vc v (release R l)
      (\<lambda>(ok, l') s'. l' = l\<lparr>lock_value := None\<rparr> \<and>
         ok = (rdb_get (lock_key l) (redis (v w)) = Some (Text tok)) \<and>
         s' = (if ok then (v w)\<lparr>redis := rdb_del (lock_key l) (redis (v w))\<rparr> else v w))
      (\<lambda>e s'. is_external e \<and> s' = v w) (v w)"
    unfolding release_def using assms(2)
    by (auto intro!: vc_intro redis_laws.vc_eval [OF assms(1)] simp: release_script_def split: if_splits)
  from vcD [OF this] show ?thesis by (rule wp_mono) auto
qed

lemma release_deletes_only_own_lock_witness:
  "redis_laws mem_redis mview \<and>
   (let l = \<lparr>lock_key = ''k'', lock_ttl_ms = LOCK_TTL_MS, lock_value = Some ''mine''\<rparr>;
        w = start_mem empty_tables
    in lock_value l = Some ''mine'' \<and>
       wp (release mem_redis l) (\<lambda>(ok, l') w'. \<not> ok \<and> mview w' = mview w) (\<lambda>e w'. is_external e) w)"
proof -
  let ?l = "\<lparr>lock_key = ''k'', lock_ttl_ms = LOCK_TTL_MS, lock_value = Some ''mine''\<rparr>"
  have "wp (release mem_redis ?l) (\<lambda>(ok, l') w'. \<not> ok \<and> mview w' = mview (start_mem empty_tables))
      (\<lambda>e w'. is_external e) (start_mem empty_tables)"
    by (rule wp_mono [OF release_deletes_only_own_lock [OF mem_redis_laws, of ?l "''mine''"]]) auto
  then show ?thesis by (simp add: mem_redis_laws)
qed



text \<open>Even when keys do expire, a client whose lock ran out cannot free the lock another
  client has taken since: its release leaves the store as it is.\<close>

theorem stale_release_is_harmless:
  assumes "lock_run key (lock_start d) evs S" and "holding S q = Some b"
    and "rdb_get key (lock_store S) = Some (Text b)"
    and "p \<noteq> q" and "lock_step key S (Release p) S'"
  shows "lock_store S' = lock_store S"
proof -
  from assms(1) have "lock_tokens_ok S" using lock_run_tokens_ok lock_start_ok by blast
  with assms(2-5) show ?thesis
    by (auto elim!: lock_step_Release simp: release_script_def dest: same_token_same_client)
qed

theorem stale_release_is_harmless_witness:
  "\<exists>S S'. lock_run ''k'' (lock_start empty_redis) [Acquire 1 ''t'', Expire, Acquire 2 ''u''] S \<and>
     lock_step ''k'' S (Release 1) S' \<and> lock_store S' = lock_store S \<and>
     rdb_get ''k'' (lock_store S') = Some (Text ''u'')"
proof -
  define S0 where "S0 = lock_start empty_redis"
  define S1 where "S1 = S0\<lparr>lock_store := rdb_set ''k'' (Text ''t'') (Some LOCK_TTL_MS) (lock_store S0),
      holding := (holding S0)(1 \<mapsto> ''t''), tokens := insert ''t'' (tokens S0)\<rparr>"
  define S2 where "S2 = S1\<lparr>lock_store := rdb_del ''k'' (lock_store S1)\<rparr>"
  define S3 where "S3 = S2\<lparr>lock_store := rdb_set ''k'' (Text ''u'') (Some LOCK_TTL_MS) (lock_store S2),
      holding := (holding S2)(2 \<mapsto> ''u''), tokens := insert ''u'' (tokens S2)\<rparr>"
  note defs = S0_def S1_def S2_def S3_def lock_start_def
  have "lock_step ''k'' S0 (Acquire 1 ''t'') S1" and "lock_step ''k'' S1 Expire S2"
    and "lock_step ''k'' S2 (Acquire 2 ''u'') S3"
    unfolding S1_def S2_def S3_def
    by (rule lock_step.intros; simp add: defs)+
  then have "lock_run ''k'' S0 ((([] @ [Acquire 1 ''t'']) @ [Expire]) @ [Acquire 2 ''u'']) S3"
    by (blast intro: lock_run.intros)
  then have run: "lock_run ''k'' (lock_start empty_redis) [Acquire 1 ''t'', Expire, Acquire 2 ''u''] S3"
    by (simp add: S0_def)
  obtain S' where rel: "lock_step ''k'' S3 (Release 1) S'"
    using lock_step.release [of S3 1 "''t''" "''k''"] by (auto simp: defs)
  have other: "holding S3 2 = Some ''u''" "rdb_get ''k'' (lock_store S3) = Some (Text ''u'')"
    by (simp_all add: defs)
  have "lock_store S' = lock_store S3"
    by (rule stale_release_is_harmless [OF run other _ rel]) simp
  with run rel other show ?thesis by metis
qed

text \<open>Acquiring takes a free key at once, setting it to a token nobody was given before, with
  the lock's time to live; a key that is taken is left alone and, when all attempts are used, the
  answer is no, after waiting at least as long as the back-off adds up to. Only a failing call to
  Redis or to the random source raises.\<close>

theorem acquire_outcome:
  assumes "lock_services R T v" and "0 < retry"
  shows "wp (acquire R T l retry delay) (\<lambda>(ok, l') w'. acquired l retry delay (v w) ok l' (v w'))
    (\<lambda>e w'. is_external e \<and> redis (v w') = redis (v w)) w"
  by (rule vcD_pair [OF lock_services.vc_acquire [OF assms]])

theorem acquire_outcome_witness:
  "lock_services mem_redis mem_runtime mview \<and>
   wp (acquire mem_redis mem_runtime (new_lock ''k'') 3 100)
     (\<lambda>(ok, l') w'. ok \<and> rdb_get ''k'' (redis (mview w')) \<noteq> None)
     (\<lambda>e w'. is_external e) (start_mem empty_tables)"
proof -
  have "wp (acquire mem_redis mem_runtime (new_lock ''k'') 3 100)
     (\<lambda>(ok, l') w'. ok \<and> rdb_get ''k'' (redis (mview w')) \<noteq> None)
     (\<lambda>e w'. is_external e) (start_mem empty_tables)"
    by (rule wp_mono [OF acquire_outcome [OF mem_lock_services]])
      (auto simp: acquired_def new_lock_def)
  then show ?thesis by (simp add: mem_lock_services)
qed

end
