(* ===== verification/Reservation_Service.thy ===== *)
theory Reservation_Service
  imports Bookings Redis_Lock
begin

text \<open>
  The reservation service, \<open>src/services/reservation_service.py\<close>: holding, cancelling, completing
  and releasing seats, each under the lock of the event. Attribute accesses that make SQLAlchemy
  load a row again (the first one after a commit or a rollback) are written out. The methods that
  decide before they take the lock are split at the lock, so that what happens when another client
  acts in between can be stated.
\<close>

section \<open>Helpers of the service\<close>

definition RESERVATION_HOLD_MINUTES :: int where
  "RESERVATION_HOLD_MINUTES = 5"

definition publish_seat_update ::
  "'w redis_client \<Rightarrow> 'w runtime \<Rightarrow> string \<Rightarrow> seat list \<Rightarrow> seat_status \<Rightarrow> ('w, unit) py" where
  "publish_seat_update R T event_id xs new_status =
     bnd (utcnow T) (\<lambda>now.
     try_except
       (r_pipeline R
         [CDelete (CACHE_SEATS_KEY event_id), CDelete (CACHE_AVAILABLE_SEATS_KEY event_id),
          CPublish (''seat_updates:'' @ event_id)
            (UpdateJson event_id (map (\<lambda>x. (uuid_str (seat_id x), new_status)) xs) now)])
       (\<lambda>_. ret ()))"

definition to_reservation_response :: "reservation \<Rightarrow> rat \<Rightarrow> reservation_response" where
  "to_reservation_response r amount =
     \<lparr>rr_reservation_id = reservation_id r, rr_user_id = res_user r, rr_event_id = res_event r,
      rr_seat_ids = res_seat_ids r, rr_status = res_status r, rr_created_at = res_created_at r,
      rr_expires_at = expires_at r, rr_total_price = amount\<rparr>"

definition total_price :: "seat list \<Rightarrow> rat" where
  "total_price xs = sum_list (map price xs)"

section \<open>hold_seats\<close>

definition hold_under_lock ::
  "'w db_session \<Rightarrow> 'w redis_client \<Rightarrow> 'w runtime \<Rightarrow> string \<Rightarrow> string \<Rightarrow> uuid \<Rightarrow> uuid \<Rightarrow> uuid list \<Rightarrow>
    ('w, reservation \<times> seat list) py" where
  "hold_under_lock D R T user_id event_id user_uuid event_uuid seat_ids =
     bnd (get_held_by_user_and_event D T user_uuid event_uuid) (\<lambda>existing.
     if existing \<noteq> None
     then seqn (inc_duplicates T) (raising (DuplicateReservationError
       (''User '' @ user_id @ '' already has a held reservation for event '' @ event_id)))
     else
       bnd (q_seats_for_update D (\<lambda>x. seat_id x \<in> set seat_ids \<and> seat_event x = event_uuid)) (\<lambda>xs.
       if length xs \<noteq> length seat_ids
       then raising (SeatNotAvailableError ''One or more seats not found'')
       else
         let unavailable = filter (\<lambda>x. seat_status x \<noteq> Available) xs in
         if unavailable \<noteq> []
         then raising (SeatNotAvailableError
           (''Seats already taken: '' @ repr_str_list (map (\<lambda>x. uuid_str (seat_id x)) unavailable)))
         else
           bnd (utcnow T) (\<lambda>now.
           let hold_until = Naive (now + minutes RESERVATION_HOLD_MINUTES) in
           seqn (for_each (\<lambda>x. save_seat D (hold_seat user_uuid hold_until x)) xs)
           (bnd (reservation_create D user_uuid event_uuid (map (\<lambda>x. uuid_str (seat_id x)) xs) hold_until)
             (\<lambda>reservation.
           seqn (r_pipeline R (map (\<lambda>x.
               CSet (SEAT_HOLD_KEY event_id (uuid_str (seat_id x))) (Text user_id) SEAT_HOLD_TTL) xs))
           (seqn (commit D)
           (bnd (reload_seats D xs) (\<lambda>ys.
           seqn (publish_seat_update R T event_id ys Hold)
           (ret (reservation, ys))))))))))"

definition hold_seats ::
  "'w db_session \<Rightarrow> 'w redis_client \<Rightarrow> 'w runtime \<Rightarrow> string \<Rightarrow> string \<Rightarrow> uuid list \<Rightarrow>
    ('w, reservation_response) py" where
  "hold_seats D R T user_id event_id seat_ids =
     bnd (lift_res (uuid_parse user_id)) (\<lambda>user_uuid.
     bnd (lift_res (uuid_parse event_id)) (\<lambda>event_uuid.
     bnd (reservation_lock R T event_id
       (hold_under_lock D R T user_id event_id user_uuid event_uuid seat_ids)) (\<lambda>(reservation, xs).
     bnd (reload_reservation D reservation) (\<lambda>r.
     ret (to_reservation_response r (total_price xs))))))"

section \<open>cancel_reservation, get_reservation, complete_reservation\<close>

text \<open>The seats a reservation names, with a row lock or without.\<close>

definition named_seats_for_update :: "'w db_session \<Rightarrow> reservation \<Rightarrow> ('w, seat list) py" where
  "named_seats_for_update D r =
     bnd (lift_res (parse_seat_ids (res_seat_ids r))) (\<lambda>ids.
     q_seats_for_update D (\<lambda>x. seat_id x \<in> set ids))"

definition named_seats :: "'w db_session \<Rightarrow> reservation \<Rightarrow> ('w, seat list) py" where
  "named_seats D r =
     bnd (lift_res (parse_seat_ids (res_seat_ids r))) (\<lambda>ids. q_seats D (\<lambda>x. seat_id x \<in> set ids))"

definition drop_hold_keys ::
  "'w redis_client \<Rightarrow> string \<Rightarrow> seat list \<Rightarrow> ('w, unit) py" where
  "drop_hold_keys R event_id xs =
     r_pipeline R (map (\<lambda>x. CDelete (SEAT_HOLD_KEY event_id (uuid_str (seat_id x)))) xs)"

definition cancel_check ::
  "'w db_session \<Rightarrow> uuid \<Rightarrow> string \<Rightarrow> ('w, reservation) py" where
  "cancel_check D rid user_id =
     bnd (reservation_get_by_id D rid) (\<lambda>found.
     case found of
       None \<Rightarrow> raising (ReservationNotFoundError (''Reservation '' @ uuid_str rid @ '' not found''))
     | Some r \<Rightarrow>
         if uuid_str (res_user r) \<noteq> user_id
         then raising (ReservationNotFoundError ''Not your reservation'')
         else if res_status r \<noteq> Held
         then raising (SeatNotAvailableError
           (''Cannot cancel reservation in status: '' @ reservation_status_text (res_status r)))
         else ret r)"

definition cancel_under_lock ::
  "'w db_session \<Rightarrow> 'w redis_client \<Rightarrow> 'w runtime \<Rightarrow> reservation \<Rightarrow> ('w, seat list) py" where
  "cancel_under_lock D R T r =
     (let event_id = uuid_str (res_event r) in
      bnd (named_seats_for_update D r) (\<lambda>xs.
      seqn (for_each (\<lambda>x. save_seat D (free_seat x)) xs)
      (seqn (reservation_update_status D (reservation_id r) Cancelled)
      (seqn (commit D)
      (bnd (reload_seats D xs) (\<lambda>ys.
      seqn (drop_hold_keys R event_id ys)
      (seqn (publish_seat_update R T event_id ys Available)
      (ret ys))))))))"

definition cancel_reservation ::
  "'w db_session \<Rightarrow> 'w redis_client \<Rightarrow> 'w runtime \<Rightarrow> uuid \<Rightarrow> string \<Rightarrow> ('w, reservation_response) py" where
  "cancel_reservation D R T rid user_id =
     bnd (cancel_check D rid user_id) (\<lambda>reservation.
     bnd (reservation_lock R T (uuid_str (res_event reservation))
       (cancel_under_lock D R T reservation)) (\<lambda>xs.
     bnd (reload_reservation D reservation) (\<lambda>r.
     ret (to_reservation_response r (total_price xs)))))"

definition get_reservation ::
  "'w db_session \<Rightarrow> uuid \<Rightarrow> string \<Rightarrow> ('w, reservation_response) py" where
  "get_reservation D rid user_id =
     bnd (reservation_get_by_id D rid) (\<lambda>found.
     case found of
       None \<Rightarrow> raising (ReservationNotFoundError (''Reservation '' @ uuid_str rid @ '' not found''))
     | Some r \<Rightarrow>
         if uuid_str (res_user r) \<noteq> user_id
         then raising (ReservationNotFoundError (''Reservation '' @ uuid_str rid @ '' not found''))
         else bnd (named_seats D r) (\<lambda>xs. ret (to_reservation_response r (total_price xs))))"

definition complete_check ::
  "'w db_session \<Rightarrow> 'w runtime \<Rightarrow> uuid \<Rightarrow> ('w, reservation) py" where
  "complete_check D T rid =
     bnd (reservation_get_by_id D rid) (\<lambda>found.
     case found of
       None \<Rightarrow> raising (ReservationNotFoundError ''Held reservation not found'')
     | Some r \<Rightarrow>
         if res_status r \<noteq> Held
         then raising (ReservationNotFoundError ''Held reservation not found'')
         else
           bnd (utcnow T) (\<lambda>now.
           bnd (lift_res (dt_less (expires_at r) (Naive now))) (\<lambda>late.
           if late
           then raising (ReservationExpiredError (''Reservation '' @ uuid_str rid @ '' has expired''))
           else ret r)))"

definition complete_under_lock ::
  "'w db_session \<Rightarrow> 'w redis_client \<Rightarrow> 'w runtime \<Rightarrow> reservation \<Rightarrow> ('w, unit) py" where
  "complete_under_lock D R T r =
     (let event_id = uuid_str (res_event r) in
      bnd (named_seats_for_update D r) (\<lambda>xs.
      seqn (for_each (\<lambda>x. save_seat D (sell_seat x)) xs)
      (seqn (reservation_update_status D (reservation_id r) Completed)
      (seqn (commit D)
      (bnd (reload_seats D xs) (\<lambda>ys.
      seqn (drop_hold_keys R event_id ys)
      (publish_seat_update R T event_id ys Sold)))))))"

definition complete_reservation ::
  "'w db_session \<Rightarrow> 'w redis_client \<Rightarrow> 'w runtime \<Rightarrow> uuid \<Rightarrow> ('w, reservation) py" where
  "complete_reservation D R T rid =
     bnd (complete_check D T rid) (\<lambda>reservation.
     seqn (reservation_lock R T (uuid_str (res_event reservation))
       (complete_under_lock D R T reservation))
     (ret reservation))"

section \<open>release_expired_holds, release_user_holds\<close>

text \<open>
  The loops of the two methods count in a local variable, which keeps its value when the block
  under the lock raises after the count went up. \<open>capture\<close> turns a raise into a value;
  \<open>counting_lock\<close> is \<open>with reservation_lock(...)\<close> around a block that returns the count and what
  it raised, if anything.
\<close>

definition capture :: "('w, 'a) py \<Rightarrow> ('w, exn + 'a) py" where
  "capture m = try_except (bnd m (\<lambda>a. ret (Inr a))) (\<lambda>e. ret (Inl e))"

lemma vc_capture: "vc v m (\<lambda>a. Q (Inr a)) (\<lambda>e. Q (Inl e)) s \<Longrightarrow> vc v (capture m) Q E s"
  unfolding capture_def
  by (rule vc_try_except, rule vc_bnd, erule vc_conseq) (auto intro: vc_ret)

definition raised :: "exn + 'a \<Rightarrow> exn option" where
  "raised r = (case r of Inl e \<Rightarrow> Some e | Inr _ \<Rightarrow> None)"

definition counting_lock ::
  "'w redis_client \<Rightarrow> 'w runtime \<Rightarrow> string \<Rightarrow> nat \<Rightarrow> ('w, nat \<times> exn option) py \<Rightarrow>
    ('w, nat \<times> exn option) py" where
  "counting_lock R T event_id n body =
     bnd (capture (acquire_reservation_lock R T event_id 3 100)) (\<lambda>got.
     case got of
       Inl e \<Rightarrow> ret (n, Some e)
     | Inr l \<Rightarrow>
         bnd body (\<lambda>(n', failed).
         bnd (capture (release R l)) (\<lambda>freed.
         ret (n', case raised freed of Some e \<Rightarrow> Some e | None \<Rightarrow> failed))))"

text \<open>Inside the lock: the seats of the reservation read again are freed, unless it is not held.\<close>

definition release_committed ::
  "'w db_session \<Rightarrow> 'w redis_client \<Rightarrow> 'w runtime \<Rightarrow> string \<Rightarrow> reservation \<Rightarrow> ('w, nat) py" where
  "release_committed D R T event_id fresh =
     bnd (named_seats_for_update D fresh) (\<lambda>xs.
     seqn (for_each (\<lambda>x. save_seat D (free_seat x)) xs)
     (seqn (reservation_update_status D (reservation_id fresh) Cancelled)
     (seqn (commit D)
     (bnd (reload_seats D xs) (\<lambda>ys.
     seqn (drop_hold_keys R event_id ys)
     (seqn (publish_seat_update R T event_id ys Available)
     (ret (length ys))))))))"

definition release_expired_block ::
  "'w db_session \<Rightarrow> 'w redis_client \<Rightarrow> 'w runtime \<Rightarrow> string \<Rightarrow> reservation \<Rightarrow> nat \<Rightarrow>
    ('w, nat \<times> exn option) py" where
  "release_expired_block D R T event_id reservation n =
     bnd (capture (reservation_get_by_id D (reservation_id reservation))) (\<lambda>found.
     case found of
       Inl e \<Rightarrow> ret (n, Some e)
     | Inr None \<Rightarrow> ret (n, None)
     | Inr (Some fresh) \<Rightarrow>
         if res_status fresh \<noteq> Held then ret (n, None)
         else
           bnd (capture (release_committed D R T event_id fresh)) (\<lambda>done1.
           case done1 of
             Inl e \<Rightarrow> ret (n, Some e)
           | Inr k \<Rightarrow>
               bnd (capture (reload_reservation D fresh)) (\<lambda>logged.
               ret (n + k, raised logged))))"

definition release_expired_one ::
  "'w db_session \<Rightarrow> 'w redis_client \<Rightarrow> 'w runtime \<Rightarrow> nat \<Rightarrow> reservation \<Rightarrow> ('w, nat) py" where
  "release_expired_one D R T n reservation =
     bnd (reload_reservation D reservation) (\<lambda>r.
     let event_id = uuid_str (res_event r) in
     bnd (counting_lock R T event_id n (release_expired_block D R T event_id r n)) (\<lambda>(n', failed).
     case failed of
       None \<Rightarrow> ret n'
     | Some e \<Rightarrow>
         seqn (reload_reservation D reservation)
         (seqn (capture (rollback D)) (ret n'))))"

definition release_expired_holds ::
  "'w db_session \<Rightarrow> 'w redis_client \<Rightarrow> 'w runtime \<Rightarrow> ('w, nat) py" where
  "release_expired_holds D R T =
     bnd (get_expired_held D T) (\<lambda>expired.
     if expired = [] then ret 0 else foldM (release_expired_one D R T) 0 expired)"

definition release_user_block ::
  "'w db_session \<Rightarrow> 'w redis_client \<Rightarrow> 'w runtime \<Rightarrow> string \<Rightarrow> reservation \<Rightarrow> nat \<Rightarrow>
    ('w, nat \<times> exn option) py" where
  "release_user_block D R T event_id reservation n =
     bnd (capture (reservation_get_by_id D (reservation_id reservation))) (\<lambda>found.
     case found of
       Inl e \<Rightarrow> ret (n, Some e)
     | Inr None \<Rightarrow> ret (n, None)
     | Inr (Some fresh) \<Rightarrow>
         if res_status fresh \<noteq> Held then ret (n, None)
         else
           bnd (capture (release_committed D R T event_id fresh)) (\<lambda>done1.
           case done1 of Inl e \<Rightarrow> ret (n, Some e) | Inr k \<Rightarrow> ret (n + k, None)))"

definition release_user_one ::
  "'w db_session \<Rightarrow> 'w redis_client \<Rightarrow> 'w runtime \<Rightarrow> nat \<Rightarrow> reservation \<Rightarrow> ('w, nat) py" where
  "release_user_one D R T n reservation =
     bnd (reload_reservation D reservation) (\<lambda>r.
     let event_id = uuid_str (res_event r) in
     bnd (counting_lock R T event_id n (release_user_block D R T event_id r n)) (\<lambda>(n', failed).
     case failed of None \<Rightarrow> ret n' | Some e \<Rightarrow> seqn (capture (rollback D)) (ret n')))"

definition release_user_holds ::
  "'w db_session \<Rightarrow> 'w redis_client \<Rightarrow> 'w runtime \<Rightarrow> string \<Rightarrow> ('w, nat) py" where
  "release_user_holds D R T user_id =
     bnd (lift_res (uuid_parse user_id)) (\<lambda>user_uuid.
     bnd (get_held_by_user D user_uuid) (\<lambda>held.
     if held = [] then ret 0 else foldM (release_user_one D R T) 0 held))"

section \<open>Redis under the event lock\<close>

definition announce :: "string \<Rightarrow> seat list \<Rightarrow> seat_status \<Rightarrow> int \<Rightarrow> rdb \<Rightarrow> rdb" where
  "announce e xs st t d =
     rdb_publish (''seat_updates:'' @ e) (UpdateJson e (map (\<lambda>x. (uuid_str (seat_id x), st)) xs) t)
       (rdb_del (CACHE_AVAILABLE_SEATS_KEY e) (rdb_del (CACHE_SEATS_KEY e) d))"

definition mark_held :: "string \<Rightarrow> string \<Rightarrow> seat list \<Rightarrow> rdb \<Rightarrow> rdb" where
  "mark_held e u xs d =
     fold (\<lambda>x. rdb_set (SEAT_HOLD_KEY e (uuid_str (seat_id x))) (Text u) (Some SEAT_HOLD_TTL)) xs d"

definition unmark_held :: "string \<Rightarrow> seat list \<Rightarrow> rdb \<Rightarrow> rdb" where
  "unmark_held e xs d = fold (\<lambda>x. rdb_del (SEAT_HOLD_KEY e (uuid_str (seat_id x)))) xs d"

lemma seat_hold_key_inject [simp]: "SEAT_HOLD_KEY e s = SEAT_HOLD_KEY e s' \<longleftrightarrow> s = s'"
  by (simp add: SEAT_HOLD_KEY_def)

lemma get_announce [simp]:
  "rdb_get k (announce e xs st t d) =
    (if k = CACHE_SEATS_KEY e \<or> k = CACHE_AVAILABLE_SEATS_KEY e then None else rdb_get k d)"
  by (simp add: announce_def rdb_publish_def rdb_get_def rdb_del_def)

lemma get_mark_held [simp]:
  "rdb_get k (mark_held e u xs d) =
    (if \<exists>x \<in> set xs. k = SEAT_HOLD_KEY e (uuid_str (seat_id x)) then Some (Text u) else rdb_get k d)"
  unfolding mark_held_def by (induction xs arbitrary: d) auto

lemma get_unmark_held [simp]:
  "rdb_get k (unmark_held e xs d) =
    (if \<exists>x \<in> set xs. k = SEAT_HOLD_KEY e (uuid_str (seat_id x)) then None else rdb_get k d)"
  unfolding unmark_held_def by (induction xs arbitrary: d) auto

lemma pipeline_mark_held [simp]:
  "run_pipeline (map (\<lambda>x. CSet (SEAT_HOLD_KEY e (uuid_str (seat_id x))) (Text u) SEAT_HOLD_TTL) xs) d =
    mark_held e u xs d"
  unfolding mark_held_def run_pipeline_def by (induction xs arbitrary: d) auto

lemma pipeline_unmark_held [simp]:
  "run_pipeline (map (\<lambda>x. CDelete (SEAT_HOLD_KEY e (uuid_str (seat_id x)))) xs) d = unmark_held e xs d"
  unfolding unmark_held_def run_pipeline_def by (induction xs arbitrary: d) auto

lemma pipeline_announce [simp]:
  "run_pipeline [CDelete (CACHE_SEATS_KEY e), CDelete (CACHE_AVAILABLE_SEATS_KEY e),
      CPublish (''seat_updates:'' @ e) (UpdateJson e (map (\<lambda>x. (uuid_str (seat_id x), st)) xs) t)] d =
    announce e xs st t d"
  by (simp add: announce_def run_pipeline_def)

section \<open>What the queries find\<close>

text \<open>As many rows as requested ids means that the ids are distinct and all there.\<close>

lemma all_seats_found:
  assumes "distinct (map seat_id ts)"
    and "rows_like xs (filter (\<lambda>x. seat_id x \<in> set ids \<and> P x) ts)" and "length xs = length ids"
  shows "distinct ids" and "seat_id ` set xs = set ids"
proof -
  have d: "distinct (map seat_id xs)"
    by (rule rows_like_distinct [OF assms(2)]) (simp add: assms(1) distinct_map_filter)
  have sub: "seat_id ` set xs \<subseteq> set ids" using rows_like_set [OF assms(2)] by auto
  have "card (seat_id ` set xs) = length ids"
    using d assms(3) by (metis distinct_card length_map list.set_map)
  with sub have "length ids \<le> card (set ids)" by (metis List.finite_set card_mono)
  then show "distinct ids" by (metis card_distinct card_length le_antisym)
  with sub \<open>card (seat_id ` set xs) = length ids\<close> show "seat_id ` set xs = set ids"
    by (metis List.finite_set card_subset_eq distinct_card)
qed

definition seats_total :: "(seat \<Rightarrow> bool) \<Rightarrow> tables \<Rightarrow> rat" where
  "seats_total P t = sum_list (map price (filter P (seats t)))"

lemma total_price_rows: "rows_like xs (filter P (seats t)) \<Longrightarrow> total_price xs = seats_total P t"
  unfolding total_price_def seats_total_def rows_like_def by (metis mset_map sum_mset_sum_list)

lemma total_price_reloaded:
  assumes "distinct (map seat_id (seats t))" and "set xs \<subseteq> set (seats t)"
    and "map seat_id ys = map seat_id xs" and "set ys \<subseteq> set (seats (set_seats P f t))"
    and "\<And>x. seat_id (f x) = seat_id x" and "\<And>x. price (f x) = price x"
  shows "total_price ys = total_price xs"
proof -
  have "price (ys ! i) = price (xs ! i)" if "i < length xs" for i
  proof -
    have len: "length ys = length xs" using assms(3) by (metis length_map)
    with that have "ys ! i \<in> set (seats (set_seats P f t))"
      using assms(4) nth_mem [of i ys] by (metis subsetD)
    then obtain y where y: "y \<in> set (seats t)" "seat_id (ys ! i) = seat_id y"
      "price (ys ! i) = price y"
      using assms(5,6) by (auto split: if_splits)
    moreover have "seat_id (ys ! i) = seat_id (xs ! i)"
      using assms(3) len that by (metis nth_map)
    moreover have "xs ! i \<in> set (seats t)" using assms(2) that nth_mem by blast
    ultimately have "y = xs ! i" using same_key [OF assms(1)] by metis
    with y show ?thesis by simp
  qed
  moreover have "length ys = length xs" using assms(3) by (metis length_map)
  ultimately have "map price ys = map price xs" by (simp add: list_eq_iff_nth_eq)
  then show ?thesis by (simp add: total_price_def)
qed

section \<open>What stays the same\<close>

lemma remember_sel [simp]:
  "com (remember rs s) = com s" "ses (remember rs s) = ses s" "redis (remember rs s) = redis s"
  "clk (remember rs s) = clk s" "issued (remember rs s) = issued s" "dups (remember rs s) = dups s"
  "tz_columns (remember rs s) = tz_columns s"
  by (simp_all add: remember_def)

lemma discard_sel [simp]:
  "com (discard s) = com s" "ses (discard s) = com s" "imap (discard s) = Map.empty" "redis (discard s) = redis s"
  "clk (discard s) = clk s" "issued (discard s) = issued s" "dups (discard s) = dups s"
  "tz_columns (discard s) = tz_columns s" "fresh_session (discard s)"
  by (simp_all add: discard_def fresh_session_def)

lemma commit_changes_sel [simp]:
  "com (commit_changes s) = ses s" "ses (commit_changes s) = ses s" "imap (commit_changes s) = Map.empty"
  "redis (commit_changes s) = redis s" "clk (commit_changes s) = clk s"
  "issued (commit_changes s) = issued s" "dups (commit_changes s) = dups s"
  "tz_columns (commit_changes s) = tz_columns s" "fresh_session (commit_changes s)"
  by (simp_all add: commit_changes_def fresh_session_def)

text \<open>A reservation object as its row reads back.\<close>

definition stored :: "vstate \<Rightarrow> reservation \<Rightarrow> reservation" where
  "stored s r =
     r\<lparr>res_created_at := column_dt s (res_created_at r), expires_at := column_dt s (expires_at r)\<rparr>"

lemma stored_id [simp]: "reservation_id (stored s r) = reservation_id r"
  by (simp add: stored_def)

section \<open>hold_seats: what it guarantees\<close>

text \<open>
  The hold of the seats \<open>ids\<close> of the event \<open>ev\<close> for the user \<open>u\<close>, committed: the tables before and
  after. The new row's times read back as the time columns say.
\<close>

definition hold_committed ::
  "uuid list \<Rightarrow> uuid \<Rightarrow> uuid \<Rightarrow> vstate \<Rightarrow> reservation \<Rightarrow> vstate \<Rightarrow> bool" where
  "hold_committed ids u ev s row s' \<longleftrightarrow>
     (\<exists>now. clk s \<le> now \<and> now \<le> clk s' \<and> com s' = hold_tables ids (Naive (now + minutes 5)) row (com s) \<and>
        expires_at row = column_dt s (Naive (now + minutes 5))) \<and>
     (\<forall>r \<in> set (reservations (com s)). res_user r = u \<and> res_event r = ev \<and> res_status r = Held \<longrightarrow>
        instant (expires_at r) \<le> clk s') \<and>
     reservation_id row \<notin> reservation_id ` set (reservations (com s)) \<and>
     res_user row = u \<and> res_event row = ev \<and> res_status row = Held \<and>
     set (res_seat_ids row) = uuid_str ` set ids \<and> length (res_seat_ids row) = length ids \<and> distinct ids \<and>
     (\<forall>i \<in> set ids. \<exists>x \<in> set (seats (com s)). seat_id x = i \<and> seat_event x = ev \<and> seat_status x = Available)"

text \<open>Why a hold is refused before anything is written.\<close>

definition hold_reason :: "uuid list \<Rightarrow> uuid \<Rightarrow> uuid \<Rightarrow> vstate \<Rightarrow> exn \<Rightarrow> vstate \<Rightarrow> bool" where
  "hold_reason ids u ev s x s' \<longleftrightarrow>
     (case x of
        DuplicateReservationError _ \<Rightarrow> dups s' = Suc (dups s) \<and>
          (\<exists>r \<in> set (reservations (com s)). res_user r = u \<and> res_event r = ev \<and> res_status r = Held \<and>
            clk s' < instant (expires_at r))
      | SeatNotAvailableError _ \<Rightarrow> dups s' = dups s \<and>
          (\<not> distinct ids \<or> (\<exists>i \<in> set ids. \<forall>x \<in> set (seats (com s)).
             seat_id x = i \<and> seat_event x = ev \<longrightarrow> seat_status x \<noteq> Available))
      | ExternalError _ \<Rightarrow> dups s' = dups s
      | _ \<Rightarrow> False)"

definition lock_kept :: "string \<Rightarrow> vstate \<Rightarrow> vstate \<Rightarrow> bool" where
  "lock_kept e s s' \<longleftrightarrow>
     rdb_get (LOCK_RESERVATION_KEY e) (redis s') = rdb_get (LOCK_RESERVATION_KEY e) (redis s) \<and>
     tz_columns s' = tz_columns s"

lemma booking_ok_hold_committed:
  assumes "booking_ok (com s)" and "hold_committed ids u ev s row s'"
  shows "booking_ok (com s')"
proof -
  from assms(2) obtain until where c: "com s' = hold_tables ids until row (com s)"
    and h: "reservation_id row \<notin> reservation_id ` set (reservations (com s))" "res_event row = ev"
      "res_status row = Held" "set (res_seat_ids row) = uuid_str ` set ids" "distinct ids"
      "\<And>i. i \<in> set ids \<Longrightarrow> \<exists>x \<in> set (seats (com s)). seat_id x = i \<and> seat_event x = ev \<and> seat_status x = Available"
    by (auto simp: hold_committed_def)
  have same: "x = y" if "x \<in> set (seats (com s))" "y \<in> set (seats (com s))" "seat_id x = seat_id y" for x y
    using same_key [OF booking_okD(1) [OF assms(1)]] that by blast
  show ?thesis
    unfolding c
  proof (rule booking_ok_hold [OF assms(1) h(1,3)])
    show "set (res_seat_ids row) = {uuid_str (seat_id x) | x. x \<in> set (seats (com s)) \<and>
        seat_id x \<in> set ids \<and> seat_event x = res_event row}"
      using h(2,4,6) by (fastforce simp: image_iff)
  next
    fix x
    assume "x \<in> set (seats (com s))" "seat_id x \<in> set ids" "seat_event x = res_event row"
    with h(6) [of "seat_id x"] same show "seat_status x = Available" by metis
  qed
qed

text \<open>The rows a request for seats finds.\<close>

abbreviation asked_rows :: "uuid list \<Rightarrow> uuid \<Rightarrow> tables \<Rightarrow> seat list" where
  "asked_rows ids ev t \<equiv> filter (\<lambda>x. seat_id x \<in> set ids \<and> seat_event x = ev) (seats t)"

context backend
begin

lemma vc_publish_seat_update:
  assumes "\<And>t. clk s \<le> t \<Longrightarrow> Q () (s\<lparr>clk := t, redis := announce e xs st t (redis s)\<rparr>)"
    and "\<And>t. clk s \<le> t \<Longrightarrow> Q () (s\<lparr>clk := t\<rparr>)"
  shows "vc v (publish_seat_update R T e xs st) Q E s"
  unfolding publish_seat_update_def
  by (intro vc_intro) (use assms in \<open>simp_all del: append.simps\<close>)

lemma vc_drop_hold_keys:
  "Q () (s\<lparr>redis := unmark_held e xs (redis s)\<rparr>) \<Longrightarrow> (\<And>m. E (ExternalError m) s) \<Longrightarrow>
    vc v (drop_hold_keys R e xs) Q E s"
  unfolding drop_hold_keys_def by (intro vc_intro) simp_all

lemma vc_save_seats:
  "Q () (s\<lparr>ses := fold (\<lambda>x. put_seat (f x)) xs (ses s)\<rparr>) \<Longrightarrow>
    vc v (for_each (\<lambda>x. save_seat D (f x)) xs) Q E s"
  unfolding for_each_def
proof (induction xs arbitrary: s)
  case Nil
  then show ?case by (auto intro: vc_ret)
next
  case (Cons x xs)
  from Cons.prems show ?case by (auto intro!: vc_bnd vc_save_seat Cons.IH)
qed

lemma vc_reservation_update_status:
  assumes "distinct (map reservation_id (reservations (ses s)))"
    and "\<And>r m. Q r (s\<lparr>ses := put_reservation_status i st (ses s), imap := m\<rparr>)"
    and "\<And>m. E (ExternalError m) s" and "\<And>m. E (ExternalError m) (discard s)"
  shows "vc v (reservation_update_status D i st) Q E s"
proof -
  have "put_reservation_status i st t = t" if "i \<notin> reservation_id ` set (reservations t)" for t
  proof -
    have "map (\<lambda>r. if reservation_id r = i then r\<lparr>res_status := st\<rparr> else r) (reservations t) = reservations t"
      using that by (intro map_idI) auto
    then show ?thesis by (simp add: put_reservation_status_def)
  qed
  then have none: "Q None s" if "i \<notin> reservation_id ` set (reservations (ses s))"
    using assms(2) [of None "imap s"] that by simp
  show ?thesis
    unfolding reservation_update_status_def
    by (intro vc_bnd vc_reservation_get_by_id [OF assms(1)] vc_case_option vc_ret
        vc_assign_reservation_status vc_flush)
      (use assms none in \<open>simp_all add: remember_def discard_def\<close>)
qed

lemma some_seat_missing:
  assumes "distinct (map seat_id ts)"
    and "rows_like xs (filter (\<lambda>x. seat_id x \<in> set ids \<and> seat_event x = ev) ts)" and "length xs \<noteq> length ids"
  shows "\<not> distinct ids \<or> (\<exists>i \<in> set ids. \<forall>x \<in> set ts. seat_id x = i \<and> seat_event x = ev \<longrightarrow> seat_status x \<noteq> Available)"
proof (rule ccontr)
  assume "\<not> ?thesis"
  then have d: "distinct ids" and all: "\<forall>i \<in> set ids. \<exists>x \<in> set ts. seat_id x = i \<and> seat_event x = ev" by blast+
  have "seat_id ` set xs = set ids" using rows_like_set [OF assms(2)] all by force
  moreover have "distinct (map seat_id xs)"
    by (rule rows_like_distinct [OF assms(2)]) (simp add: assms(1) distinct_map_filter)
  ultimately have "length xs = length ids" using d by (metis distinct_card length_map list.set_map)
  with assms(3) show False by simp
qed

lemma some_seat_taken:
  assumes "distinct (map seat_id ts)"
    and "rows_like xs (filter (\<lambda>x. seat_id x \<in> set ids \<and> seat_event x = ev) ts)"
    and "filter (\<lambda>x. seat_status x \<noteq> Available) xs \<noteq> []"
  shows "\<exists>i \<in> set ids. \<forall>x \<in> set ts. seat_id x = i \<and> seat_event x = ev \<longrightarrow> seat_status x \<noteq> Available"
proof -
  from assms(3) obtain x where "x \<in> set xs" "seat_status x \<noteq> Available" by (auto simp: filter_empty_conv)
  with rows_like_set [OF assms(2)] have "x \<in> set ts" "seat_id x \<in> set ids" "seat_status x \<noteq> Available" by auto
  with same_key [OF assms(1)] show ?thesis by metis
qed

text \<open>
  The writing part of \<open>hold_seats\<close>, from the rows the query locked: either everything is committed,
  or nothing is.
\<close>

lemma hold_ses:
  assumes ok: "booking_ok t" and xs: "rows_like xs (filter (\<lambda>x. seat_id x \<in> set ids \<and> seat_event x = ev) (seats t))"
    and r: "res_user r = u" "res_event r = ev"
  shows "(fold (\<lambda>x. put_seat (hold_seat u d x)) xs t)\<lparr>reservations := reservations t @ [r]\<rparr> = hold_tables ids d r t"
proof -
  have "set xs = {x \<in> set (seats t). seat_id x \<in> set ids \<and> seat_event x = ev}"
    using rows_like_set [OF xs] by auto
  then have "fold (\<lambda>x. put_seat (hold_seat u d x)) xs t =
      set_seats (\<lambda>x. seat_id x \<in> set ids \<and> seat_event x = ev) (hold_seat u d) t"
    by (subst fold_put_seat [OF booking_okD(1) [OF ok]]) (auto intro!: set_seats_cong)
  with r show ?thesis by (simp add: hold_tables_def)
qed

lemma fold_put_seat_reservations [simp]:
  "reservations (fold (\<lambda>x. put_seat (f x)) xs t) = reservations t"
  by (induction xs arbitrary: t) auto

text \<open>The seats and the row that are written, and the sum of the seats read again.\<close>

lemma hold_written:
  assumes ok: "booking_ok (com s)" and xs: "rows_like xs (asked_rows ids ev (com s))" "length xs = length ids"
    "filter (\<lambda>x. seat_status x \<noteq> Available) xs = []"
    and r: "reservation_id r \<notin> reservation_id ` set (reservations (com s))" "res_user r = u" "res_event r = ev"
      "res_seat_ids r = map (\<lambda>x. uuid_str (seat_id x)) xs" "res_status r = Held" "expires_at r = Naive (t + minutes 5)"
    and qs: "rows_like qs (filter (\<lambda>r. res_user r = u \<and> res_event r = ev \<and> res_status r = Held \<and>
          t0 < instant (expires_at r)) (reservations (com s)))" "first_row (map g qs) = None"
    and clk: "clk s \<le> t" "t \<le> clk s'" "t0 \<le> clk s'"
    and com: "com s' = (fold (\<lambda>x. put_seat (hold_seat u (Naive (t + minutes 5)) x)) xs (com s))
         \<lparr>reservations := reservations (com s) @ [stored s r]\<rparr>"
  shows "hold_committed ids u ev s (stored s r) s'"
proof -
  have "qs = []" using qs(2) by (cases qs) auto
  with rows_like_set [OF qs(1)] clk(3)
  have none: "\<forall>q \<in> set (reservations (com s)). res_user q = u \<and> res_event q = ev \<and> res_status q = Held \<longrightarrow>
      instant (expires_at q) \<le> clk s'" by (fastforce simp: not_less)
  note found = all_seats_found [OF booking_okD(1) [OF ok] xs(1,2)]
  have "\<exists>x \<in> set (seats (com s)). seat_id x = i \<and> seat_event x = ev \<and> seat_status x = Available"
    if "i \<in> set ids" for i
    using that found(2) rows_like_set [OF xs(1)] xs(3) by (force simp: filter_empty_conv)
  moreover have "com s' = hold_tables ids (Naive (t + minutes 5)) (stored s r) (com s)"
    unfolding com using r(2,3) by (subst hold_ses [OF ok xs(1)]) (simp_all add: stored_def)
  moreover have "uuid_str ` set ids = (\<lambda>x. uuid_str (seat_id x)) ` set xs"
    by (simp add: found(2) [symmetric] image_image)
  ultimately show ?thesis
    using xs(2) r clk found(1) none unfolding hold_committed_def stored_def by auto
qed

lemma hold_total:
  assumes ok: "booking_ok (com s)" and xs: "rows_like xs (asked_rows ids ev (com s))" "length xs = length ids"
    and ys: "map seat_id ys = map seat_id xs" "set ys \<subseteq> set (seats (fold (\<lambda>x. put_seat (hold_seat u d x)) xs (com s)))"
  shows "total_price ys = seats_total (\<lambda>x. seat_id x \<in> set ids) (com s)"
proof -
  have sub: "set xs \<subseteq> set (seats (com s))" using rows_like_set [OF xs(1)] by auto
  have "seat_event x = ev" if "x \<in> set (seats (com s))" "seat_id x \<in> set ids" for x
  proof -
    from that(2) all_seats_found(2) [OF booking_okD(1) [OF ok] xs]
    obtain y where "y \<in> set xs" "seat_id x = seat_id y" by blast
    moreover from this rows_like_set [OF xs(1)] have "y \<in> set (seats (com s))" "seat_event y = ev" by auto
    ultimately show ?thesis using same_key [OF booking_okD(1) [OF ok] that(1)] by blast
  qed
  then have "asked_rows ids ev (com s) = filter (\<lambda>x. seat_id x \<in> set ids) (seats (com s))"
    by (intro filter_cong) auto
  then have "total_price xs = seats_total (\<lambda>x. seat_id x \<in> set ids) (com s)"
    using total_price_rows [OF xs(1)] by (simp add: seats_total_def)
  moreover have "set ys \<subseteq> set (seats (set_seats (\<lambda>y. y \<in> set xs) (hold_seat u d) (com s)))"
    using ys(2) by (subst (asm) fold_put_seat [OF booking_okD(1) [OF ok] sub]) simp_all
  then have "total_price ys = total_price xs"
    by (rule total_price_reloaded [OF booking_okD(1) [OF ok] sub ys(1)]) simp_all
  ultimately show ?thesis by simp
qed

lemma vc_hold_under_lock:
  assumes fresh: "fresh_session s" and ok: "booking_ok (com s)"
    and ok_result: "\<And>row r ys s'. hold_committed ids u ev s row s' \<Longrightarrow> reservation_id r = reservation_id row \<Longrightarrow>
      total_price ys = seats_total (\<lambda>x. seat_id x \<in> set ids) (com s) \<Longrightarrow> fresh_session s' \<Longrightarrow>
      lock_kept e s s' \<Longrightarrow> dups s' = dups s \<Longrightarrow>
      \<forall>i \<in> set ids. rdb_get (SEAT_HOLD_KEY e (uuid_str i)) (redis s') = Some (Text uid) \<Longrightarrow> Q (r, ys) s'"
    and refused: "\<And>x s'. hold_reason ids u ev s x s' \<Longrightarrow> com s' = com s \<Longrightarrow> lock_kept e s s' \<Longrightarrow> E x s'"
    and late: "\<And>m row s'. hold_committed ids u ev s row s' \<Longrightarrow> lock_kept e s s' \<Longrightarrow> dups s' = dups s \<Longrightarrow>
      E (ExternalError m) s'"
  shows "vc v (hold_under_lock D R T uid e u ev ids) Q E s"
proof -
  have ses: "ses s = com s" and imap: "imap s = Map.empty" using fresh by (simp_all add: fresh_session_def)
  have dup: "E (DuplicateReservationError m) s'"
    if "rows_like xs (filter (\<lambda>r. res_user r = u \<and> res_event r = ev \<and> res_status r = Held \<and>
          t < instant (expires_at r)) (reservations (com s)))" "first_row (map g xs) \<noteq> None"
      "clk s' = t" "com s' = com s" "lock_kept e s s'" "dups s' = Suc (dups s)" for m t xs s' and g :: "reservation \<Rightarrow> reservation"
  proof (rule refused)
    from that(2) obtain r where "r \<in> set xs" by (cases xs) auto
    with rows_like_set [OF that(1)] that(3,6) show "hold_reason ids u ev s (DuplicateReservationError m) s'"
      by (auto simp: hold_reason_def)
  qed (use that in simp_all)
  have missing: "E (SeatNotAvailableError m) s'"
    if "rows_like xs (filter (\<lambda>x. seat_id x \<in> set ids \<and> seat_event x = ev) (seats (com s)))"
      "length xs \<noteq> length ids" "com s' = com s" "lock_kept e s s'" "dups s' = dups s" for m s' xs
    using some_seat_missing [OF booking_okD(1) [OF ok] that(1,2)] that
    by (intro refused) (auto simp: hold_reason_def)
  have taken: "E (SeatNotAvailableError m) s'"
    if "rows_like xs (filter (\<lambda>x. seat_id x \<in> set ids \<and> seat_event x = ev) (seats (com s)))"
      "filter (\<lambda>x. seat_status x \<noteq> Available) xs \<noteq> []" "com s' = com s" "lock_kept e s s'" "dups s' = dups s" for m s' xs
    using some_seat_taken [OF booking_okD(1) [OF ok] that(1,2)] that
    by (intro refused) (auto simp: hold_reason_def)
  have ext: "E (ExternalError m) s'" if "com s' = com s" "lock_kept e s s'" "dups s' = dups s" for m s'
    using refused [of "ExternalError m" s'] that by (simp add: hold_reason_def)
  have all_found: "\<forall>i \<in> set ids. \<exists>x \<in> set xs. i = seat_id x"
    if "rows_like xs (asked_rows ids ev (com s))" "length xs = length ids" for xs
    using all_seats_found(2) [OF booking_okD(1) [OF ok] that] by blast
  show ?thesis
    unfolding hold_under_lock_def get_held_by_user_and_event_def reservation_create_def Let_def
      RESERVATION_HOLD_MINUTES_def
  proof (intro vc_bnd vc_utcnow vc_q_reservations vc_ret vc_if vc_inc_duplicates vc_raising
        vc_q_seats_for_update vc_save_seats vc_insert_reservation vc_pipeline vc_commit vc_reload_seats
        vc_publish_seat_update, goal_cases)
    case (1 t xs)
    then show ?case by (intro dup) (simp_all add: ses lock_kept_def)
  next
    case (2 t xs xsa)
    then show ?case by (intro missing) (simp_all add: ses lock_kept_def)
  next
    case (3 t xs xsa)
    then show ?case by (intro taken) (simp_all add: ses lock_kept_def)
  next
    case (4 t xs xsa ta r ys tb)
    then have rows: "rows_like xsa (asked_rows ids ev (com s))" and len: "length xsa = length ids"
      by (simp_all add: ses)
    from 4 show ?case
      by (intro ok_result [where row = "stored s r"] hold_written [OF ok rows len, where ?t0.0 = t] hold_total [OF ok rows len])
        (use all_found [OF rows len] in \<open>simp_all add: ses lock_kept_def fresh_session_def column_dt_def stored_def\<close>)
  next
    case (5 t xs xsa ta r ys tb)
    then have rows: "rows_like xsa (asked_rows ids ev (com s))" and len: "length xsa = length ids"
      by (simp_all add: ses)
    from 5 show ?case
      by (intro ok_result [where row = "stored s r"] hold_written [OF ok rows len, where ?t0.0 = t] hold_total [OF ok rows len])
        (use all_found [OF rows len] in \<open>simp_all add: ses lock_kept_def fresh_session_def column_dt_def stored_def\<close>)
  next
    case (6 t xs xsa ta r m)
    then show ?case
      by (intro late [where row = "stored s r"] hold_written [OF ok, where xs = xsa and ?t0.0 = t])
        (simp_all add: ses lock_kept_def column_dt_def stored_def)
  qed (rule ext; simp add: ses lock_kept_def)+
qed

end

text \<open>How \<open>hold_seats\<close> ends when it raises: what was raised, and that nothing else was written.\<close>

definition hold_failed :: "string \<Rightarrow> string \<Rightarrow> uuid list \<Rightarrow> vstate \<Rightarrow> exn \<Rightarrow> vstate \<Rightarrow> bool" where
  "hold_failed user_id event_id ids s x s' \<longleftrightarrow>
     (case x of
        ValueError _ \<Rightarrow> s' = s \<and> (uuid_parse user_id = Inl x \<or> uuid_parse event_id = Inl x)
      | LockAcquireError _ \<Rightarrow>
          com s' = com s \<and> rdb_get (LOCK_RESERVATION_KEY event_id) (redis s) \<noteq> None
      | ExternalError _ \<Rightarrow> com s' = com s \<or>
          (\<exists>u ev row. uuid_parse user_id = Inr u \<and> uuid_parse event_id = Inr ev \<and>
             hold_committed ids u ev s row s')
      | _ \<Rightarrow> com s' = com s \<and> rdb_get (LOCK_RESERVATION_KEY event_id) (redis s') = None \<and>
          (\<exists>u ev. uuid_parse user_id = Inr u \<and> uuid_parse event_id = Inr ev \<and> hold_reason ids u ev s x s'))"

text \<open>How \<open>hold_seats\<close> ends when it returns, and the state at the end of the locked block.\<close>

definition hold_done ::
  "string \<Rightarrow> string \<Rightarrow> uuid list \<Rightarrow> vstate \<Rightarrow> reservation \<Rightarrow> seat list \<Rightarrow> vstate \<Rightarrow> bool" where
  "hold_done user_id event_id ids s r xs s' \<longleftrightarrow>
     (\<exists>u ev row. uuid_parse user_id = Inr u \<and> uuid_parse event_id = Inr ev \<and>
        hold_committed ids u ev s row s' \<and> reservation_id r = reservation_id row) \<and>
     fresh_session s' \<and> total_price xs = seats_total (\<lambda>x. seat_id x \<in> set ids) (com s) \<and>
     rdb_get (LOCK_RESERVATION_KEY event_id) (redis s') = None \<and>
     (\<forall>i \<in> set ids. rdb_get (SEAT_HOLD_KEY event_id (uuid_str i)) (redis s') = Some (Text user_id))"

definition hold_result ::
  "string \<Rightarrow> string \<Rightarrow> uuid list \<Rightarrow> vstate \<Rightarrow> reservation_response \<Rightarrow> vstate \<Rightarrow> bool" where
  "hold_result user_id event_id ids s resp s' \<longleftrightarrow>
     (\<exists>u ev row. uuid_parse user_id = Inr u \<and> uuid_parse event_id = Inr ev \<and>
        hold_committed ids u ev s row s' \<and>
        resp = to_reservation_response row (seats_total (\<lambda>x. seat_id x \<in> set ids) (com s))) \<and>
     rdb_get (LOCK_RESERVATION_KEY event_id) (redis s') = None \<and>
     (\<forall>i \<in> set ids. rdb_get (SEAT_HOLD_KEY event_id (uuid_str i)) (redis s') = Some (Text user_id))"

lemma hold_committed_view:
  "com s1 = com s \<Longrightarrow> tz_columns s1 = tz_columns s \<Longrightarrow> com s1' = com s' \<Longrightarrow> clk s1 = clk s \<Longrightarrow>
    clk s1' = clk s' \<Longrightarrow> hold_committed ids u ev s1 row s1' = hold_committed ids u ev s row s'"
  by (simp add: hold_committed_def column_dt_def)

lemma hold_reason_view:
  "com s1 = com s \<Longrightarrow> dups s1 = dups s \<Longrightarrow> clk s1' = clk s' \<Longrightarrow> dups s1' = dups s' \<Longrightarrow>
    hold_reason ids u ev s1 x s1' = hold_reason ids u ev s x s'"
  by (cases x) (simp_all add: hold_reason_def)

lemma release_script_frees:
  "rdb_get k d = Some (Text val) \<Longrightarrow> rdb_get k' (snd (release_script k val d)) = (if k' = k then None else rdb_get k' d)"
  by simp

context backend
begin

text \<open>The row of a new reservation, read again after the commit.\<close>

lemma vc_reload_own:
  assumes "imap s = Map.empty" and "distinct (map reservation_id (reservations (ses s)))"
    and "row \<in> set (reservations (ses s))" and "reservation_id row = reservation_id r"
    and "Q row (remember [row] s)" and "\<And>m. E (ExternalError m) s"
  shows "vc v (reload_reservation D r) Q E s"
proof (rule vc_reload_reservation)
  fix r'
  assume "r' \<in> set (reservations (ses s))" "reservation_id r' = reservation_id r"
  then have "r' = row" using same_key [OF assms(2)] assms(3,4) by metis
  with assms(1,5) show "Q (as_loaded s r') (remember [as_loaded s r'] s)" by (simp add: as_loaded_def)
qed (rule assms(6))

lemma vc_hold_locked:
  assumes fresh: "fresh_session s" and ok: "booking_ok (com s)"
    and ids: "uuid_parse user_id = Inr u" "uuid_parse event_id = Inr ev"
  shows "vc v (reservation_lock R T event_id (hold_under_lock D R T user_id event_id u ev ids))
    (\<lambda>(r, xs). hold_done user_id event_id ids s r xs) (hold_failed user_id event_id ids s) s"
proof (rule vc_reservation_lock)
  fix k
  assume free: "rdb_get (LOCK_RESERVATION_KEY event_id) (redis s) = None"
  let ?l = "LOCK_RESERVATION_KEY event_id"
  let ?s = "s\<lparr>issued := k # issued s, redis := rdb_set ?l (Text (uuid_str k)) (Some LOCK_TTL_MS) (redis s)\<rparr>"
  let ?after = "\<lambda>s'. s'\<lparr>redis := snd (release_script ?l (uuid_str k) (redis s'))\<rparr>"
  note view = hold_committed_view [of ?s s] hold_reason_view [of ?s s]
  have late: "hold_failed user_id event_id ids s (ExternalError m) s'"
    if "com s' = com s \<or> (\<exists>row. hold_committed ids u ev ?s row s')" for m s'
    using that ids view(1) [of s' s'] by (auto simp: hold_failed_def)
  have freed: "rdb_get ?l (redis (?after s')) = None"
    and same: "key \<noteq> ?l \<Longrightarrow> rdb_get key (redis (?after s')) = rdb_get key (redis s')"
    if "lock_kept event_id ?s s'" for s' key
    using that by (simp_all add: lock_kept_def)
  show "vc v (hold_under_lock D R T user_id event_id u ev ids)
    (\<lambda>a s'. (case a of (r, xs) \<Rightarrow> hold_done user_id event_id ids s r xs) (?after s') \<and>
      (\<forall>m. hold_failed user_id event_id ids s (ExternalError m) s'))
    (\<lambda>x s'. hold_failed user_id event_id ids s x (?after s') \<and>
      (\<forall>m. hold_failed user_id event_id ids s (ExternalError m) s')) ?s"
  proof (rule vc_hold_under_lock)
    show "fresh_session ?s" "booking_ok (com ?s)" using fresh ok by (simp_all add: fresh_session_def)
  next
    fix row r :: reservation and ys s'
    assume c: "hold_committed ids u ev ?s row s'" and r: "reservation_id r = reservation_id row"
      and t: "total_price ys = seats_total (\<lambda>x. seat_id x \<in> set ids) (com ?s)"
      and f: "fresh_session s'" and l: "lock_kept event_id ?s s'"
      and h: "\<forall>i \<in> set ids. rdb_get (SEAT_HOLD_KEY event_id (uuid_str i)) (redis s') = Some (Text user_id)"
    have "hold_committed ids u ev s row (?after s')" using c view(1) [of "?after s'" s'] 
      by (simp add: hold_committed_def column_dt_def)
    moreover have "fresh_session (?after s')" using f by (simp add: fresh_session_def)
    ultimately have "hold_done user_id event_id ids s r ys (?after s')"
      unfolding hold_done_def using ids r t h freed [OF l] same [OF l] by force
    with late c show "(case (r, ys) of (r, xs) \<Rightarrow> hold_done user_id event_id ids s r xs) (?after s') \<and>
      (\<forall>m. hold_failed user_id event_id ids s (ExternalError m) s')" by blast
  next
    fix x s'
    assume why: "hold_reason ids u ev ?s x s'" and c: "com s' = com ?s" and l: "lock_kept event_id ?s s'"
    have "hold_reason ids u ev s x (?after s')" using why by (cases x) (simp_all add: hold_reason_def)
    moreover have "com (?after s') = com s" using c by simp
    ultimately have "hold_failed user_id event_id ids s x (?after s')"
      using freed [OF l] ids by (cases x) (auto simp: hold_failed_def hold_reason_def)
    with late c show "hold_failed user_id event_id ids s x (?after s') \<and>
      (\<forall>m. hold_failed user_id event_id ids s (ExternalError m) s')" by simp
  next
    fix m row s'
    assume c: "hold_committed ids u ev ?s row s'"
    then have "hold_committed ids u ev ?s row (?after s')" by (simp add: hold_committed_def)
    with late c show "hold_failed user_id event_id ids s (ExternalError m) (?after s') \<and>
      (\<forall>m. hold_failed user_id event_id ids s (ExternalError m) s')" by blast
  qed
next
  show "hold_failed user_id event_id ids s
     (LockAcquireError (''Cannot acquire reservation lock for event '' @ event_id)) (s\<lparr>issued := k # issued s, clk := t\<rparr>)"
    if "rdb_get (LOCK_RESERVATION_KEY event_id) (redis s) \<noteq> None" for k t
    using that by (simp add: hold_failed_def)
qed (simp add: hold_failed_def)

lemma vc_hold_seats:
  assumes fresh: "fresh_session s" and ok: "booking_ok (com s)"
  shows "vc v (hold_seats D R T user_id event_id ids) (hold_result user_id event_id ids s)
    (hold_failed user_id event_id ids s) s"
  unfolding hold_seats_def
proof (intro vc_bnd vc_lift_res)
  show "hold_failed user_id event_id ids s x s" if "uuid_parse user_id = Inl x" for x
    using that uuid_parse_error [OF that] by (auto simp: hold_failed_def)
  show "hold_failed user_id event_id ids s x s" if "uuid_parse event_id = Inl x" for x
    using that uuid_parse_error [OF that] by (auto simp: hold_failed_def)
next
  fix u ev
  assume ids: "uuid_parse user_id = Inr u" "uuid_parse event_id = Inr ev"
  show "vc v (reservation_lock R T event_id (hold_under_lock D R T user_id event_id u ev ids))
     (\<lambda>a. vc v (case a of (reservation, xs) \<Rightarrow> bnd (reload_reservation D reservation)
         (\<lambda>r. ret (to_reservation_response r (total_price xs)))) (hold_result user_id event_id ids s)
       (hold_failed user_id event_id ids s)) (hold_failed user_id event_id ids s) s"
  proof (rule vc_conseq [OF vc_hold_locked [OF fresh ok ids]])
    fix a s'
    assume "(case a of (r, xs) \<Rightarrow> hold_done user_id event_id ids s r xs) s'"
    then obtain r xs row where a: "a = (r, xs)" and h: "hold_committed ids u ev s row s'"
      and r: "reservation_id r = reservation_id row" and f: "fresh_session s'"
      and t: "total_price xs = seats_total (\<lambda>x. seat_id x \<in> set ids) (com s)"
      and l: "rdb_get (LOCK_RESERVATION_KEY event_id) (redis s') = None"
      and k: "\<forall>i \<in> set ids. rdb_get (SEAT_HOLD_KEY event_id (uuid_str i)) (redis s') = Some (Text user_id)"
      using ids by (cases a) (auto simp: hold_done_def)
    have "row \<in> set (reservations (com s'))" using h by (auto simp: hold_committed_def hold_tables_def)
    moreover have "distinct (map reservation_id (reservations (com s')))"
      using booking_ok_hold_committed [OF ok h] by (rule booking_okD)
    moreover have "hold_committed ids u ev s row (remember [row] s')"
      using h by (simp add: hold_committed_def)
    then have "hold_result user_id event_id ids s (to_reservation_response row (total_price xs)) (remember [row] s')"
      using ids l k unfolding hold_result_def t remember_sel by blast
    moreover have "hold_failed user_id event_id ids s (ExternalError m) s'" for m
      using h ids by (auto simp: hold_failed_def)
    ultimately show "vc v (case a of (reservation, xs) \<Rightarrow> bnd (reload_reservation D reservation)
         (\<lambda>r. ret (to_reservation_response r (total_price xs)))) (hold_result user_id event_id ids s)
       (hold_failed user_id event_id ids s) s'"
      using f r unfolding a prod.case fresh_session_def
      by (intro vc_bnd vc_reload_own [where row = row] vc_ret) simp_all
  qed
qed

end

section \<open>Sample tables\<close>

text \<open>An event with two free seats, for the examples.\<close>

definition sample_seat :: "uuid \<Rightarrow> seat" where
  "sample_seat i =
     \<lparr>seat_id = i, seat_event = 9, section_code = ''A'', seat_row = ''01'', seat_number = uint i,
      seat_status = Available, price = 50000, held_by = None, held_until = None\<rparr>"

definition sample_tables :: tables where
  "sample_tables =
     \<lparr>users = [], events = [], seats = [sample_seat 1, sample_seat 2], reservations = [], payments = []\<rparr>"

lemma sample_tables_ok: "booking_ok sample_tables"
  by (simp add: booking_ok_def sample_tables_def sample_seat_def seat_ok_def holders_def)

section \<open>Properties\<close>

text \<open>C5: holding seats is all or nothing. When \<open>hold_seats\<close> returns, the requested seats are all
  distinct seats of that event which were available, the tables differ from before exactly by
  those seats being on hold for that user and by one new held reservation naming them, expiring
  five minutes after the reading of the clock, the answer carries that reservation and the sum of
  the seat prices, the hold keys are set, and the lock is free again. When it raises, the tables
  are unchanged, unless a call failed after the commit; and each exception has its reason.\<close>

theorem hold_seats_all_or_nothing:
  assumes "backend R D T v" and "fresh_session (v w)" and "booking_ok (com (v w))"
  shows "wp (hold_seats D R T user_id event_id ids)
    (\<lambda>resp w'. hold_result user_id event_id ids (v w) resp (v w'))
    (\<lambda>x w'. hold_failed user_id event_id ids (v w) x (v w')) w"
  by (rule vcD [OF backend.vc_hold_seats [OF assms]])

theorem hold_seats_all_or_nothing_witness:
  "fresh_session (mview (start_mem sample_tables)) \<and>
   wp (hold_seats mem_db mem_redis mem_runtime (uuid_str 7) (uuid_str 9) [1, 2])
     (\<lambda>resp w'. rr_user_id resp = 7 \<and> rr_total_price resp = 100000)
     (\<lambda>x w'. hold_failed (uuid_str 7) (uuid_str 9) [1, 2] (start_view sample_tables) x (mview w'))
     (start_mem sample_tables)"
proof -
  have ok: "booking_ok (com (mview (start_mem sample_tables)))" by (simp add: sample_tables_ok)
  have "wp (hold_seats mem_db mem_redis mem_runtime (uuid_str 7) (uuid_str 9) [1, 2])
     (\<lambda>resp w'. rr_user_id resp = 7 \<and> rr_total_price resp = 100000)
     (\<lambda>x w'. hold_failed (uuid_str 7) (uuid_str 9) [1, 2] (start_view sample_tables) x (mview w'))
     (start_mem sample_tables)"
    by (rule wp_mono [OF hold_seats_all_or_nothing [OF mem_backend _ ok]])
      (auto simp: hold_result_def hold_committed_def to_reservation_response_def seats_total_def
        sample_tables_def sample_seat_def)
  then show ?thesis by simp
qed

text \<open>C6: no double booking: as long as every seat belongs to at most one reservation that is not
  cancelled and its status says so, this still holds after \<open>hold_seats\<close>, whether it returns or raises.\<close>

theorem hold_seats_keeps_invariant:
  assumes "backend R D T v" and "fresh_session (v w)" and "booking_ok (com (v w))"
  shows "wp (hold_seats D R T user_id event_id ids)
    (\<lambda>resp w'. booking_ok (com (v w'))) (\<lambda>x w'. booking_ok (com (v w'))) w"
proof (rule wp_mono [OF vcD [OF backend.vc_hold_seats [OF assms, of user_id event_id ids]]])
  show "booking_ok (com (v w'))" if "hold_result user_id event_id ids (v w) resp (v w')" for resp w'
    using that booking_ok_hold_committed [OF assms(3)] by (auto simp: hold_result_def)
  show "booking_ok (com (v w'))" if "hold_failed user_id event_id ids (v w) x (v w')" for x w'
    using that booking_ok_hold_committed [OF assms(3)] assms(3)
    by (cases x) (auto simp: hold_failed_def hold_reason_def)
qed

theorem hold_seats_keeps_invariant_witness:
  "booking_ok sample_tables \<and>
   wp (hold_seats mem_db mem_redis mem_runtime (uuid_str 7) (uuid_str 9) [1, 2])
     (\<lambda>resp w'. booking_ok (com (mview w'))) (\<lambda>x w'. booking_ok (com (mview w'))) (start_mem sample_tables)"
  using hold_seats_keeps_invariant [OF mem_backend, of "start_mem sample_tables"] sample_tables_ok by simp

text \<open>A request that names a seat which is not available in that event, an unknown seat, or a
  seat twice never succeeds, and changes no table.\<close>

theorem hold_seats_refuses_taken:
  assumes "backend R D T v" and "fresh_session (v w)" and "booking_ok (com (v w))"
    and "uuid_parse event_id = Inr ev"
    and "\<not> distinct ids \<or> (\<exists>i \<in> set ids. \<forall>x \<in> set (seats (com (v w))).
      seat_id x = i \<and> seat_event x = ev \<longrightarrow> seat_status x \<noteq> Available)"
  shows "wp (hold_seats D R T user_id event_id ids) (\<lambda>resp w'. False) (\<lambda>x w'. com (v w') = com (v w)) w"
proof (rule wp_mono [OF vcD [OF backend.vc_hold_seats [OF assms(1-3), of user_id event_id ids]]])
  have no: "\<not> hold_committed ids u ev (v w) row s'" for u row s'
    using assms(5) by (fastforce simp: hold_committed_def)
  show False if "hold_result user_id event_id ids (v w) resp (v w')" for resp w'
    using that no assms(4) by (auto simp: hold_result_def)
  show "com (v w') = com (v w)" if "hold_failed user_id event_id ids (v w) x (v w')" for x w'
    using that no assms(4) by (cases x) (auto simp: hold_failed_def)
qed

theorem hold_seats_refuses_taken_witness:
  "wp (hold_seats mem_db mem_redis mem_runtime (uuid_str 7) (uuid_str 9) [1, 3]) (\<lambda>resp w'. False)
     (\<lambda>x w'. com (mview w') = sample_tables) (start_mem sample_tables)"
proof -
  have ok: "booking_ok (com (mview (start_mem sample_tables)))" by (simp add: sample_tables_ok)
  show ?thesis
    by (rule wp_mono [OF hold_seats_refuses_taken [OF mem_backend _ ok uuid_parse_str]])
      (auto simp: sample_tables_def sample_seat_def)
qed

end
