(* ===== verification/Reservation_Closing.thy ===== *)
theory Reservation_Closing
  imports Reservation_Service
begin

text \<open>
  What closing a reservation guarantees: \<open>cancel_reservation\<close>, \<open>complete_reservation\<close>,
  \<open>get_reservation\<close> and the two release loops of \<open>src/services/reservation_service.py\<close>, from
  \<open>Reservation_Service\<close>. The part that closes a reservation under the lock is treated once, for
  any change of the seats, and from any state of the reservation's row, since the code does not
  look at the row again.
\<close>

section \<open>Closing under the lock\<close>

lemma close_ses:
  assumes "distinct (map seat_id (seats t))"
    and "rows_like xs (filter (\<lambda>x. seat_id x \<in> set us) (seats t))"
    and "\<And>x. seat_id x \<in> set us \<longleftrightarrow> names r x" and "\<And>x. seat_id (f x) = seat_id x"
  shows "put_reservation_status (reservation_id r) st (fold (\<lambda>x. put_seat (f x)) xs t) = close_tables st f r t"
proof -
  have "set xs = {x \<in> set (seats t). names r x}"
    using rows_like_set [OF assms(2)] assms(3) by auto
  then have "fold (\<lambda>x. put_seat (f x)) xs t = set_seats (names r) f t"
    by (subst fold_put_seat [OF assms(1)]) (auto simp: assms(4) intro!: set_seats_cong)
  then show ?thesis by (simp add: close_tables_def)
qed

lemma close_tables_sel [simp]:
  "seats (close_tables st f r t) = map (\<lambda>y. if names r y then f y else y) (seats t)"
  "payments (close_tables st f r t) = payments t" "events (close_tables st f r t) = events t"
  "users (close_tables st f r t) = users t"
  by (simp_all add: close_tables_def)

text \<open>The rows of the closed reservation's seats, read again after the commit.\<close>

definition closed_rows :: "tables \<Rightarrow> reservation \<Rightarrow> seat list \<Rightarrow> bool" where
  "closed_rows t r ys \<longleftrightarrow>
     total_price ys = seats_total (names r) t \<and> length ys = length (filter (names r) (seats t)) \<and>
     (\<forall>x \<in> set (seats t). names r x \<longrightarrow> (\<exists>y \<in> set ys. seat_id y = seat_id x))"

context backend
begin

lemma vc_close:
  assumes ses: "ses s = com s" and refs: "refers_ok (com s) r"
    and ids: "distinct (map seat_id (seats (com s)))" "distinct (map reservation_id (reservations (com s)))"
    and f: "\<And>x. seat_id (f x) = seat_id x" "\<And>x. price (f x) = price x"
    and rest: "\<And>ys s'. com s' = close_tables st f r (com s) \<Longrightarrow> fresh_session s' \<Longrightarrow> redis s' = redis s \<Longrightarrow>
      tz_columns s' = tz_columns s \<Longrightarrow> clk s' = clk s \<Longrightarrow> closed_rows (com s) r ys \<Longrightarrow> vc v (K ys) Q E s'"
    and err: "\<And>m s'. com s' = com s \<or> com s' = close_tables st f r (com s) \<Longrightarrow> redis s' = redis s \<Longrightarrow>
      tz_columns s' = tz_columns s \<Longrightarrow> clk s' = clk s \<Longrightarrow> E (ExternalError m) s'"
  shows "vc v (bnd (named_seats_for_update D r) (\<lambda>xs.
      seqn (for_each (\<lambda>x. save_seat D (f x)) xs)
      (seqn (reservation_update_status D (reservation_id r) st)
      (seqn (commit D) (bnd (reload_seats D xs) K))))) Q E s"
proof -
  obtain us where us: "parse_seat_ids (res_seat_ids r) = Inr us" "\<And>x. seat_id x \<in> set us \<longleftrightarrow> names r x"
    using refers_parse [OF refs] by blast
  have rows: "closed_rows (com s) r ys"
    if "rows_like xs (filter (\<lambda>x. seat_id x \<in> set us) (seats (com s)))" "map seat_id ys = map seat_id xs"
      "set ys \<subseteq> set (seats (put_reservation_status (reservation_id r) st (fold (\<lambda>x. put_seat (f x)) xs (com s))))"
    for xs ys
  proof -
    have sub: "set xs \<subseteq> set (seats (com s))" using rows_like_set [OF that(1)] by auto
    have "set ys \<subseteq> set (seats (set_seats (names r) f (com s)))"
      using that(3) close_ses [OF ids(1) that(1) us(2) f(1)] by (simp add: close_tables_def)
    then have "total_price ys = total_price xs"
      by (rule total_price_reloaded [OF ids(1) sub that(2) _ f])
    also have "\<dots> = seats_total (names r) (com s)"
      using total_price_rows [OF that(1)] us(2) by (simp add: seats_total_def)
    finally have "total_price ys = seats_total (names r) (com s)" .
    moreover have "length ys = length (filter (names r) (seats (com s)))"
      using rows_like_length [OF that(1)] that(2) us(2) by (metis (no_types, lifting) filter_cong length_map)
    moreover have "\<exists>y\<in>set ys. seat_id y = seat_id x" if "x \<in> set (seats (com s))" "names r x" for x
    proof -
      have "seat_id x \<in> set (map seat_id xs)"
        using rows_like_set [OF \<open>rows_like xs _\<close>] that us(2) by auto
      then show ?thesis using \<open>map seat_id ys = _\<close> by (metis imageE list.set_map)
    qed
    ultimately show ?thesis by (simp add: closed_rows_def)
  qed
  show ?thesis
    unfolding named_seats_for_update_def us(1) lift_res_simps bnd_ret
  proof (intro vc_bnd vc_q_seats_for_update vc_save_seats vc_reservation_update_status vc_commit
      vc_reload_seats, goal_cases)
    case (2 xs r' m ys)
    then have xs: "rows_like xs (filter (\<lambda>x. seat_id x \<in> set us) (seats (com s)))" by (simp add: ses)
    from 2 rows [OF xs, of ys] close_ses [OF ids(1) xs us(2) f(1)] show ?case
      by (intro rest) (simp_all add: ses)
  next
    case (3 xs r' m m')
    then have xs: "rows_like xs (filter (\<lambda>x. seat_id x \<in> set us) (seats (com s)))" by (simp add: ses)
    from close_ses [OF ids(1) xs us(2) f(1)] show ?case by (intro err) (simp_all add: ses)
  qed (simp_all add: ses ids err)
qed

text \<open>With the hold keys dropped and the change announced, and then under the lock of the event.\<close>

lemma vc_close_announced:
  assumes ses: "ses s = com s" and refs: "refers_ok (com s) r"
    and ids: "distinct (map seat_id (seats (com s)))" "distinct (map reservation_id (reservations (com s)))"
    and f: "\<And>x. seat_id (f x) = seat_id x" "\<And>x. price (f x) = price x"
    and ok: "\<And>ys s'. com s' = close_tables st f r (com s) \<Longrightarrow> fresh_session s' \<Longrightarrow> lock_kept e s s' \<Longrightarrow>
      clk s \<le> clk s' \<Longrightarrow> closed_rows (com s) r ys \<Longrightarrow>
      \<forall>x \<in> set (seats (com s)). names r x \<longrightarrow>
        rdb_get (SEAT_HOLD_KEY e (uuid_str (seat_id x))) (redis s') = None \<Longrightarrow> Q (g ys) s'"
    and err: "\<And>m s'. com s' = com s \<or> com s' = close_tables st f r (com s) \<Longrightarrow> lock_kept e s s' \<Longrightarrow>
      clk s \<le> clk s' \<Longrightarrow> E (ExternalError m) s'"
  shows "vc v (bnd (named_seats_for_update D r) (\<lambda>xs.
      seqn (for_each (\<lambda>x. save_seat D (f x)) xs)
      (seqn (reservation_update_status D (reservation_id r) st)
      (seqn (commit D)
      (bnd (reload_seats D xs) (\<lambda>ys.
      seqn (drop_hold_keys R e ys) (seqn (publish_seat_update R T e ys st') (ret (g ys))))))))) Q E s"
proof (rule vc_close [OF ses refs ids f])
  fix ys s'
  assume s': "com s' = close_tables st f r (com s)" "fresh_session s'" "redis s' = redis s"
    "tz_columns s' = tz_columns s" "clk s' = clk s" and ys: "closed_rows (com s) r ys"
  have gone: "\<exists>y \<in> set ys. seat_id x = seat_id y" if "x \<in> set (seats (com s))" "names r x" for x
    using ys that unfolding closed_rows_def by metis
  show "vc v (seqn (drop_hold_keys R e ys) (seqn (publish_seat_update R T e ys st') (ret (g ys)))) Q E s'"
    by (intro vc_bnd vc_drop_hold_keys vc_publish_seat_update vc_ret ok err)
      (use s' ys gone in \<open>simp_all add: fresh_session_def lock_kept_def\<close>)
qed (use err in \<open>simp_all add: lock_kept_def\<close>)

lemma vc_close_locked:
  assumes ses: "ses s = com s" and refs: "refers_ok (com s) r"
    and ids: "distinct (map seat_id (seats (com s)))" "distinct (map reservation_id (reservations (com s)))"
    and f: "\<And>x. seat_id (f x) = seat_id x" "\<And>x. price (f x) = price x"
    and ok: "\<And>ys s'. com s' = close_tables st f r (com s) \<Longrightarrow> fresh_session s' \<Longrightarrow>
      rdb_get (LOCK_RESERVATION_KEY e) (redis s') = None \<Longrightarrow> tz_columns s' = tz_columns s \<Longrightarrow>
      clk s \<le> clk s' \<Longrightarrow> closed_rows (com s) r ys \<Longrightarrow>
      \<forall>x \<in> set (seats (com s)). names r x \<longrightarrow>
        rdb_get (SEAT_HOLD_KEY e (uuid_str (seat_id x))) (redis s') = None \<Longrightarrow> Q (g ys) s'"
    and err: "\<And>m s'. com s' = com s \<or> com s' = close_tables st f r (com s) \<Longrightarrow> E (ExternalError m) s'"
    and busy: "\<And>m s'. com s' = com s \<Longrightarrow> rdb_get (LOCK_RESERVATION_KEY e) (redis s) \<noteq> None \<Longrightarrow>
      E (LockAcquireError m) s'"
  shows "vc v (reservation_lock R T e (bnd (named_seats_for_update D r) (\<lambda>xs.
      seqn (for_each (\<lambda>x. save_seat D (f x)) xs)
      (seqn (reservation_update_status D (reservation_id r) st)
      (seqn (commit D)
      (bnd (reload_seats D xs) (\<lambda>ys.
      seqn (drop_hold_keys R e ys) (seqn (publish_seat_update R T e ys st') (ret (g ys)))))))))) Q E s"
proof (rule vc_reservation_lock, rule vc_close_announced, goal_cases)
  case (7 u ys s')
  then show ?case by (intro conjI allI ok err) (simp_all add: lock_kept_def fresh_session_def)
qed (use assms in \<open>auto simp: fresh_session_def\<close>)

end

section \<open>cancel_reservation and complete_reservation\<close>

text \<open>How the two end when they raise.\<close>

definition cancel_failed :: "uuid \<Rightarrow> string \<Rightarrow> vstate \<Rightarrow> exn \<Rightarrow> vstate \<Rightarrow> bool" where
  "cancel_failed rid user_id s x s' \<longleftrightarrow>
     (case x of
        ReservationNotFoundError _ \<Rightarrow> com s' = com s \<and>
          \<not> (\<exists>r \<in> set (reservations (com s)). reservation_id r = rid \<and> uuid_str (res_user r) = user_id)
      | SeatNotAvailableError _ \<Rightarrow> com s' = com s \<and>
          (\<exists>r \<in> set (reservations (com s)). reservation_id r = rid \<and> uuid_str (res_user r) = user_id \<and>
             res_status r \<noteq> Held)
      | LockAcquireError _ \<Rightarrow> com s' = com s \<and>
          (\<exists>r \<in> set (reservations (com s)). reservation_id r = rid \<and>
             rdb_get (LOCK_RESERVATION_KEY (uuid_str (res_event r))) (redis s) \<noteq> None)
      | ExternalError _ \<Rightarrow> com s' = com s \<or>
          (\<exists>r \<in> set (reservations (com s)). reservation_id r = rid \<and> uuid_str (res_user r) = user_id \<and>
             res_status r = Held \<and> com s' = cancel_tables r (com s))
      | _ \<Rightarrow> False)"

definition cancel_result ::
  "uuid \<Rightarrow> string \<Rightarrow> vstate \<Rightarrow> reservation_response \<Rightarrow> vstate \<Rightarrow> bool" where
  "cancel_result rid user_id s resp s' \<longleftrightarrow>
     (\<exists>r \<in> set (reservations (com s)). reservation_id r = rid \<and> uuid_str (res_user r) = user_id \<and>
        res_status r = Held \<and> com s' = cancel_tables r (com s) \<and>
        resp = to_reservation_response (r\<lparr>res_status := Cancelled\<rparr>) (seats_total (names r) (com s)) \<and>
        rdb_get (LOCK_RESERVATION_KEY (uuid_str (res_event r))) (redis s') = None \<and>
        (\<forall>x \<in> set (seats (com s)). names r x \<longrightarrow>
           rdb_get (SEAT_HOLD_KEY (uuid_str (res_event r)) (uuid_str (seat_id x))) (redis s') = None))"

definition complete_failed :: "uuid \<Rightarrow> vstate \<Rightarrow> exn \<Rightarrow> vstate \<Rightarrow> bool" where
  "complete_failed rid s x s' \<longleftrightarrow>
     (case x of
        ReservationNotFoundError _ \<Rightarrow> com s' = com s \<and>
          \<not> (\<exists>r \<in> set (reservations (com s)). reservation_id r = rid \<and> res_status r = Held)
      | ReservationExpiredError _ \<Rightarrow> com s' = com s \<and>
          (\<exists>r \<in> set (reservations (com s)). reservation_id r = rid \<and> res_status r = Held \<and>
             instant (expires_at r) < clk s')
      | TypeError _ \<Rightarrow> com s' = com s \<and>
          (\<exists>r \<in> set (reservations (com s)). reservation_id r = rid \<and> res_status r = Held \<and>
             (\<exists>t. expires_at r = Aware t))
      | LockAcquireError _ \<Rightarrow> com s' = com s \<and>
          (\<exists>r \<in> set (reservations (com s)). reservation_id r = rid \<and>
             rdb_get (LOCK_RESERVATION_KEY (uuid_str (res_event r))) (redis s) \<noteq> None)
      | ExternalError _ \<Rightarrow> com s' = com s \<or>
          (\<exists>r \<in> set (reservations (com s)). reservation_id r = rid \<and> res_status r = Held \<and>
             (\<exists>t. expires_at r = Naive t \<and> clk s \<le> t) \<and> com s' = complete_tables r (com s))
      | _ \<Rightarrow> False)"

definition complete_result :: "uuid \<Rightarrow> vstate \<Rightarrow> reservation \<Rightarrow> vstate \<Rightarrow> bool" where
  "complete_result rid s r s' \<longleftrightarrow>
     r \<in> set (reservations (com s)) \<and> reservation_id r = rid \<and> res_status r = Held \<and>
     (\<exists>t. expires_at r = Naive t \<and> clk s \<le> t) \<and> com s' = complete_tables r (com s) \<and> fresh_session s' \<and>
     tz_columns s' = tz_columns s \<and>
     rdb_get (LOCK_RESERVATION_KEY (uuid_str (res_event r))) (redis s') = None"

lemma seqn_unit: "seqn m (ret ()) = m"
  by (metis (full_types) ret_bnd old.unit.exhaust ext)

lemma dt_less_late: "dt_less d (Naive t) = Inr True \<Longrightarrow> instant d < t"
  by (cases d) auto

lemma dt_less_aware: "dt_less d (Naive t) = Inl e \<Longrightarrow> \<exists>m x. e = TypeError m \<and> d = Aware x"
  by (cases d) auto

lemma as_loaded_fresh: "fresh_session s \<Longrightarrow> as_loaded s r = r"
  by (simp add: fresh_session_def as_loaded_def)

lemma close_row:
  "r \<in> set (reservations t) \<Longrightarrow> r\<lparr>res_status := st\<rparr> \<in> set (reservations (close_tables st f r t))"
  by (force simp: close_tables_def image_iff)

lemma close_ids: "map reservation_id (reservations (close_tables st f r t)) = map reservation_id (reservations t)"
  by (simp add: close_tables_def)

context backend
begin

text \<open>Looking up a reservation by its id at the start of a request.\<close>

lemma vc_find_reservation:
  assumes "fresh_session s" and "distinct (map reservation_id (reservations (com s)))"
    and "rid \<notin> reservation_id ` set (reservations (com s)) \<Longrightarrow> vc v none Q E s"
    and "\<And>r. r \<in> set (reservations (com s)) \<Longrightarrow> reservation_id r = rid \<Longrightarrow> vc v (some r) Q E (remember [r] s)"
    and "\<And>m. E (ExternalError m) s"
  shows "vc v (bnd (reservation_get_by_id D rid) (\<lambda>found. case found of None \<Rightarrow> none | Some r \<Rightarrow> some r)) Q E s"
proof -
  have "ses s = com s" using assms(1) by (simp add: fresh_session_def)
  then show ?thesis
    by (intro vc_bnd vc_reservation_get_by_id) (use assms in \<open>simp_all add: as_loaded_fresh\<close>)
qed

lemma vc_cancel_reservation:
  assumes fresh: "fresh_session s" and ok: "booking_ok (com s)"
  shows "vc v (cancel_reservation D R T rid user_id) (cancel_result rid user_id s) (cancel_failed rid user_id s) s"
proof -
  have ses: "ses s = com s" using fresh by (simp add: fresh_session_def)
  note ids = booking_okD(1,2) [OF ok]
  have locked: "vc v (reservation_lock R T (uuid_str (res_event r)) (cancel_under_lock D R T r))
     (\<lambda>xs. vc v (bnd (reload_reservation D r) (\<lambda>q. ret (to_reservation_response q (total_price xs))))
        (cancel_result rid user_id s) (cancel_failed rid user_id s)) (cancel_failed rid user_id s) (remember [r] s)"
    if r: "r \<in> set (reservations (com s))" "reservation_id r = rid" "uuid_str (res_user r) = user_id"
      "res_status r = Held" for r
    unfolding cancel_under_lock_def Let_def
  proof (rule vc_close_locked [where g = "\<lambda>ys. ys"], goal_cases)
    case (7 ys s')
    then show ?case
      using r ids close_row [OF r(1), of Cancelled free_seat]
      by (intro vc_bnd vc_reload_own [where row = "r\<lparr>res_status := Cancelled\<rparr>"] vc_ret)
        (auto simp: fresh_session_def close_ids cancel_result_def cancel_failed_def closed_rows_def)
  qed (use r ids booking_okD(3) [OF ok r(1)] ses in \<open>auto simp: cancel_failed_def\<close>)
  show ?thesis
    unfolding cancel_reservation_def cancel_check_def
    by (rule vc_bnd, rule vc_find_reservation [OF fresh ids(2)];
        (intro vc_if vc_raising vc_ret vc_bnd locked)?)
      (auto simp: cancel_failed_def dest: same_key [OF ids(2)])
qed

lemma vc_complete_reservation:
  assumes fresh: "fresh_session s" and ok: "booking_ok (com s)"
  shows "vc v (complete_reservation D R T rid) (complete_result rid s) (complete_failed rid s) s"
proof -
  have ses: "ses s = com s" using fresh by (simp add: fresh_session_def)
  note ids = booking_okD(1,2) [OF ok]
  have locked: "vc v (reservation_lock R T (uuid_str (res_event r)) (complete_under_lock D R T r))
     (\<lambda>_. vc v (ret r) (complete_result rid s) (complete_failed rid s)) (complete_failed rid s)
     (remember [r] s\<lparr>clk := t\<rparr>)"
    if r: "r \<in> set (reservations (com s))" "reservation_id r = rid" "res_status r = Held"
      "clk s \<le> t" "dt_less (expires_at r) (Naive t) = Inr late" "\<not> late" for r t late
  proof -
    have "\<exists>x. expires_at r = Naive x \<and> clk s \<le> x" using r(4-6) by (cases "expires_at r") auto
    then show ?thesis
      unfolding complete_under_lock_def Let_def
      using r ids booking_okD(3) [OF ok r(1)] ses
      by (intro vc_close_locked [where g = "\<lambda>ys. ()", unfolded seqn_unit] vc_ret)
       (auto simp: complete_failed_def complete_result_def)
  qed
  show ?thesis
    unfolding complete_reservation_def complete_check_def
    by (rule vc_bnd, rule vc_find_reservation [OF fresh ids(2)];
        (intro vc_if vc_raising vc_ret vc_bnd vc_utcnow vc_lift_res locked)?)
      (auto simp: complete_failed_def dest: same_key [OF ids(2)] dt_less_late dest!: dt_less_aware intro!: bexI)
qed

end

section \<open>The release loops\<close>

text \<open>
  Tables reached by cancelling, one after the other, held reservations with a property, and a
  number of released seats between none and all of theirs.
\<close>

inductive cancels :: "(reservation \<Rightarrow> bool) \<Rightarrow> tables \<Rightarrow> nat \<Rightarrow> tables \<Rightarrow> bool" for P t where
  none: "cancels P t 0 t"
| one: "cancels P t n t' \<Longrightarrow> r \<in> set (reservations t') \<Longrightarrow> res_status r = Held \<Longrightarrow> P r \<Longrightarrow>
    n \<le> n' \<Longrightarrow> n' \<le> n + length (filter (names r) (seats t')) \<Longrightarrow> cancels P t n' (cancel_tables r t')"

lemma cancels_mono: "cancels P t n t' \<Longrightarrow> (\<And>r. P r \<Longrightarrow> Q r) \<Longrightarrow> cancels Q t n t'"
  by (induction rule: cancels.induct) (auto intro: cancels.intros)

lemma cancels_booking_ok: "cancels P t n t' \<Longrightarrow> booking_ok t \<Longrightarrow> booking_ok t'"
  by (induction rule: cancels.induct) (auto intro: booking_ok_cancel)

lemma close_reservationsD:
  "q \<in> set (reservations (close_tables st f r t)) \<Longrightarrow>
    \<exists>p \<in> set (reservations t). \<exists>x. q = p\<lparr>res_status := x\<rparr>"
proof -
  assume "q \<in> set (reservations (close_tables st f r t))"
  then obtain p where "p \<in> set (reservations t)" "q = p\<lparr>res_status := st\<rparr> \<or> q = p\<lparr>res_status := res_status p\<rparr>"
    by (auto simp: close_tables_def split: if_splits)
  then show ?thesis by blast
qed

text \<open>Only the status of a row ever changes, and the keys stay.\<close>

lemma cancels_rows:
  "cancels P t n t' \<Longrightarrow> r \<in> set (reservations t') \<Longrightarrow>
    \<exists>r0 \<in> set (reservations t). \<exists>x. r = r0\<lparr>res_status := x\<rparr>"
proof (induction arbitrary: r rule: cancels.induct)
  case none
  then show ?case by (intro bexI [of _ r] exI [of _ "res_status r"]) simp_all
next
  case (one n t' q n')
  from close_reservationsD [OF one.prems] one.IH show ?case by fastforce
qed

lemma cancels_ids: "cancels P t n t' \<Longrightarrow> map reservation_id (reservations t') = map reservation_id (reservations t)"
  by (induction rule: cancels.induct) (simp_all add: close_ids)

text \<open>A session whose view is the committed one, and whose loaded objects agree with the rows.\<close>

definition tidy :: "vstate \<Rightarrow> bool" where
  "tidy s \<longleftrightarrow> ses s = com s \<and> (\<forall>r \<in> set (reservations (com s)). as_loaded s r = r)"

text \<open>What one turn of a loop did to the reservation \<open>r\<close> and to the count.\<close>

definition turn :: "reservation \<Rightarrow> nat \<Rightarrow> vstate \<Rightarrow> nat \<Rightarrow> vstate \<Rightarrow> bool" where
  "turn r n s n' s' \<longleftrightarrow> clk s \<le> clk s' \<and> n \<le> n' \<and>
     (com s' = com s \<and> n' = n \<or>
      res_status r = Held \<and> com s' = cancel_tables r (com s) \<and>
        n' \<le> n + length (filter (names r) (seats (com s))))"

lemma tidy_fresh: "fresh_session s \<Longrightarrow> tidy s"
  by (simp add: tidy_def fresh_session_def as_loaded_def)

lemma tidy_remember:
  assumes "tidy s" and "distinct (map reservation_id (reservations (com s)))" and "r \<in> set (reservations (com s))"
  shows "tidy (remember [r] s)"
  using assms same_key [OF assms(2), of r]
  by (auto simp: tidy_def as_loaded_def remember_def)

lemma tidy_update [simp]:
  "tidy (s\<lparr>redis := d\<rparr>) = tidy s" "tidy (s\<lparr>clk := t\<rparr>) = tidy s" "tidy (s\<lparr>issued := us\<rparr>) = tidy s"
  by (simp_all add: tidy_def as_loaded_def)

lemma tidy_discard [simp]: "tidy (discard s)"
  by (rule tidy_fresh) simp

lemma tidy_remember_all:
  assumes "fresh_session s" and "set rs \<subseteq> set (reservations (com s))"
    and "distinct (map reservation_id (reservations (com s)))"
  shows "tidy (remember rs s)"
proof -
  have loaded: "fold (\<lambda>r m. m(reservation_id r \<mapsto> r)) rs m i = m i \<or>
      (\<exists>r \<in> set rs. reservation_id r = i \<and> fold (\<lambda>r m. m(reservation_id r \<mapsto> r)) rs m i = Some r)" for m i
    by (induction rs rule: rev_induct) auto
  have "as_loaded (remember rs s) r = r" if "r \<in> set (reservations (com s))" for r
    using loaded [of Map.empty "reservation_id r"]
  proof
    assume "fold (\<lambda>r m. m(reservation_id r \<mapsto> r)) rs Map.empty (reservation_id r) = None"
    with assms(1) show ?thesis by (simp add: as_loaded_def remember_def fresh_session_def)
  next
    assume "\<exists>q \<in> set rs. reservation_id q = reservation_id r \<and>
      fold (\<lambda>r m. m(reservation_id r \<mapsto> r)) rs Map.empty (reservation_id r) = Some q"
    then obtain q where q: "q \<in> set rs" "reservation_id q = reservation_id r"
      "fold (\<lambda>r m. m(reservation_id r \<mapsto> r)) rs Map.empty (reservation_id r) = Some q" by blast
    then have "q = r" using same_key [OF assms(3)] assms(2) that by blast
    with q(3) assms(1) show ?thesis by (simp add: as_loaded_def remember_def fresh_session_def)
  qed
  with assms(1) show ?thesis by (simp add: tidy_def fresh_session_def)
qed

context backend
begin

lemma vc_counting_lock:
  assumes body: "\<And>u. vc v body
        (\<lambda>(n', failed) s'. Q (n', failed)
            (s'\<lparr>redis := snd (release_script (LOCK_RESERVATION_KEY e) (uuid_str u) (redis s'))\<rparr>) \<and>
          (\<forall>m. Q (n', Some (ExternalError m)) s'))
        (\<lambda>_ _. False)
        (s\<lparr>issued := u # issued s,
           redis := rdb_set (LOCK_RESERVATION_KEY e) (Text (uuid_str u)) (Some LOCK_TTL_MS) (redis s)\<rparr>)"
    and failing: "\<And>x us t. clk s \<le> t \<Longrightarrow> Q (n, Some x) (s\<lparr>issued := us, clk := t\<rparr>)"
  shows "vc v (counting_lock R T e n body) Q E s"
  unfolding counting_lock_def
proof (rule vc_bnd, rule vc_capture, rule vc_acquire_reservation_lock, goal_cases)
  case (1 u)
  show ?case
    unfolding sum.case
    by (rule vc_bnd, rule vc_conseq [OF body [of u]])
      (auto intro!: vc_bnd vc_capture vc_release [where val = "uuid_str u"] vc_ret simp: raised_def)
qed (auto intro!: vc_ret failing)

text \<open>The committing part of both loops.\<close>

lemma vc_release_committed:
  assumes ses: "ses s = com s" and ok: "booking_ok (com s)" and refs: "refers_ok (com s) r"
    and fin: "\<And>s'. com s' = cancel_tables r (com s) \<Longrightarrow> fresh_session s' \<Longrightarrow> clk s \<le> clk s' \<Longrightarrow>
      Q (length (filter (names r) (seats (com s)))) s'"
    and err: "\<And>m s'. com s' = com s \<or> com s' = cancel_tables r (com s) \<Longrightarrow> clk s \<le> clk s' \<Longrightarrow>
      E (ExternalError m) s'"
  shows "vc v (release_committed D R T e r) Q E s"
  unfolding release_committed_def
  by (rule vc_close_announced [where g = length, OF ses refs booking_okD(1,2) [OF ok]])
    (auto simp: closed_rows_def intro: fin err)

text \<open>
  The two blocks under the lock: they leave the tables as one turn does where the loaded object agrees with
  its row, and a tidy session tidy unless they report an exception.
\<close>

lemma vc_release_expired_block:
  assumes ses: "ses s = com s" and row: "as_loaded s r = r" and ok: "booking_ok (com s)" and r: "r \<in> set (reservations (com s))"
    and fin: "\<And>n' failed s'. turn r n s n' s' \<Longrightarrow> (tidy s \<Longrightarrow> failed = None \<longrightarrow> tidy s') \<Longrightarrow> Q (n', failed) s'"
  shows "vc v (release_expired_block D R T e r n) Q E s"
proof -
  note ids = booking_okD(2) [OF ok]
  have same: "q = r" if "q \<in> set (reservations (com s))" "reservation_id q = reservation_id r" for q
    using same_key [OF ids] that r by blast
  have released: "vc v (capture (release_committed D R T e r)) (\<lambda>a. vc v (case a of Inl x \<Rightarrow> ret (n, Some x)
      | Inr k \<Rightarrow> bnd (capture (reload_reservation D r)) (\<lambda>logged. ret (n + k, raised logged))) Q E) E (remember [r] s)"
    if held: "res_status r = Held"
  proof (rule vc_capture, rule vc_release_committed, goal_cases)
    case (4 s')
    then have "turn r n s (n + length (filter (names r) (seats (com s)))) s''"
      if "com s'' = com s'" "clk s'' = clk s'" for s''
      using held that by (simp add: turn_def)
    with 4 show ?case
      using tidy_remember [OF tidy_fresh [OF 4(2)]] ids as_loaded_fresh [OF 4(2)]
      by (auto intro!: vc_bnd vc_capture vc_reload_reservation vc_ret fin
          simp: raised_def close_ids fresh_session_def)
  next
    case (5 m s')
    with held show ?case by (auto intro!: vc_ret fin simp: turn_def)
  qed (use ses ok booking_okD(3) [OF ok r] in simp_all)
  show ?thesis
    unfolding release_expired_block_def
  proof (rule vc_bnd, rule vc_capture, rule vc_reservation_get_by_id, goal_cases)
    case (3 q)
    then have "q = r" using same ses by simp
    then show ?case
      using row tidy_remember [OF _ ids r]
      by (auto intro!: vc_ret fin vc_bnd released simp: turn_def)
  qed (use ids ses r in \<open>auto intro!: vc_ret fin simp: turn_def\<close>)
qed

lemma vc_release_user_block:
  assumes ses: "ses s = com s" and row: "as_loaded s r = r" and ok: "booking_ok (com s)" and r: "r \<in> set (reservations (com s))"
    and fin: "\<And>n' failed s'. turn r n s n' s' \<Longrightarrow> (tidy s \<Longrightarrow> failed = None \<longrightarrow> tidy s') \<Longrightarrow> Q (n', failed) s'"
  shows "vc v (release_user_block D R T e r n) Q E s"
proof -
  note ids = booking_okD(2) [OF ok]
  have same: "q = r" if "q \<in> set (reservations (com s))" "reservation_id q = reservation_id r" for q
    using same_key [OF ids] that r by blast
  have released: "vc v (capture (release_committed D R T e r)) (\<lambda>a. vc v (case a of Inl x \<Rightarrow> ret (n, Some x)
      | Inr k \<Rightarrow> ret (n + k, None)) Q E) E (remember [r] s)"
    if held: "res_status r = Held"
    by (rule vc_capture, rule vc_release_committed)
      (use held ses ok booking_okD(3) [OF ok r] in \<open>auto intro!: vc_ret fin simp: turn_def tidy_fresh\<close>)
  show ?thesis
    unfolding release_user_block_def
  proof (rule vc_bnd, rule vc_capture, rule vc_reservation_get_by_id, goal_cases)
    case (3 q)
    then have "q = r" using same ses by simp
    then show ?case
      using row tidy_remember [OF _ ids r]
      by (auto intro!: vc_ret fin vc_bnd released simp: turn_def)
  qed (use ids ses r in \<open>auto intro!: vc_ret fin simp: turn_def\<close>)
qed

text \<open>One turn of each loop, for the object \<open>r0\<close> of the row \<open>r\<close>.\<close>

lemma turn_view: "com s1 = com s \<Longrightarrow> clk s1 = clk s \<Longrightarrow> com s1' = com s' \<Longrightarrow> clk s1' = clk s' \<Longrightarrow>
    turn r n s1 n' s1' = turn r n s n' s'"
  by (simp add: turn_def)

lemma vc_release_one:
  assumes tidy: "tidy s" and ok: "booking_ok (com s)"
    and r: "r \<in> set (reservations (com s))" "reservation_id r = reservation_id r0"
    and block: "\<And>s Q E. ses s = com s \<Longrightarrow> as_loaded s r = r \<Longrightarrow> booking_ok (com s) \<Longrightarrow> r \<in> set (reservations (com s)) \<Longrightarrow>
      (\<And>n' failed s'. turn r n s n' s' \<Longrightarrow> (tidy s \<Longrightarrow> failed = None \<longrightarrow> tidy s') \<Longrightarrow> Q (n', failed) s') \<Longrightarrow>
      vc v (block (uuid_str (res_event r)) r) Q E s"
    and give_up: "\<And>n' s'. turn r n s n' s' \<Longrightarrow> vc v (give_up n') Q E s'"
    and fin: "\<And>n' s'. turn r n s n' s' \<Longrightarrow> tidy s' \<Longrightarrow> Q n' s'"
    and err: "\<And>m n' s'. turn r n s n' s' \<Longrightarrow> E (ExternalError m) s'"
  shows "vc v (bnd (reload_reservation D r0) (\<lambda>r.
     let event_id = uuid_str (res_event r) in
     bnd (counting_lock R T event_id n (block event_id r)) (\<lambda>(n', failed).
     case failed of None \<Rightarrow> ret n' | Some e \<Rightarrow> give_up n'))) Q E s"
proof -
  note ids = booking_okD(2) [OF ok]
  have ses: "ses s = com s" and row: "as_loaded s r = r" using tidy r by (auto simp: tidy_def)
  have same: "q = r" if "q \<in> set (reservations (com s))" "reservation_id q = reservation_id r0" for q
    using same_key [OF ids] that r by metis
  have start: "turn r n s n s'" if "com s' = com s" "clk s \<le> clk s'" for s'
    using that by (simp add: turn_def)
  let ?next = "\<lambda>(n', failed). case failed of None \<Rightarrow> ret n' | Some (e :: exn) \<Rightarrow> give_up n'"
  have after: "vc v (?next (n', failed)) Q E s'" if "turn r n s n' s'" "failed = None \<longrightarrow> tidy s'" for n' failed s'
    using that by (auto intro!: vc_ret fin give_up split: option.split)
  have locked: "vc v (counting_lock R T (uuid_str (res_event r)) n (block (uuid_str (res_event r)) r))
      (\<lambda>a. vc v (?next a) Q E) E (remember [r] s)"
  proof (rule vc_counting_lock)
    fix u
    let ?s = "(remember [r] s)\<lparr>issued := u # issued (remember [r] s),
           redis := rdb_set (LOCK_RESERVATION_KEY (uuid_str (res_event r))) (Text (uuid_str u))
             (Some LOCK_TTL_MS) (redis (remember [r] s))\<rparr>"
    have clean: "tidy ?s" using tidy_remember [OF tidy ids r(1)] by simp
    show "vc v (block (uuid_str (res_event r)) r)
        (\<lambda>(n', failed) s'. vc v (?next (n', failed)) Q E (s'\<lparr>redis :=
            snd (release_script (LOCK_RESERVATION_KEY (uuid_str (res_event r))) (uuid_str u) (redis s'))\<rparr>) \<and>
          (\<forall>m. vc v (?next (n', Some (ExternalError m))) Q E s'))
        (\<lambda>_ _. False) ?s"
    proof (rule block, goal_cases)
      case (5 n' failed s')
      then have "turn r n s n' s'" using turn_view [of ?s s s' s'] by simp
      moreover from this have "turn r n s n' (s'\<lparr>redis := d\<rparr>)" for d by (simp add: turn_def)
      ultimately show ?case
        using 5(2) [OF clean] by (simp only: prod.case, intro conjI allI after [unfolded prod.case]) simp_all
    qed (use ok r ses in \<open>simp_all add: as_loaded_def remember_def\<close>)
  qed (intro after, simp_all add: turn_def)
  show ?thesis
    unfolding Let_def
    by (rule vc_bnd, rule vc_reload_reservation)
      (use same row ses locked err [OF start [OF refl order_refl]] in \<open>auto intro!: vc_bnd\<close>)
qed

lemma turn_again: "turn r n s n' s' \<Longrightarrow> com s'' = com s' \<Longrightarrow> clk s'' = clk s' \<Longrightarrow> turn r n s n' s''"
  by (simp add: turn_def)

lemma vc_release_expired_one:
  assumes "tidy s" and "booking_ok (com s)"
    and "r \<in> set (reservations (com s))" "reservation_id r = reservation_id r0"
    and fin: "\<And>n' s'. turn r n s n' s' \<Longrightarrow> tidy s' \<Longrightarrow> Q n' s'"
    and err: "\<And>m n' s'. turn r n s n' s' \<Longrightarrow> E (ExternalError m) s'"
  shows "vc v (release_expired_one D R T n r0) Q E s"
  unfolding release_expired_one_def
proof (rule vc_release_one [OF assms(1-4), where block = "\<lambda>e r. release_expired_block D R T e r n"
      and give_up = "\<lambda>n'. seqn (reload_reservation D r0) (seqn (capture (rollback D)) (ret n'))"], goal_cases)
  case (1 s Q E)
  then show ?case by (rule vc_release_expired_block)
next
  case (2 n' s')
  with turn_again [OF this] show ?case by (auto intro!: vc_bnd vc_reload_reservation vc_capture vc_rollback vc_ret fin err)
qed (rule fin err, assumption+)+

lemma vc_release_user_one:
  assumes "tidy s" and "booking_ok (com s)"
    and "r \<in> set (reservations (com s))" "reservation_id r = reservation_id r0"
    and fin: "\<And>n' s'. turn r n s n' s' \<Longrightarrow> tidy s' \<Longrightarrow> Q n' s'"
    and err: "\<And>m n' s'. turn r n s n' s' \<Longrightarrow> E (ExternalError m) s'"
  shows "vc v (release_user_one D R T n r0) Q E s"
  unfolding release_user_one_def
proof (rule vc_release_one [OF assms(1-4), where block = "\<lambda>e r. release_user_block D R T e r n"
      and give_up = "\<lambda>n'. seqn (capture (rollback D)) (ret n')"], goal_cases)
  case (1 s Q E)
  then show ?case by (rule vc_release_user_block)
next
  case (2 n' s')
  with turn_again [OF this] show ?case by (auto intro!: vc_bnd vc_capture vc_rollback vc_ret fin)
qed (rule fin err, assumption+)+

end

text \<open>A turn on a row of the loop's list keeps the loop's invariant.\<close>

lemma cancels_turn:
  assumes "cancels P t n (com s)" and "turn r n s n' s'" and "r \<in> set (reservations (com s))"
    and "res_status r = Held \<Longrightarrow> P r"
  shows "cancels P t n' (com s')"
  using assms by (auto simp: turn_def intro: cancels.one)

text \<open>The row of a listed object, later in the loop: it still has the key, the user and the expiry.\<close>

lemma row_of_listed:
  assumes "cancels P t n t'" and "x \<in> set (reservations t)" and "distinct (map reservation_id (reservations t))"
  shows "\<exists>r \<in> set (reservations t'). reservation_id r = reservation_id x \<and> expires_at r = expires_at x \<and>
    res_user r = res_user x"
proof -
  have "reservation_id x \<in> reservation_id ` set (reservations t')"
    using assms(2) cancels_ids [OF assms(1)] by (metis image_eqI list.set_map)
  then obtain r where r: "r \<in> set (reservations t')" "reservation_id r = reservation_id x" by auto
  with cancels_rows [OF assms(1) r(1)] obtain r0 st
    where r0: "r0 \<in> set (reservations t)" "r = r0\<lparr>res_status := st\<rparr>" by blast
  with r(2) have "reservation_id r0 = reservation_id x" by simp
  with same_key [OF assms(3) r0(1) assms(2)] have "r0 = x" by blast
  with r r0(2) show ?thesis by (intro bexI [of _ r]) simp_all
qed

definition expired_by :: "int \<Rightarrow> reservation \<Rightarrow> bool" where
  "expired_by t r \<longleftrightarrow> instant (expires_at r) < t"

text \<open>What the clean-up did by the end: it cancelled holds that have expired by then.\<close>

definition cleaned :: "vstate \<Rightarrow> nat \<Rightarrow> vstate \<Rightarrow> bool" where
  "cleaned s n s' \<longleftrightarrow> clk s \<le> clk s' \<and> cancels (expired_by (clk s')) (com s) n (com s')"

lemma cancels_trans: "cancels P t' m t'' \<Longrightarrow> cancels P t n t' \<Longrightarrow> cancels P t (n + m) t''"
proof (induction rule: cancels.induct)
  case (one k u r k')
  then show ?case using cancels.one [of P t "n + k" u r "n + k'"] by simp
qed simp

lemma cleaned_trans:
  assumes "cleaned s n s'" and "cleaned s' m s''"
  shows "cleaned s (n + m) s''"
proof -
  have "cancels (expired_by (clk s'')) (com s) n (com s')"
    using assms by (auto simp: cleaned_def expired_by_def elim: cancels_mono)
  then show ?thesis using assms cancels_trans by (auto simp: cleaned_def)
qed

lemma cleaned_same: "com s' = com s \<Longrightarrow> clk s \<le> clk s' \<Longrightarrow> cleaned s 0 s'"
  by (simp add: cleaned_def cancels.none)

context backend
begin

lemma vc_release_expired_holds:
  assumes fresh: "fresh_session s" and ok: "booking_ok (com s)"
  shows "vc v (release_expired_holds D R T)
    (\<lambda>n s'. cleaned s n s')
    (\<lambda>x s'. is_external x \<and> (\<exists>n. cleaned s n s')) s"
proof -
  note ids = booking_okD(2) [OF ok]
  have ses: "ses s = com s" using fresh by (simp add: fresh_session_def)
  have loop: "vc v (foldM (release_expired_one D R T) 0 rs)
      (\<lambda>n s'. cleaned s n s')
      (\<lambda>x s'. is_external x \<and> (\<exists>n. cleaned s n s')) (remember rs (s\<lparr>clk := t\<rparr>))"
    if rs: "set rs = {r \<in> set (reservations (com s)). res_status r = Held \<and> instant (expires_at r) < t}" and st: "clk s \<le> t" for rs t
  proof (rule vc_foldM [where I = "\<lambda>n s'. tidy s' \<and> t \<le> clk s' \<and> cancels (expired_by t) (com s) n (com s')"])
    fix n x s'
    assume x: "x \<in> set rs" and I: "tidy s' \<and> t \<le> clk s' \<and> cancels (expired_by t) (com s) n (com s')"
    then obtain r where r: "r \<in> set (reservations (com s'))" "reservation_id r = reservation_id x"
      "expires_at r = expires_at x"
      using row_of_listed [of "expired_by t" "com s" n "com s'" x] ids rs by auto
    have P: "expired_by t r" using x rs r(3) by (simp add: expired_by_def)
    have turned: "cancels (expired_by t) (com s) n' (com s'') \<and> t \<le> clk s''" if "turn r n s' n' s''" for n' s''
      using cancels_turn [OF _ that r(1)] P I that by (auto simp: turn_def)
    show "vc v (release_expired_one D R T n x)
        (\<lambda>n s'. tidy s' \<and> t \<le> clk s' \<and> cancels (expired_by t) (com s) n (com s'))
        (\<lambda>x s'. is_external x \<and> (\<exists>n. cleaned s n s')) s'"
    proof (rule vc_release_expired_one [OF _ _ r(1,2)])
      show "booking_ok (com s')" using I ok cancels_booking_ok by blast
      show "is_external (ExternalError m) \<and> (\<exists>n. cleaned s n s'')"
        if "turn r n s' n' s''" for m n' s''
        using turned [OF that] cancels_mono [of "expired_by t" "com s" n' "com s''" "expired_by (clk s'')"] st by (auto simp: expired_by_def cleaned_def)
    qed (use I turned in simp_all)
  next
    have "tidy (remember rs (s\<lparr>clk := t\<rparr>))"
      using tidy_remember_all [of "s\<lparr>clk := t\<rparr>" rs] fresh ids rs by (auto simp: fresh_session_def)
    then show "tidy (remember rs (s\<lparr>clk := t\<rparr>)) \<and> t \<le> clk (remember rs (s\<lparr>clk := t\<rparr>)) \<and>
        cancels (expired_by t) (com s) 0 (com (remember rs (s\<lparr>clk := t\<rparr>)))"
      by (simp add: cancels.none)
  next
    fix n s'
    assume "tidy s' \<and> t \<le> clk s' \<and> cancels (expired_by t) (com s) n (com s')"
    then show "cleaned s n s'"
      using st by (auto simp: expired_by_def cleaned_def elim: cancels_mono)
  qed
  have start: "cleaned s 0 s'" if "com s' = com s" "clk s \<le> clk s'" for s'
    using that by (simp add: cleaned_def cancels.none)
  have start_ex: "\<exists>n. cleaned s n s'" if "com s' = com s" "clk s \<le> clk s'" for s'
    using start [OF that] by blast
  have objs: "map (as_loaded (s\<lparr>clk := t\<rparr>)) xs = xs" for xs t
    using fresh by (intro map_idI) (simp add: as_loaded_def fresh_session_def)
  show ?thesis
    unfolding release_expired_holds_def get_expired_held_def
  proof (intro vc_bnd vc_utcnow vc_q_reservations vc_if vc_ret, unfold objs, goal_cases)
    case (2 t xs)
    then show ?case using rows_like_set [of xs] ses by (intro loop) simp
  qed (simp_all add: start start_ex)
qed

lemma vc_release_user_holds:
  assumes fresh: "fresh_session s" and ok: "booking_ok (com s)" and u: "uuid_parse user_id = Inr u"
  shows "vc v (release_user_holds D R T user_id)
    (\<lambda>n s'. cancels (\<lambda>r. res_user r = u) (com s) n (com s'))
    (\<lambda>x s'. is_external x \<and> (\<exists>n. cancels (\<lambda>r. res_user r = u) (com s) n (com s'))) s"
proof -
  let ?P = "\<lambda>r. res_user r = u"
  note ids = booking_okD(2) [OF ok]
  have ses: "ses s = com s" using fresh by (simp add: fresh_session_def)
  have loop: "vc v (foldM (release_user_one D R T) 0 rs) (\<lambda>n s'. cancels ?P (com s) n (com s'))
      (\<lambda>x s'. is_external x \<and> (\<exists>n. cancels ?P (com s) n (com s'))) (remember rs s)"
    if rs: "set rs = {r \<in> set (reservations (com s)). res_user r = u \<and> res_status r = Held}" for rs
  proof (rule vc_foldM [where I = "\<lambda>n s'. tidy s' \<and> cancels ?P (com s) n (com s')"])
    fix n x s'
    assume x: "x \<in> set rs" and I: "tidy s' \<and> cancels ?P (com s) n (com s')"
    then obtain r where r: "r \<in> set (reservations (com s'))" "reservation_id r = reservation_id x"
      "res_user r = res_user x"
      using row_of_listed [of ?P "com s" n "com s'" x] ids rs by auto
    have turned: "cancels ?P (com s) n' (com s'')" if "turn r n s' n' s''" for n' s''
      using cancels_turn [OF _ that r(1)] x rs r(3) I by simp
    show "vc v (release_user_one D R T n x) (\<lambda>n s'. tidy s' \<and> cancels ?P (com s) n (com s'))
        (\<lambda>x s'. is_external x \<and> (\<exists>n. cancels ?P (com s) n (com s'))) s'"
      by (rule vc_release_user_one [OF _ _ r(1,2)])
        (use I turned ok cancels_booking_ok in \<open>auto\<close>)
  next
    show "tidy (remember rs s) \<and> cancels ?P (com s) 0 (com (remember rs s))"
      using tidy_remember_all [OF fresh _ ids, of rs] rs by (auto intro: cancels.none)
  qed simp
  have objs: "map (as_loaded s) xs = xs" for xs
    using fresh by (intro map_idI) (simp add: as_loaded_def fresh_session_def)
  have start: "\<exists>n. cancels ?P (com s) n (com s)" by (rule exI) (rule cancels.none)
  show ?thesis
    unfolding release_user_holds_def get_held_by_user_def u lift_res_simps bnd_ret
  proof (intro vc_bnd vc_q_reservations vc_if vc_ret, unfold objs, goal_cases)
    case (2 xs)
    then show ?case using rows_like_set [of xs] ses by (intro loop) simp
  qed (simp_all add: start cancels.none)
qed

lemma vc_get_reservation:
  assumes fresh: "fresh_session s" and ok: "booking_ok (com s)"
  shows "vc v (get_reservation D rid user_id)
    (\<lambda>resp s'. com s' = com s \<and> redis s' = redis s \<and> (\<exists>r \<in> set (reservations (com s)).
       reservation_id r = rid \<and> uuid_str (res_user r) = user_id \<and>
       resp = to_reservation_response r (seats_total (names r) (com s))))
    (\<lambda>x s'. com s' = com s \<and> redis s' = redis s \<and> (is_external x \<or> (\<exists>m. x = ReservationNotFoundError m) \<and>
       \<not> (\<exists>r \<in> set (reservations (com s)). reservation_id r = rid \<and> uuid_str (res_user r) = user_id))) s"
proof -
  note ids = booking_okD(2) [OF ok]
  have ses: "ses s = com s" using fresh by (simp add: fresh_session_def)
  have total: "total_price xs = seats_total (names r) (com s)"
    if "rows_like xs (filter (\<lambda>x. seat_id x \<in> set us) (seats (com s)))"
      "\<And>x. seat_id x \<in> set us \<longleftrightarrow> names r x" for xs us r
    using total_price_rows [OF that(1)] that(2) by (simp add: seats_total_def)
  have seats: "vc v (named_seats D r) (\<lambda>xs. vc v (ret (to_reservation_response r (total_price xs))) Q E) E (remember [r] s)"
    if r: "r \<in> set (reservations (com s))" and "Q (to_reservation_response r (seats_total (names r) (com s))) (remember [r] s)"
      and "\<And>m. E (ExternalError m) (remember [r] s)" for r Q E
  proof -
    obtain us where us: "parse_seat_ids (res_seat_ids r) = Inr us" "\<And>x. seat_id x \<in> set us \<longleftrightarrow> names r x"
      using refers_parse [OF booking_okD(3) [OF ok r]] by blast
    show ?thesis
      unfolding named_seats_def us(1) lift_res_simps bnd_ret
      by (intro vc_q_seats vc_ret) (use that total [OF _ us(2)] ses in \<open>simp_all\<close>)
  qed
  show ?thesis
    unfolding get_reservation_def
    by (rule vc_find_reservation [OF fresh ids]; (intro vc_if vc_raising vc_bnd seats)?)
      (auto dest: same_key [OF ids])
qed

end

section \<open>More sample tables\<close>

definition sample_reservation :: "uuid \<Rightarrow> uuid \<Rightarrow> reservation_status \<Rightarrow> reservation" where
  "sample_reservation i u st =
     \<lparr>reservation_id = i, res_user = u, res_event = 9, res_seat_ids = [uuid_str 1], res_status = st,
      res_created_at = Naive 0, expires_at = Naive 300000000\<rparr>"

text \<open>The first seat held by the reservation 5 of the user 7.\<close>

definition held_tables :: tables where
  "held_tables = sample_tables
     \<lparr>seats := [hold_seat 7 (Naive 300000000) (sample_seat 1), sample_seat 2],
      reservations := [sample_reservation 5 7 Held]\<rparr>"

text \<open>That reservation cancelled since, and the seat held by the reservation 6 of the user 8.\<close>

definition retaken_tables :: tables where
  "retaken_tables = sample_tables
     \<lparr>seats := [hold_seat 8 (Naive 300000000) (sample_seat 1), sample_seat 2],
      reservations := [sample_reservation 5 7 Cancelled, sample_reservation 6 8 Held]\<rparr>"

lemma sample_booking_ok: "booking_ok held_tables" "booking_ok retaken_tables"
  by (simp_all add: booking_ok_def held_tables_def retaken_tables_def sample_tables_def sample_seat_def
      sample_reservation_def seat_ok_def holders_def names_def refers_ok_def hold_seat_def)

section \<open>Properties\<close>

text \<open>C11: only the owner can cancel a reservation, and only while it is held. Then its seats become
  available, its row becomes cancelled, nothing else in the tables changes, the hold keys are gone,
  the lock is free and the answer shows the cancelled reservation. Otherwise an exception says why
  and the tables are unchanged (or, after a failure past the commit, cancelled). No outcome breaks
  the booking invariant.\<close>

theorem cancel_reservation_outcome:
  assumes "backend R D T v" and "fresh_session (v w)" and "booking_ok (com (v w))"
  shows "wp (cancel_reservation D R T rid user_id)
    (\<lambda>resp w'. cancel_result rid user_id (v w) resp (v w') \<and> booking_ok (com (v w')))
    (\<lambda>x w'. cancel_failed rid user_id (v w) x (v w') \<and> booking_ok (com (v w'))) w"
proof (rule wp_mono [OF vcD [OF backend.vc_cancel_reservation [OF assms, of rid user_id]]])
  show "cancel_result rid user_id (v w) resp (v w') \<and> booking_ok (com (v w'))"
    if "cancel_result rid user_id (v w) resp (v w')" for resp w'
    using that booking_ok_cancel [OF assms(3)] by (auto simp: cancel_result_def)
  show "cancel_failed rid user_id (v w) x (v w') \<and> booking_ok (com (v w'))"
    if "cancel_failed rid user_id (v w) x (v w')" for x w'
    using that booking_ok_cancel [OF assms(3)] assms(3) by (cases x) (auto simp: cancel_failed_def)
qed

theorem cancel_reservation_outcome_witness:
  "booking_ok held_tables \<and>
   wp (cancel_reservation mem_db mem_redis mem_runtime 5 (uuid_str 7))
     (\<lambda>resp w'. rr_status resp = Cancelled) (\<lambda>x w'. booking_ok (com (mview w'))) (start_mem held_tables)"
proof -
  have ok: "booking_ok (com (mview (start_mem held_tables)))" by (simp add: sample_booking_ok)
  have "wp (cancel_reservation mem_db mem_redis mem_runtime 5 (uuid_str 7))
     (\<lambda>resp w'. rr_status resp = Cancelled) (\<lambda>x w'. booking_ok (com (mview w'))) (start_mem held_tables)"
    by (rule wp_mono [OF cancel_reservation_outcome [OF mem_backend _ ok]])
      (auto simp: cancel_result_def to_reservation_response_def)
  then show ?thesis by (simp add: sample_booking_ok)
qed

text \<open>C10: completing a reservation succeeds only for one that is held, with a stored expiry without
  time zone that had not passed; then its seats are sold, its row is completed, nothing else in the
  tables changes and the lock is free. Every exception has its reason and leaves the tables as
  they were (or, after a failure past the commit, completed). No outcome breaks the booking
  invariant.\<close>

theorem complete_reservation_outcome:
  assumes "backend R D T v" and "fresh_session (v w)" and "booking_ok (com (v w))"
  shows "wp (complete_reservation D R T rid)
    (\<lambda>r w'. complete_result rid (v w) r (v w') \<and> booking_ok (com (v w')))
    (\<lambda>x w'. complete_failed rid (v w) x (v w') \<and> booking_ok (com (v w'))) w"
proof (rule wp_mono [OF vcD [OF backend.vc_complete_reservation [OF assms, of rid]]])
  show "complete_result rid (v w) r (v w') \<and> booking_ok (com (v w'))"
    if "complete_result rid (v w) r (v w')" for r w'
    using that booking_ok_complete [OF assms(3)] by (auto simp: complete_result_def)
  show "complete_failed rid (v w) x (v w') \<and> booking_ok (com (v w'))"
    if "complete_failed rid (v w) x (v w')" for x w'
    using that booking_ok_complete [OF assms(3)] assms(3) by (cases x) (auto simp: complete_failed_def)
qed

theorem complete_reservation_outcome_witness:
  "booking_ok held_tables \<and>
   wp (complete_reservation mem_db mem_redis mem_runtime 5)
     (\<lambda>r w'. com (mview w') = complete_tables (sample_reservation 5 7 Held) held_tables)
     (\<lambda>x w'. booking_ok (com (mview w'))) (start_mem held_tables)"
proof -
  have ok: "booking_ok (com (mview (start_mem held_tables)))" by (simp add: sample_booking_ok)
  have "wp (complete_reservation mem_db mem_redis mem_runtime 5)
     (\<lambda>r w'. com (mview w') = complete_tables (sample_reservation 5 7 Held) held_tables)
     (\<lambda>x w'. booking_ok (com (mview w'))) (start_mem held_tables)"
    by (rule wp_mono [OF complete_reservation_outcome [OF mem_backend _ ok]])
      (auto simp: complete_result_def held_tables_def)
  then show ?thesis by (simp add: sample_booking_ok)
qed

text \<open>C12: the clean-up cancels held reservations only, only those whose expiry lies before the clock
  at its end, frees exactly their seats, and keeps the booking invariant; the number it returns is
  at most the number of seats freed. It raises nothing but a failure of the database, and even
  then what was done is of this kind.\<close>

theorem release_expired_holds_outcome:
  assumes "backend R D T v" and "fresh_session (v w)" and "booking_ok (com (v w))"
  shows "wp (release_expired_holds D R T)
    (\<lambda>n w'. cancels (expired_by (clk (v w'))) (com (v w)) n (com (v w')) \<and> booking_ok (com (v w')))
    (\<lambda>x w'. is_external x \<and> (\<exists>n. cancels (expired_by (clk (v w'))) (com (v w)) n (com (v w'))) \<and>
      booking_ok (com (v w'))) w"
  by (rule wp_mono [OF vcD [OF backend.vc_release_expired_holds [OF assms]]], unfold cleaned_def)
    (use assms(3) cancels_booking_ok in blast)+

theorem release_expired_holds_outcome_witness:
  "booking_ok held_tables \<and>
   wp (release_expired_holds mem_db mem_redis mem_runtime) (\<lambda>n w'. booking_ok (com (mview w')))
     (\<lambda>x w'. is_external x) (start_mem held_tables)"
proof -
  have ok: "booking_ok (com (mview (start_mem held_tables)))" by (simp add: sample_booking_ok)
  have "wp (release_expired_holds mem_db mem_redis mem_runtime) (\<lambda>n w'. booking_ok (com (mview w')))
     (\<lambda>x w'. is_external x) (start_mem held_tables)"
    by (rule wp_mono [OF release_expired_holds_outcome [OF mem_backend _ ok]]) auto
  then show ?thesis by (simp add: sample_booking_ok)
qed

text \<open>Releasing the holds of a user cancels held reservations of that user only, frees exactly
  their seats and keeps the booking invariant; the number it returns is at most the number of
  seats freed. It raises nothing but a failure of the database.\<close>

theorem release_user_holds_outcome:
  assumes "backend R D T v" and "fresh_session (v w)" and "booking_ok (com (v w))"
    and "uuid_parse user_id = Inr u"
  shows "wp (release_user_holds D R T user_id)
    (\<lambda>n w'. cancels (\<lambda>r. res_user r = u) (com (v w)) n (com (v w')) \<and> booking_ok (com (v w')))
    (\<lambda>x w'. is_external x \<and> (\<exists>n. cancels (\<lambda>r. res_user r = u) (com (v w)) n (com (v w'))) \<and>
      booking_ok (com (v w'))) w"
  by (rule wp_mono [OF vcD [OF backend.vc_release_user_holds [OF assms]]])
    (use assms(3) cancels_booking_ok in blast)+

theorem release_user_holds_outcome_witness:
  "booking_ok held_tables \<and>
   wp (release_user_holds mem_db mem_redis mem_runtime (uuid_str 8))
     (\<lambda>n w'. cancels (\<lambda>r. res_user r = 8) held_tables n (com (mview w')))
     (\<lambda>x w'. is_external x) (start_mem held_tables)"
proof -
  have ok: "booking_ok (com (mview (start_mem held_tables)))" by (simp add: sample_booking_ok)
  have "wp (release_user_holds mem_db mem_redis mem_runtime (uuid_str 8))
     (\<lambda>n w'. cancels (\<lambda>r. res_user r = 8) held_tables n (com (mview w')))
     (\<lambda>x w'. is_external x) (start_mem held_tables)"
    by (rule wp_mono [OF release_user_holds_outcome [OF mem_backend _ ok uuid_parse_str]]) auto
  then show ?thesis by (simp add: sample_booking_ok)
qed

text \<open>A reservation is shown to its owner only, with the sum of its seats' prices; looking it up
  changes neither the tables nor Redis.\<close>

theorem get_reservation_outcome:
  assumes "backend R D T v" and "fresh_session (v w)" and "booking_ok (com (v w))"
  shows "wp (get_reservation D rid user_id)
    (\<lambda>resp w'. com (v w') = com (v w) \<and> redis (v w') = redis (v w) \<and>
      (\<exists>r \<in> set (reservations (com (v w))). reservation_id r = rid \<and> uuid_str (res_user r) = user_id \<and>
       resp = to_reservation_response r (seats_total (names r) (com (v w)))))
    (\<lambda>x w'. com (v w') = com (v w) \<and> redis (v w') = redis (v w) \<and>
      (is_external x \<or> (\<exists>m. x = ReservationNotFoundError m) \<and>
       \<not> (\<exists>r \<in> set (reservations (com (v w))). reservation_id r = rid \<and> uuid_str (res_user r) = user_id))) w"
  by (rule vcD [OF backend.vc_get_reservation [OF assms]])

theorem get_reservation_outcome_witness:
  "booking_ok held_tables \<and>
   wp (get_reservation mem_db 5 (uuid_str 8)) (\<lambda>resp w'. False)
     (\<lambda>x w'. com (mview w') = held_tables) (start_mem held_tables)"
proof -
  have ok: "booking_ok (com (mview (start_mem held_tables)))" by (simp add: sample_booking_ok)
  have "wp (get_reservation mem_db 5 (uuid_str 8)) (\<lambda>resp w'. False)
     (\<lambda>x w'. com (mview w') = held_tables) (start_mem held_tables)"
    by (rule wp_mono [OF get_reservation_outcome [OF mem_backend _ ok]])
      (auto simp: held_tables_def sample_reservation_def)
  then show ?thesis by (simp add: sample_booking_ok)
qed

subsection \<open>What happens between the check and the lock\<close>

text \<open>The tables after closing with an object that is no longer what its row says.\<close>

lemma stale_close_breaks:
  assumes "r0 \<in> set (reservations t)" and "reservation_id r0 = reservation_id r" and "st \<noteq> Cancelled"
    and "q \<in> set (reservations t)" and "reservation_id q \<noteq> reservation_id r" and "res_status q = Held"
    and "x \<in> set (seats t)" and "names r x" and "names r0 x" and "names q x" and "\<And>x. seat_id (f x) = seat_id x"
  shows "\<not> booking_ok (close_tables st f r t)"
proof
  let ?t = "close_tables st f r t"
  assume ok: "booking_ok ?t"
  have "q \<in> set (reservations ?t)" and "r0\<lparr>res_status := st\<rparr> \<in> set (reservations ?t)"
    using assms(1,2,4,5) by (force simp: close_tables_def image_iff)+
  moreover have "names p (f x) = names p x" for p by (rule names_cong) (rule assms(11))
  ultimately have two: "q \<in> set (holders ?t (f x))" "r0\<lparr>res_status := st\<rparr> \<in> set (holders ?t (f x))"
    using assms by (simp_all add: holders_def)
  have "f x \<in> set (seats ?t)" using assms(7,8) by (force simp: image_iff)
  with ok two have "q = r0\<lparr>res_status := st\<rparr>"
    by (auto dest!: booking_okD(4) simp: seat_ok_def split: list.splits)
  with assms(2,5) show False by simp
qed

text \<open>The sample reservation completed.\<close>

definition sold_tables :: tables where
  "sold_tables = sample_tables
     \<lparr>seats := [sell_seat (sample_seat 1), sample_seat 2], reservations := [sample_reservation 5 7 Completed]\<rparr>"

lemma sold_tables_ok: "booking_ok sold_tables"
  by (simp add: booking_ok_def sold_tables_def sample_tables_def sample_seat_def
      sample_reservation_def seat_ok_def holders_def names_def refers_ok_def sell_seat_def)



end
