(* ===== verification/Payment_Service.thy ===== *)
theory Payment_Service
  imports Reservation_Closing
begin

text \<open>
  The payment service, \<open>src/services/payment_service.py\<close>: the checks before a payment, the payment
  row, the simulated payment gateway and the completion of the reservation. The gateway's answer is
  a draw of the run time.
\<close>

section \<open>The service\<close>

definition simulate_pg :: "'w runtime \<Rightarrow> string \<Rightarrow> rat \<Rightarrow> ('w, bool) py" where
  "simulate_pg T method amount = bnd (random_unit T) (\<lambda>q. ret (q < 95 / 100))"

definition payment_check ::
  "'w db_session \<Rightarrow> 'w runtime \<Rightarrow> string \<Rightarrow> uuid \<Rightarrow> rat \<Rightarrow> ('w, unit) py" where
  "payment_check D T user_id rid amount =
     bnd (reservation_get_by_id D rid) (\<lambda>found.
     case found of
       None \<Rightarrow> raising (ReservationNotFoundError (''Reservation '' @ uuid_str rid @ '' not found''))
     | Some r \<Rightarrow>
         if uuid_str (res_user r) \<noteq> user_id
         then raising (ReservationNotFoundError ''Not your reservation'')
         else if res_status r \<noteq> Held
         then raising (BusinessLogicError
           (''Reservation not in held status: '' @ reservation_status_text (res_status r)))
         else
           bnd (utcnow T) (\<lambda>now.
           bnd (lift_res (dt_less (expires_at r) (Naive now))) (\<lambda>late.
           if late
           then raising (ReservationExpiredError (''Reservation '' @ uuid_str rid @ '' has expired''))
           else
             bnd (named_seats D r) (\<lambda>xs.
             let expected_amount = total_price xs in
             if amount \<noteq> expected_amount
             then raising (PaymentAmountMismatchError expected_amount amount)
             else ret ()))))"

definition PG_DECLINED :: exn where
  "PG_DECLINED = BusinessLogicError ''Payment failed (PG declined). Please retry.''"

definition payment_charge ::
  "'w db_session \<Rightarrow> 'w redis_client \<Rightarrow> 'w runtime \<Rightarrow> uuid \<Rightarrow> uuid \<Rightarrow> string \<Rightarrow> rat \<Rightarrow>
    ('w, payment_response) py" where
  "payment_charge D R T user_uuid rid method amount =
     bnd (payment_create D rid user_uuid amount method) (\<lambda>payment.
     seqn (commit D)
     (bnd (simulate_pg T method amount) (\<lambda>pg_success.
     if pg_success then
       seqn (complete_reservation D R T rid)
       (bnd (reload_payment D payment) (\<lambda>p.
       seqn (payment_update_status D (payment_id p) PaymentCompleted)
       (seqn (commit D)
       (bnd (reload_payment D payment) (\<lambda>q. ret (to_payment_response q))))))
     else
       bnd (reload_payment D payment) (\<lambda>p.
       seqn (payment_update_status D (payment_id p) Failed)
       (seqn (commit D) (raising PG_DECLINED))))))"

definition process_payment ::
  "'w db_session \<Rightarrow> 'w redis_client \<Rightarrow> 'w runtime \<Rightarrow> string \<Rightarrow> uuid \<Rightarrow> string \<Rightarrow> rat \<Rightarrow>
    ('w, payment_response) py" where
  "process_payment D R T user_id rid method amount =
     bnd (lift_res (uuid_parse user_id)) (\<lambda>user_uuid.
     seqn (payment_check D T user_id rid amount)
     (payment_charge D R T user_uuid rid method amount))"

definition get_payment :: "'w db_session \<Rightarrow> uuid \<Rightarrow> string \<Rightarrow> ('w, payment_response) py" where
  "get_payment D pid user_id =
     bnd (payment_get_by_id D pid) (\<lambda>found.
     case found of
       None \<Rightarrow> raising (ReservationNotFoundError (''Payment '' @ uuid_str pid @ '' not found''))
     | Some p \<Rightarrow>
         if uuid_str (pay_user p) \<noteq> user_id
         then raising (ReservationNotFoundError (''Payment '' @ uuid_str pid @ '' not found''))
         else ret (to_payment_response p))"

section \<open>The payments table\<close>

definition with_payment :: "payment \<Rightarrow> tables \<Rightarrow> tables" where
  "with_payment p t = t\<lparr>payments := payments t @ [p]\<rparr>"

lemma with_payment_sel [simp]:
  "payments (with_payment p t) = payments t @ [p]" "reservations (with_payment p t) = reservations t"
  "seats (with_payment p t) = seats t" "events (with_payment p t) = events t"
  by (simp_all add: with_payment_def)

lemma booking_ok_with_payment [simp]: "booking_ok (with_payment p t) = booking_ok t"
  by (simp add: booking_ok_def seat_ok_def holders_def refers_ok_def)

lemma close_with_payment: "close_tables st f r (with_payment p t) = with_payment p (close_tables st f r t)"
  by (simp add: close_tables_def with_payment_def set_seats_def put_reservation_status_def)

lemma put_payment_status_new:
  assumes "payment_id p \<notin> payment_id ` set (payments t)"
  shows "put_payment_status (payment_id p) st (with_payment p t) = with_payment (p\<lparr>pay_status := st\<rparr>) t"
proof -
  have "map (\<lambda>q. if payment_id q = payment_id p then q\<lparr>pay_status := st\<rparr> else q) (payments t) = payments t"
    using assms by (intro map_idI) (metis (mono_tags) image_eqI)
  then show ?thesis by (simp add: put_payment_status_def with_payment_def)
qed

text \<open>The row a payment adds.\<close>

definition payment_row :: "uuid \<Rightarrow> uuid \<Rightarrow> string \<Rightarrow> rat \<Rightarrow> payment_status \<Rightarrow> vstate \<Rightarrow> payment \<Rightarrow> bool" where
  "payment_row u rid method amount st s p \<longleftrightarrow>
     payment_id p \<notin> payment_id ` set (payments (com s)) \<and> pay_reservation p = rid \<and> pay_user p = u \<and>
     pay_amount p = amount \<and> pay_method p = method \<and> pay_status p = st"

text \<open>The reservation a payment may be made for.\<close>

definition payable :: "uuid \<Rightarrow> string \<Rightarrow> rat \<Rightarrow> vstate \<Rightarrow> reservation \<Rightarrow> bool" where
  "payable rid user_id amount s r \<longleftrightarrow>
     r \<in> set (reservations (com s)) \<and> reservation_id r = rid \<and> uuid_str (res_user r) = user_id \<and>
     res_status r = Held \<and> (\<exists>t. expires_at r = Naive t \<and> clk s \<le> t) \<and>
     amount = seats_total (names r) (com s)"

section \<open>What a payment guarantees\<close>

text \<open>Refused before anything was written, and why.\<close>

definition payment_refused :: "uuid \<Rightarrow> string \<Rightarrow> rat \<Rightarrow> vstate \<Rightarrow> exn \<Rightarrow> vstate \<Rightarrow> bool" where
  "payment_refused rid user_id amount s x s' \<longleftrightarrow> com s' = com s \<and>
     (case x of
        ValueError _ \<Rightarrow> uuid_parse user_id = Inl x
      | ReservationNotFoundError _ \<Rightarrow>
          \<not> (\<exists>r \<in> set (reservations (com s)). reservation_id r = rid \<and> uuid_str (res_user r) = user_id)
      | BusinessLogicError _ \<Rightarrow>
          (\<exists>r \<in> set (reservations (com s)). reservation_id r = rid \<and> res_status r \<noteq> Held)
      | ReservationExpiredError _ \<Rightarrow>
          (\<exists>r \<in> set (reservations (com s)). reservation_id r = rid \<and> instant (expires_at r) < clk s')
      | TypeError _ \<Rightarrow>
          (\<exists>r \<in> set (reservations (com s)). reservation_id r = rid \<and> (\<exists>t. expires_at r = Aware t))
      | PaymentAmountMismatchError expected got \<Rightarrow> got = amount \<and> got \<noteq> expected \<and>
          (\<exists>r \<in> set (reservations (com s)). reservation_id r = rid \<and> expected = seats_total (names r) (com s))
      | ExternalError _ \<Rightarrow> True
      | _ \<Rightarrow> False)"

text \<open>
  Failed after the payment row was committed: the gateway declined; or the completion of the
  reservation failed, with the row still pending; or a call failed after the completion.
\<close>

definition payment_broken ::
  "uuid \<Rightarrow> uuid \<Rightarrow> string \<Rightarrow> string \<Rightarrow> rat \<Rightarrow> vstate \<Rightarrow> exn \<Rightarrow> vstate \<Rightarrow> bool" where
  "payment_broken u rid user_id method amount s x s' \<longleftrightarrow>
     (\<exists>r p. payable rid user_id amount s r \<and>
       (payment_row u rid method amount Failed s p \<and> com s' = with_payment p (com s) \<and>
          (x = PG_DECLINED \<or> is_external x) \<or>
        payment_row u rid method amount Pending s p \<and> com s' = with_payment p (com s) \<and>
          (\<exists>m. x = ReservationExpiredError m \<or> x = LockAcquireError m \<or> x = ExternalError m) \<or>
        payment_row u rid method amount Pending s p \<and> com s' = with_payment p (complete_tables r (com s)) \<and>
          is_external x \<or>
        payment_row u rid method amount PaymentCompleted s p \<and>
          com s' = with_payment p (complete_tables r (com s)) \<and> is_external x))"

definition payment_made ::
  "uuid \<Rightarrow> string \<Rightarrow> string \<Rightarrow> rat \<Rightarrow> vstate \<Rightarrow> payment_response \<Rightarrow> vstate \<Rightarrow> bool" where
  "payment_made rid user_id method amount s resp s' \<longleftrightarrow>
     (\<exists>r p u. uuid_parse user_id = Inr u \<and> payable rid user_id amount s r \<and>
       payment_row u rid method amount PaymentCompleted s p \<and>
       com s' = with_payment p (complete_tables r (com s)) \<and> resp = to_payment_response p)"

definition payment_failed :: "uuid \<Rightarrow> string \<Rightarrow> string \<Rightarrow> rat \<Rightarrow> vstate \<Rightarrow> exn \<Rightarrow> vstate \<Rightarrow> bool" where
  "payment_failed rid user_id method amount s x s' \<longleftrightarrow>
     payment_refused rid user_id amount s x s' \<or>
     (\<exists>u. uuid_parse user_id = Inr u \<and> payment_broken u rid user_id method amount s x s')"

section \<open>Proofs\<close>

lemma new_payment_row:
  assumes "distinct (map payment_id (payments t))" and "payment_id p \<notin> payment_id ` set (payments t)"
  shows "q \<in> set (payments (with_payment p t)) \<Longrightarrow> payment_id q = payment_id p \<Longrightarrow> q = p"
    and "distinct (map payment_id (payments (with_payment p t)))"
  using assms by (force simp: image_iff)+

context backend
begin

lemma vc_payment_check:
  assumes fresh: "fresh_session s" and ok: "booking_ok (com s)"
    and checked: "\<And>r t. payable rid user_id amount s r \<Longrightarrow> clk s \<le> t \<Longrightarrow> Q () (remember [r] s\<lparr>clk := t\<rparr>)"
    and refused: "\<And>x s'. payment_refused rid user_id amount s x s' \<Longrightarrow> E x s'"
  shows "vc v (payment_check D T user_id rid amount) Q E s"
proof -
  note ids = booking_okD(2) [OF ok]
  have ses: "ses s = com s" using fresh by (simp add: fresh_session_def)
  have seats: "vc v (named_seats D r) (\<lambda>xs. vc v
      (let expected_amount = total_price xs in
       if amount \<noteq> expected_amount then raising (PaymentAmountMismatchError expected_amount amount) else ret ())
      Q E) E (remember [r] s\<lparr>clk := t\<rparr>)"
    if r: "r \<in> set (reservations (com s))" "reservation_id r = rid" "uuid_str (res_user r) = user_id"
      "res_status r = Held" and t: "clk s \<le> t" "dt_less (expires_at r) (Naive t) = Inr late" "\<not> late" for r t late
  proof -
    obtain us where us: "parse_seat_ids (res_seat_ids r) = Inr us" "\<And>x. seat_id x \<in> set us \<longleftrightarrow> names r x"
      using refers_parse [OF booking_okD(3) [OF ok r(1)]] by blast
    have total: "total_price xs = seats_total (names r) (com s)"
      if "rows_like xs (filter (\<lambda>x. seat_id x \<in> set us) (seats (com s)))" for xs
      using total_price_rows [OF that] us(2) by (simp add: seats_total_def)
    have "\<exists>x. expires_at r = Naive x \<and> clk s \<le> x" using t by (cases "expires_at r") auto
    with r have payable: "payable rid user_id (seats_total (names r) (com s)) s r"
      by (simp add: payable_def)
    show ?thesis
      unfolding named_seats_def us(1) lift_res_simps bnd_ret Let_def
      by (intro vc_q_seats vc_if vc_raising vc_ret refused)
        (use r t payable total ses in \<open>auto simp: payment_refused_def intro!: checked\<close>)
  qed
  show ?thesis
    unfolding payment_check_def
    by (rule vc_find_reservation [OF fresh ids]; (intro vc_if vc_raising vc_bnd vc_utcnow vc_lift_res seats)?)
      (auto simp: payment_refused_def dest: same_key [OF ids] dt_less_late dest!: dt_less_aware
        intro!: refused bexI)
qed

lemma vc_payment_update_new:
  assumes "ses s = with_payment p t" and "com s = with_payment p t"
    and "distinct (map payment_id (payments t))" and "payment_id p \<notin> payment_id ` set (payments t)"
    and "\<And>q. Q q (s\<lparr>ses := with_payment (p\<lparr>pay_status := st\<rparr>) t\<rparr>)"
    and "\<And>m s'. com s' = com s \<Longrightarrow> E (ExternalError m) s'"
  shows "vc v (payment_update_status D (payment_id p) st) Q E s"
  unfolding payment_update_status_def
  by (intro vc_bnd vc_payment_get_by_id; (unfold option.case)?;
      (intro vc_bnd vc_assign_payment_status vc_flush vc_ret)?)
    (use assms new_payment_row [OF assms(3,4)] in \<open>simp_all add: put_payment_status_new image_Un\<close>)

lemma vc_reload_new_payment:
  assumes "ses s = with_payment p t"
    and "distinct (map payment_id (payments t))" and "payment_id p \<notin> payment_id ` set (payments t)"
    and "payment_id q = payment_id p" and "Q p s" and "\<And>m. E (ExternalError m) s"
  shows "vc v (reload_payment D q) Q E s"
  by (rule vc_reload_payment) (use assms new_payment_row(1) [OF assms(2,3)] in auto)

text \<open>The end of a payment: the row that was inserted gets its last status.\<close>

lemma vc_settle:
  assumes t: "ses s' = with_payment p t" "com s' = with_payment p t" "payments t = payments (com s0)"
    and q: "payment_id q = payment_id p"
    and distinct: "distinct (map payment_id (payments (com s0)))"
    and p: "payment_row u rid method amount Pending s0 p"
    and err: "\<And>m s'. com s' = with_payment p t \<Longrightarrow> E (ExternalError m) s'"
    and ok: "\<And>s'. fresh_session s' \<Longrightarrow> com s' = with_payment (p\<lparr>pay_status := st\<rparr>) t \<Longrightarrow> vc v (f p) Q E s'"
  shows "vc v (bnd (reload_payment D q) (\<lambda>p. seqn (payment_update_status D (payment_id p) st) (seqn (commit D) (f p)))) Q E s'"
proof -
  have new: "distinct (map payment_id (payments t))" "payment_id p \<notin> payment_id ` set (payments t)"
    using distinct p t(3) by (simp_all add: payment_row_def)
  show ?thesis
    by (intro vc_bnd vc_reload_new_payment [OF t(1) new] vc_payment_update_new [OF t(1,2) new] vc_commit ok)
      (use t q err in \<open>simp_all add: fresh_session_def\<close>)
qed

text \<open>What follows the gateway's answer, once the pending row is committed.\<close>

lemma vc_charged:
  assumes ok: "booking_ok (com s0)" and distinct: "distinct (map payment_id (payments (com s0)))"
    and payable: "payable rid user_id amount s0 r"
    and fresh: "fresh_session s'" and com: "com s' = with_payment p (com s0)" and q: "payment_id q = payment_id p"
    and p: "payment_row u rid method amount Pending s0 p" and clk: "clk s0 \<le> clk s'"
    and made: "\<And>p s'. payment_row u rid method amount PaymentCompleted s0 p \<Longrightarrow>
      com s' = with_payment p (complete_tables r (com s0)) \<Longrightarrow> Q (to_payment_response p) s'"
    and broken: "\<And>x s'. payment_broken u rid user_id method amount s0 x s' \<Longrightarrow> E x s'"
  shows "vc v (seqn (complete_reservation D R T rid)
      (bnd (reload_payment D q) (\<lambda>p.
       seqn (payment_update_status D (payment_id p) PaymentCompleted)
      (seqn (commit D) (bnd (reload_payment D q) (\<lambda>q. ret (to_payment_response q))))))) Q E s'"
proof (rule vc_bnd)
  have ids: "payments (complete_tables r t) = payments t" for t by (simp add: close_tables_def)
  note r = payable [unfolded payable_def]
  have ok': "booking_ok (com s')" using ok com by simp
  have same: "r' = r" if "r' \<in> set (reservations (com s0))" "reservation_id r' = rid" for r'
    using same_key [OF booking_okD(2) [OF ok] that(1)] r that(2) by blast
  have new: "payment_id p \<notin> payment_id ` set (payments (com s0))" using p by (simp add: payment_row_def)
  have row: "payment_row u rid method amount PaymentCompleted s0 (p\<lparr>pay_status := PaymentCompleted\<rparr>)"
    using p by (simp add: payment_row_def)
  show "vc v (complete_reservation D R T rid)
    (\<lambda>_. vc v (bnd (reload_payment D q) (\<lambda>p.
       seqn (payment_update_status D (payment_id p) PaymentCompleted)
      (seqn (commit D) (bnd (reload_payment D q) (\<lambda>q. ret (to_payment_response q)))))) Q E) E s'"
  proof (rule vc_conseq [OF vc_complete_reservation [OF fresh ok']], goal_cases)
    case (1 r' s'')
    then have "r' = r" by (intro same) (simp_all add: complete_result_def com)
    with 1 have s'': "com s'' = with_payment p (complete_tables r (com s0))" "ses s'' = com s''"
      by (simp_all add: complete_result_def com close_with_payment fresh_session_def)
    show ?case
    proof (rule vc_settle [where p = p and t = "complete_tables r (com s0)" and ?s0.0 = s0], goal_cases)
      case (7 m s')
      then show ?case using payable p by (intro broken) (auto simp: payment_broken_def)
    next
      case (8 s')
      show ?case
        by (intro vc_bnd vc_reload_new_payment [where p = "p\<lparr>pay_status := PaymentCompleted\<rparr>"
              and t = "complete_tables r (com s0)"] vc_ret made broken)
          (use 8 row payable q distinct new in \<open>auto simp: payment_broken_def ids fresh_session_def\<close>)
    qed (use s'' ids q p distinct in simp_all)
  next
    case (2 x s'')
    then show ?case
      using payable p r clk by (intro broken) (auto simp: complete_failed_def payment_broken_def com
          close_with_payment dest: same split: exn.splits)
  qed
qed

lemma vc_declined:
  assumes distinct: "distinct (map payment_id (payments (com s0)))"
    and payable: "payable rid user_id amount s0 r"
    and fresh: "fresh_session s'" and com: "com s' = with_payment p (com s0)" and q: "payment_id q = payment_id p"
    and p: "payment_row u rid method amount Pending s0 p"
    and broken: "\<And>x s'. payment_broken u rid user_id method amount s0 x s' \<Longrightarrow> E x s'"
  shows "vc v (bnd (reload_payment D q) (\<lambda>p.
      seqn (payment_update_status D (payment_id p) Failed) (seqn (commit D) (raising PG_DECLINED)))) Q E s'"
proof (rule vc_settle [where p = p and t = "com s0" and ?s0.0 = s0], goal_cases)
  case (7 m s')
  then show ?case using payable p by (intro broken) (auto simp: payment_broken_def)
next
  case (8 s')
  have "payment_row u rid method amount Failed s0 (p\<lparr>pay_status := Failed\<rparr>)" using p by (simp add: payment_row_def)
  with 8 payable show ?case by (intro vc_raising broken) (auto simp: payment_broken_def)
qed (use com fresh q p distinct in \<open>simp_all add: fresh_session_def\<close>)

lemma vc_payment_charge:
  assumes ses: "ses s = com s" and ok: "booking_ok (com s)"
    and distinct: "distinct (map payment_id (payments (com s)))"
    and payable: "payable rid user_id amount s0 r" and s0: "com s0 = com s" "clk s0 \<le> clk s"
    and made: "\<And>p s'. payment_row u rid method amount PaymentCompleted s0 p \<Longrightarrow>
      com s' = with_payment p (complete_tables r (com s)) \<Longrightarrow> Q (to_payment_response p) s'"
    and broken: "\<And>x s'. payment_broken u rid user_id method amount s0 x s' \<or> is_external x \<and> com s' = com s \<Longrightarrow>
      E x s'"
  shows "vc v (payment_charge D R T u rid method amount) Q E s"
  unfolding payment_charge_def payment_create_def simulate_pg_def
proof (rule vc_bnd, rule vc_insert_payment, rule vc_bnd, rule vc_commit, rule vc_bnd, rule vc_bnd,
    rule vc_random_unit, rule vc_ret, rule vc_if, goal_cases)
  case (1 p q)
  then show ?case
    by (intro vc_charged [where p = "p\<lparr>pay_created_at := column_dt s (pay_created_at p)\<rparr>" and ?s0.0 = s0, OF _ _ payable])
      (use ses s0 ok distinct made broken in \<open>auto simp: fresh_session_def with_payment_def payment_row_def\<close>)
next
  case (2 p q)
  then show ?case
    by (intro vc_declined [where p = "p\<lparr>pay_created_at := column_dt s (pay_created_at p)\<rparr>" and ?s0.0 = s0, OF _ payable])
      (use ses s0 distinct broken in \<open>auto simp: fresh_session_def with_payment_def payment_row_def\<close>)
qed (use ses s0(1) in \<open>auto intro!: broken\<close>)

lemma vc_process_payment:
  assumes fresh: "fresh_session s" and ok: "booking_ok (com s)"
    and distinct: "distinct (map payment_id (payments (com s)))"
  shows "vc v (process_payment D R T user_id rid method amount)
    (payment_made rid user_id method amount s) (payment_failed rid user_id method amount s) s"
proof -
  have ses: "ses s = com s" using fresh by (simp add: fresh_session_def)
  show ?thesis
    unfolding process_payment_def
  proof (intro vc_bnd vc_lift_res vc_payment_check [OF fresh ok], goal_cases)
    case (1 u r t)
    then show ?case
      by (intro vc_payment_charge [where ?s0.0 = s and r = r])
        (use ses ok distinct in \<open>auto simp: payment_made_def payment_failed_def payment_refused_def elim!: is_external.elims\<close>)
  qed ((frule uuid_parse_error)?, auto simp: payment_failed_def payment_refused_def)+
qed

lemma vc_get_payment:
  assumes "ses s = com s" and "distinct (map payment_id (payments (com s)))"
  shows "vc v (get_payment D pid user_id)
    (\<lambda>resp s'. s' = s \<and> (\<exists>p \<in> set (payments (com s)). payment_id p = pid \<and> uuid_str (pay_user p) = user_id \<and>
       resp = to_payment_response p))
    (\<lambda>x s'. s' = s \<and> (is_external x \<or> (\<exists>m. x = ReservationNotFoundError m) \<and>
       \<not> (\<exists>p \<in> set (payments (com s)). payment_id p = pid \<and> uuid_str (pay_user p) = user_id))) s"
  unfolding get_payment_def
  by (rule vc_bnd, rule vc_payment_get_by_id; (unfold option.case)?; (intro vc_if vc_raising vc_ret)?)
    (use assms same_key [OF assms(2)] in auto)

end

section \<open>Properties\<close>



text \<open>A payment never breaks the booking invariant, whatever fails: no seat is sold to two
  reservations.\<close>

lemma process_payment_keeps_invariant:
  assumes "backend R D T v" and "fresh_session (v w)" and "booking_ok (com (v w))"
    and "distinct (map payment_id (payments (com (v w))))"
  shows "wp (process_payment D R T user_id rid method amount)
    (\<lambda>resp w'. booking_ok (com (v w'))) (\<lambda>x w'. booking_ok (com (v w'))) w"
proof -
  have complete: "booking_ok (complete_tables r (com (v w)))" if "payable rid user_id amount (v w) r" for r
    using that assms(3) by (intro booking_ok_complete) (simp_all add: payable_def)
  show ?thesis
    by (rule wp_mono [OF vcD [OF backend.vc_process_payment [OF assms]]])
      (use complete assms(3) in \<open>auto simp: payment_made_def payment_failed_def payment_refused_def
        payment_broken_def split: exn.splits\<close>)
qed

lemma process_payment_keeps_invariant_witness:
  "wp (process_payment mem_db mem_redis mem_runtime (uuid_str 7) 5 ''card'' 0)
     (\<lambda>resp w'. booking_ok (com (mview w'))) (\<lambda>x w'. booking_ok (com (mview w'))) (start_mem held_tables)"
  by (rule process_payment_keeps_invariant [OF mem_backend])
    (simp_all add: sample_booking_ok, simp add: held_tables_def sample_tables_def)

text \<open>A payment is found by its owner only, and looking it up changes nothing.\<close>

lemma get_payment_outcome:
  assumes "backend R D T v" and "fresh_session (v w)" and "distinct (map payment_id (payments (com (v w))))"
  shows "wp (get_payment D pid user_id)
    (\<lambda>resp w'. v w' = v w \<and> (\<exists>p \<in> set (payments (com (v w))). payment_id p = pid \<and>
       uuid_str (pay_user p) = user_id \<and> resp = to_payment_response p))
    (\<lambda>x w'. v w' = v w \<and> (is_external x \<or> (\<exists>m. x = ReservationNotFoundError m) \<and>
       \<not> (\<exists>p \<in> set (payments (com (v w))). payment_id p = pid \<and> uuid_str (pay_user p) = user_id))) w"
  by (rule vcD [OF backend.vc_get_payment [OF assms(1)]]) (use assms in \<open>simp_all add: fresh_session_def\<close>)

lemma get_payment_outcome_witness:
  "wp (get_payment mem_db 3 (uuid_str 7)) (\<lambda>resp w'. False)
     (\<lambda>x w'. mview w' = start_view held_tables) (start_mem held_tables)"
  by (rule wp_mono [OF get_payment_outcome [OF mem_backend]])
    (auto simp: held_tables_def sample_tables_def)

end
