(* ===== verification/Ledger.thy ===== *)
theory Ledger
  imports Payment_Service
begin

text \<open>
  The abstract specification of the whole booking side: the only changes any request or background task
  makes to the tables are steps of \<open>table_step\<close>. What holds along a sequence of such steps, whoever
  takes them, is proved here once; \<open>Histories\<close> shows that the program takes no other steps.
\<close>

section \<open>Steps of the tables\<close>

definition may_hold :: "uuid list \<Rightarrow> reservation \<Rightarrow> tables \<Rightarrow> bool" where
  "may_hold ids row t \<longleftrightarrow>
     reservation_id row \<notin> reservation_id ` set (reservations t) \<and> res_status row = Held \<and>
     set (res_seat_ids row) = uuid_str ` set ids \<and>
     (\<forall>i \<in> set ids. \<exists>x \<in> set (seats t). seat_id x = i \<and> seat_event x = res_event row \<and> seat_status x = Available)"

definition pays_for :: "payment \<Rightarrow> reservation \<Rightarrow> tables \<Rightarrow> bool" where
  "pays_for p r t \<longleftrightarrow> pay_reservation p = reservation_id r \<and> pay_user p = res_user r \<and>
     pay_amount p = seats_total (names r) t \<and> pay_status p \<noteq> Failed"

inductive table_step :: "tables \<Rightarrow> tables \<Rightarrow> bool" where
  hold: "may_hold ids row t \<Longrightarrow> table_step t (hold_tables ids until row t)"
| cancel: "r \<in> set (reservations t) \<Longrightarrow> res_status r = Held \<Longrightarrow> table_step t (cancel_tables r t)"
| try_pay: "payment_id p \<notin> payment_id ` set (payments t) \<Longrightarrow> table_step t (with_payment p t)"
| sell: "r \<in> set (reservations t) \<Longrightarrow> res_status r = Held \<Longrightarrow> pays_for p r t \<Longrightarrow>
    payment_id p \<notin> payment_id ` set (payments t) \<Longrightarrow> table_step t (with_payment p (complete_tables r t))"

abbreviation table_steps :: "tables \<Rightarrow> tables \<Rightarrow> bool" where
  "table_steps \<equiv> table_step\<^sup>*\<^sup>*"

inductive_cases table_stepE [elim?]: "table_step t t'"

section \<open>What a step keeps\<close>

text \<open>The booking invariant, payments with keys of their own, and every sale paid for in full by its holder.\<close>

definition ledger_ok :: "tables \<Rightarrow> bool" where
  "ledger_ok t \<longleftrightarrow> booking_ok t \<and> distinct (map payment_id (payments t)) \<and>
     (\<forall>r \<in> set (reservations t). res_status r = Completed \<longrightarrow> (\<exists>p \<in> set (payments t). pays_for p r t))"

text \<open>The seats on sale, with their prices, and the sales made.\<close>

definition price_list :: "tables \<Rightarrow> (uuid \<times> uuid \<times> rat) list" where
  "price_list t = map (\<lambda>x. (seat_id x, seat_event x, price x)) (seats t)"

definition sales_kept :: "tables \<Rightarrow> tables \<Rightarrow> bool" where
  "sales_kept t t' \<longleftrightarrow>
     (\<forall>r \<in> set (reservations t). res_status r = Completed \<longrightarrow> r \<in> set (reservations t') \<and>
        (\<forall>x \<in> set (seats t). names r x \<longrightarrow> x \<in> set (seats t')))"

lemma table_step_prices: "table_step t t' \<Longrightarrow> price_list t' = price_list t"
  by (erule table_stepE) (simp_all add: hold_tables_def close_tables_def price_list_def comp_def if_distrib cong: if_cong)

lemma seats_total_prices:
  assumes "price_list t' = price_list t"
  shows "seats_total (names r) t' = seats_total (names r) t"
proof -
  have "seats_total (names r) u =
      sum_list (map (snd \<circ> snd) (filter (\<lambda>(i, _). uuid_str i \<in> set (res_seat_ids r)) (price_list u)))" for u
    by (simp add: seats_total_def price_list_def names_def [abs_def] filter_map comp_def)
  then show ?thesis by (simp add: assms)
qed

lemma table_step_booking_ok: "table_step t t' \<Longrightarrow> booking_ok t \<Longrightarrow> booking_ok t'"
proof (induction rule: table_step.induct)
  case (hold ids row t until)
  have free: "seat_status x = Available" if "x \<in> set (seats t)" "seat_id x \<in> set ids" for x
  proof -
    from that hold.hyps obtain y where "y \<in> set (seats t)" "seat_id y = seat_id x" "seat_status y = Available"
      by (auto simp: may_hold_def)
    with same_key [OF booking_okD(1) [OF hold.prems] that(1)] show ?thesis by metis
  qed
  show ?case
  proof (rule booking_ok_hold)
    show "set (res_seat_ids row) = {uuid_str (seat_id x) | x. x \<in> set (seats t) \<and> seat_id x \<in> set ids \<and>
        seat_event x = res_event row}"
      using hold.hyps by (fastforce simp: may_hold_def image_iff)
  qed (use hold free in \<open>auto simp: may_hold_def\<close>)
qed (auto intro: booking_ok_cancel booking_ok_complete)

lemma two_holders:
  assumes "booking_ok t" and "x \<in> set (seats t)"
    and "r \<in> set (reservations t)" "names r x" "res_status r \<noteq> Cancelled"
    and "q \<in> set (reservations t)" "names q x" "res_status q \<noteq> Cancelled"
  shows "r = q"
proof -
  have "{r, q} \<subseteq> set (holders t x)" using assms by (auto simp: holders_def)
  with booking_okD(4) [OF assms(1,2)] show ?thesis by (auto simp: seat_ok_def split: list.splits)
qed

lemma sold_status:
  assumes "booking_ok t" and "x \<in> set (seats t)" and "r \<in> set (reservations t)" "names r x" "res_status r = Completed"
  shows "seat_status x = Sold"
proof -
  have "r \<in> set (holders t x)" using assms by (auto simp: holders_def)
  with booking_okD(4) [OF assms(1,2)] assms(5) show ?thesis by (auto simp: seat_ok_def split: list.splits)
qed

lemma sales_kept_close:
  assumes "booking_ok t" and "q \<in> set (reservations t)" "res_status q = Held"
  shows "sales_kept t (close_tables st f q t)"
  unfolding sales_kept_def
proof (intro ballI impI conjI)
  fix r
  assume r: "r \<in> set (reservations t)" "res_status r = Completed"
  have "reservation_id r \<noteq> reservation_id q"
    using same_key [OF booking_okD(2) [OF assms(1)] r(1) assms(2)] r(2) assms(3) by auto
  with r show "r \<in> set (reservations (close_tables st f q t))" by (auto simp: close_tables_def image_iff)
  fix x
  assume x: "x \<in> set (seats t)" "names r x"
  have "\<not> names q x"
    using two_holders [OF assms(1) x(1) r(1) x(2) _ assms(2)] r(2) assms(3) by auto
  with x show "x \<in> set (seats (close_tables st f q t))" by (force simp: close_tables_def image_iff)
qed

lemma table_step_sales_kept: "table_step t t' \<Longrightarrow> booking_ok t \<Longrightarrow> sales_kept t t'"
proof (induction rule: table_step.induct)
  case (hold ids row t until)
  have "seat_id x \<notin> set ids" if "x \<in> set (seats t)" "r \<in> set (reservations t)" "names r x" "res_status r = Completed" for r x
  proof
    assume "seat_id x \<in> set ids"
    with hold.hyps obtain y where y: "y \<in> set (seats t)" "seat_id y = seat_id x" "seat_status y = Available"
      by (auto simp: may_hold_def)
    with same_key [OF booking_okD(1) [OF hold.prems] y(1) that(1)] sold_status [OF hold.prems that] show False by simp
  qed
  then show ?case by (force simp: sales_kept_def hold_tables_def image_iff)
next
  case (sell r t p)
  from sales_kept_close [OF sell.prems sell.hyps(1,2)] show ?case by (simp add: sales_kept_def)
qed (auto intro: sales_kept_close, auto simp: sales_kept_def)

lemma pays_for_prices: "price_list t' = price_list t \<Longrightarrow> pays_for p r t' = pays_for p r t"
  using seats_total_prices [of t' t r] by (simp add: pays_for_def)

lemma payments_of_changes [simp]:
  "payments (hold_tables ids until r t) = payments t" "payments (close_tables st f r t) = payments t"
  by (simp_all add: hold_tables_def close_tables_def)

text \<open>A sale in the new tables was made before, or it is the one of this step.\<close>

lemma table_step_new_sales:
  assumes "table_step t t'" and ok: "booking_ok t" and r: "r \<in> set (reservations t')" "res_status r = Completed"
  shows "r \<in> set (reservations t) \<or> (\<exists>p \<in> set (payments t'). pays_for p r t')"
  using assms(1)
proof (cases rule: table_step.cases)
  case (sell q p)
  show ?thesis
  proof (cases "reservation_id r = reservation_id q")
    case True
    with r sell(1) obtain q' where q': "q' \<in> set (reservations t)" "reservation_id q' = reservation_id q"
      "r = q'\<lparr>res_status := Completed\<rparr>" by (auto simp: close_tables_def split: if_splits)
    then have "q' = q" using same_key [OF booking_okD(2) [OF ok] q'(1) sell(2)] by simp
    moreover have "names r = names q'" unfolding q'(3) by (rule ext) simp
    ultimately have "pays_for p r t" using sell(4) q'(3) by (simp add: pays_for_def)
    then have "pays_for p r t'" using pays_for_prices [OF table_step_prices [OF assms(1)]] by simp
    then show ?thesis using sell(1) by auto
  qed (use r sell in \<open>auto simp: close_tables_def split: if_splits\<close>)
qed (use r in \<open>auto simp: hold_tables_def close_tables_def may_hold_def split: if_splits\<close>)

lemma table_step_payments:
  "table_step t t' \<Longrightarrow> set (payments t) \<subseteq> set (payments t') \<and>
    (distinct (map payment_id (payments t)) \<longrightarrow> distinct (map payment_id (payments t')))"
  by (erule table_stepE) auto

lemma table_step_ledger_ok:
  assumes "table_step t t'" and "ledger_ok t"
  shows "ledger_ok t'"
proof -
  have ok: "booking_ok t" using assms(2) by (simp add: ledger_ok_def)
  have "\<exists>p \<in> set (payments t'). pays_for p r t'" if r: "r \<in> set (reservations t')" "res_status r = Completed" for r
    using table_step_new_sales [OF assms(1) ok r]
  proof
    assume "r \<in> set (reservations t)"
    with r(2) assms(2) obtain p where "p \<in> set (payments t)" "pays_for p r t" by (auto simp: ledger_ok_def)
    with table_step_payments [OF assms(1)] show ?thesis
      by (auto simp: pays_for_prices [OF table_step_prices [OF assms(1)]])
  qed
  with table_step_booking_ok [OF assms(1) ok] table_step_payments [OF assms(1)] assms(2) show ?thesis
    by (simp add: ledger_ok_def)
qed

section \<open>Along a sequence of steps\<close>

lemma sales_kept_trans: "sales_kept t t' \<Longrightarrow> sales_kept t' t'' \<Longrightarrow> sales_kept t t''"
  by (auto simp: sales_kept_def)

lemma table_steps_ledger_ok: "table_steps t t' \<Longrightarrow> ledger_ok t \<Longrightarrow> ledger_ok t'"
  by (induction rule: rtranclp_induct) (auto intro: table_step_ledger_ok)

lemma table_steps_prices: "table_steps t t' \<Longrightarrow> price_list t' = price_list t"
  by (induction rule: rtranclp_induct) (auto dest: table_step_prices)

lemma table_steps_sales_kept: "table_steps t t' \<Longrightarrow> ledger_ok t \<Longrightarrow> sales_kept t t'"
proof (induction rule: rtranclp_induct)
  case (step t' t'')
  have "booking_ok t'" using table_steps_ledger_ok [OF step(1) step(4)] by (simp add: ledger_ok_def)
  with step table_step_sales_kept show ?case by (auto intro: sales_kept_trans)
qed (simp add: sales_kept_def)

text \<open>The releases of \<open>Reservation_Closing\<close> are sequences of cancellations.\<close>

lemma cancels_steps: "cancels P t n t' \<Longrightarrow> table_steps t t'"
  by (induction rule: cancels.induct) (auto intro: rtranclp.rtrancl_into_rtrancl table_step.cancel)

lemma hold_committed_step: "hold_committed ids u ev s row s' \<Longrightarrow> table_steps (com s) (com s')"
  by (auto simp: hold_committed_def may_hold_def intro!: r_into_rtranclp table_step.hold)

end
