(* ===== verification/Auth.thy ===== *)
theory Auth
  imports Mem_Backend
begin

text \<open>
  Tokens and the request guards built on them: \<open>src/auth/token.py\<close>,
  \<open>src/services/token_service.py\<close>, and the two dependencies of \<open>src/dependencies.py\<close> that
  read a token from a request. The JWT library is a parameter, with its documented round trip
  and expiry as laws. A claim set is the dictionary given to \<open>jwt.encode\<close>.
\<close>

section \<open>The JWT library\<close>

datatype claim = CStr string | CInt int | CNull | CTime int

type_synonym claims = "(string \<times> claim) list"

record jwt_lib =
  jwt_encode :: "claims \<Rightarrow> string \<Rightarrow> string \<Rightarrow> string"
  jwt_decode :: "string \<Rightarrow> string \<Rightarrow> string list \<Rightarrow> int \<Rightarrow> exn + claims"

text \<open>Encoding turns a \<open>datetime\<close> claim into seconds since the epoch.\<close>

fun numeric_date :: "claim \<Rightarrow> claim" where
  "numeric_date (CTime t) = CInt (t div 1000000)"
| "numeric_date c = c"

definition numeric_dates :: "claims \<Rightarrow> claims" where
  "numeric_dates c = map (\<lambda>(k, x). (k, numeric_date x)) c"

text \<open>A claim set with an \<open>exp\<close> in seconds has expired when that lies before the clock's second.\<close>

definition expired :: "claims \<Rightarrow> int \<Rightarrow> bool" where
  "expired c now \<longleftrightarrow>
     (case map_of c ''exp'' of Some (CInt s) \<Rightarrow> s < now div 1000000 | _ \<Rightarrow> False)"

locale jwt_laws =
  fixes J :: jwt_lib
  assumes roundtrip: "\<not> expired (numeric_dates c) now \<Longrightarrow> alg \<in> set algs \<Longrightarrow>
      jwt_decode J (jwt_encode J c key alg) key algs now = Inr (numeric_dates c)"
    and expiry: "expired (numeric_dates c) now \<Longrightarrow>
      \<exists>m. jwt_decode J (jwt_encode J c key alg) key algs now = Inl (JWTError m)"
    and compact: "c' \<in> set (jwt_encode J c key alg) \<Longrightarrow> \<not> is_space c'"
    and nonempty: "jwt_encode J c key alg \<noteq> []"
    and only_jwt_errors: "jwt_decode J t key algs now = Inl e \<Longrightarrow> \<exists>m. e = JWTError m"

section \<open>token.py\<close>

definition hours :: "int \<Rightarrow> int" where
  "hours n = n * 3600 * 1000000"

definition position_claim :: "nat option \<Rightarrow> claim" where
  "position_claim p = (case p of None \<Rightarrow> CNull | Some n \<Rightarrow> CInt (int n))"

definition queue_claims :: "string \<Rightarrow> string \<Rightarrow> nat option \<Rightarrow> int \<Rightarrow> claims" where
  "queue_claims user_id event_id position expire =
     [(''sub'', CStr user_id), (''event_id'', CStr event_id), (''position'', position_claim position),
      (''type'', CStr ''queue''), (''exp'', CTime expire)]"

definition access_claims :: "string \<Rightarrow> string \<Rightarrow> int \<Rightarrow> claims" where
  "access_claims user_id event_id expire =
     [(''sub'', CStr user_id), (''event_id'', CStr event_id), (''type'', CStr ''access''),
      (''exp'', CTime expire)]"

definition create_queue_token ::
  "jwt_lib \<Rightarrow> settings \<Rightarrow> 'w runtime \<Rightarrow> string \<Rightarrow> string \<Rightarrow> nat option \<Rightarrow> ('w, string) py" where
  "create_queue_token J cfg T user_id event_id position =
     bnd (utcnow T) (\<lambda>now.
     let expire = now + hours (queue_token_expiration_hours cfg) in
     ret (jwt_encode J (queue_claims user_id event_id position expire) (secret_key cfg)
       (jwt_algorithm cfg)))"

definition create_access_token ::
  "jwt_lib \<Rightarrow> settings \<Rightarrow> 'w runtime \<Rightarrow> string \<Rightarrow> string \<Rightarrow> ('w, string) py" where
  "create_access_token J cfg T user_id event_id =
     bnd (utcnow T) (\<lambda>now.
     let expire = now + hours (jwt_expiration_hours cfg) in
     ret (jwt_encode J (access_claims user_id event_id expire) (secret_key cfg)
       (jwt_algorithm cfg)))"

definition decode_token ::
  "jwt_lib \<Rightarrow> settings \<Rightarrow> 'w runtime \<Rightarrow> string \<Rightarrow> ('w, claims) py" where
  "decode_token J cfg T token =
     bnd (utcnow T) (\<lambda>now.
     case jwt_decode J token (secret_key cfg) [jwt_algorithm cfg] now of
       Inr c \<Rightarrow> ret c
     | Inl (JWTError m) \<Rightarrow> raising (ValueError (''Invalid or expired token: '' @ m))
     | Inl e \<Rightarrow> raising e)"

section \<open>The guards of dependencies.py\<close>

definition unauthorized :: "string \<Rightarrow> exn" where
  "unauthorized detail = HTTPException 401 detail"

text \<open>The token of a header \<open>Bearer <token>\<close>; the scheme is matched without regard to case.\<close>

definition bearer_token :: "string \<Rightarrow> ('w, string) py" where
  "bearer_token authorization =
     (let auth_header = py_strip authorization in
      if \<not> starts_with ''bearer '' (py_lower auth_header)
      then raising (unauthorized ''Invalid authorization header format'')
      else ret (drop 7 auth_header))"

definition value_error_as_401 :: "exn \<Rightarrow> exn" where
  "value_error_as_401 e = (case e of ValueError m \<Rightarrow> unauthorized m | _ \<Rightarrow> e)"

definition checked_claims ::
  "jwt_lib \<Rightarrow> settings \<Rightarrow> 'w runtime \<Rightarrow> string \<Rightarrow> string \<Rightarrow> string \<Rightarrow> ('w, claims) py" where
  "checked_claims J cfg T token wanted detail =
     bnd (try_except (decode_token J cfg T token) (\<lambda>e. raising (value_error_as_401 e))) (\<lambda>payload.
     if map_of payload ''type'' \<noteq> Some (CStr wanted) then raising (unauthorized detail)
     else ret payload)"

definition get_current_user ::
  "jwt_lib \<Rightarrow> settings \<Rightarrow> 'w runtime \<Rightarrow> string \<Rightarrow> ('w, claims) py" where
  "get_current_user J cfg T authorization =
     bnd (bearer_token authorization) (\<lambda>token.
     checked_claims J cfg T token ''access'' ''Access token required'')"

definition truthy :: "string option \<Rightarrow> bool" where
  "truthy s \<longleftrightarrow> s \<noteq> None \<and> s \<noteq> Some []"

definition get_user_from_queue_token ::
  "jwt_lib \<Rightarrow> settings \<Rightarrow> 'w runtime \<Rightarrow> string option \<Rightarrow> string option \<Rightarrow> ('w, claims) py" where
  "get_user_from_queue_token J cfg T authorization queue_token =
     bnd (if truthy authorization then bearer_token (the authorization)
          else if truthy queue_token then ret (the queue_token)
          else raising (unauthorized
            ''Queue token required (Authorization header or queue_token param)'')) (\<lambda>token.
     checked_claims J cfg T token ''queue'' ''Queue token required'')"

section \<open>An encoding\<close>

text \<open>
  A concrete library for examples: it writes the key and the claims out, so that the token can be
  read back, and accepts a token only under the key it was made with.
\<close>

fun ser_nat :: "nat \<Rightarrow> string" where
  "ser_nat n = (if n = 0 then ''0'' else (if even n then CHR ''E'' else CHR ''O'') # ser_nat (n div 2))"

declare ser_nat.simps [simp del]

fun par_nat :: "string \<Rightarrow> nat \<times> string" where
  "par_nat [] = (0, [])"
| "par_nat (c # cs) =
     (if c = CHR ''E'' then (case par_nat cs of (n, r) \<Rightarrow> (2 * n, r))
      else if c = CHR ''O'' then (case par_nat cs of (n, r) \<Rightarrow> (2 * n + 1, r))
      else (0, cs))"

fun ser_string :: "string \<Rightarrow> string" where
  "ser_string [] = ''Z''"
| "ser_string (c # cs) = CHR ''C'' # ser_nat (char_code c) @ ser_string cs"

function par_string :: "string \<Rightarrow> string \<times> string" where
  "par_string [] = ([], [])"
| "par_string (m # cs) =
     (if m = CHR ''C'' then
        (case par_nat cs of (n, r) \<Rightarrow>
          if length r \<le> length cs
          then (case par_string r of (s, r') \<Rightarrow> (char_of n # s, r')) else ([], cs))
      else ([], cs))"
  by pat_completeness auto
termination by (relation "measure length") auto

definition ser_int :: "int \<Rightarrow> string" where
  "ser_int i = (if i < 0 then CHR ''N'' # ser_nat (nat (- i)) else CHR ''P'' # ser_nat (nat i))"

definition par_int :: "string \<Rightarrow> int \<times> string" where
  "par_int s = (case s of [] \<Rightarrow> (0, [])
     | c # cs \<Rightarrow> (case par_nat cs of (n, r) \<Rightarrow> (if c = CHR ''N'' then - int n else int n, r)))"

fun ser_claim :: "claim \<Rightarrow> string" where
  "ser_claim (CStr s) = CHR ''S'' # ser_string s"
| "ser_claim (CInt i) = CHR ''I'' # ser_int i"
| "ser_claim CNull = ''Z''"
| "ser_claim (CTime i) = CHR ''T'' # ser_int i"

fun par_claim :: "string \<Rightarrow> claim \<times> string" where
  "par_claim [] = (CNull, [])"
| "par_claim (c # cs) =
     (if c = CHR ''S'' then map_prod CStr id (par_string cs)
      else if c = CHR ''I'' then map_prod CInt id (par_int cs)
      else if c = CHR ''T'' then map_prod CTime id (par_int cs)
      else (CNull, cs))"

definition ser_claims :: "claims \<Rightarrow> string" where
  "ser_claims c = ser_nat (length c) @ concat (map (\<lambda>(k, x). ser_string k @ ser_claim x) c)"

fun par_pairs :: "nat \<Rightarrow> string \<Rightarrow> claims" where
  "par_pairs 0 s = []"
| "par_pairs (Suc n) s =
     (case par_string s of (k, s1) \<Rightarrow> case par_claim s1 of (x, s2) \<Rightarrow> (k, x) # par_pairs n s2)"

definition par_claims :: "string \<Rightarrow> claims" where
  "par_claims s = (case par_nat s of (n, r) \<Rightarrow> par_pairs n r)"

definition plain_jwt :: jwt_lib where
  "plain_jwt =
     \<lparr>jwt_encode = (\<lambda>c key alg. ser_string key @ ser_string alg @ ser_claims (numeric_dates c)),
      jwt_decode = (\<lambda>t key algs now.
        case par_string t of (k, t1) \<Rightarrow> case par_string t1 of (alg, t2) \<Rightarrow>
          if k \<noteq> key \<or> alg \<notin> set algs then Inl (JWTError ''Signature verification failed.'')
          else if expired (par_claims t2) now then Inl (JWTError ''Signature has expired.'')
          else Inr (par_claims t2))\<rparr>"

lemma par_nat_ser [simp]: "par_nat (ser_nat n @ r) = (n, r)"
proof (induction n rule: ser_nat.induct)
  case (1 n)
  then show ?case
    by (cases "n = 0") (auto simp: ser_nat.simps [of n] ser_nat.simps [of 0])
qed

lemma par_string_ser [simp]: "par_string (ser_string s @ r) = (s, r)"
  by (induction s) (auto simp: char_code_def)

lemma par_int_ser [simp]: "par_int (ser_int i @ r) = (i, r)"
  by (simp add: par_int_def ser_int_def)

lemma par_claim_ser [simp]: "par_claim (ser_claim c @ r) = (c, r)"
  by (cases c) auto

lemma par_pairs_ser [simp]:
  "par_pairs (length c) (concat (map (\<lambda>(k, x). ser_string k @ ser_claim x) c)) = c"
  by (induction c) auto

lemma par_claims_ser [simp]: "par_claims (ser_claims c) = c"
  by (simp add: par_claims_def ser_claims_def)

definition letters :: "string" where
  "letters = ''0EOCZNPSIT''"

lemma letters_ser_nat: "set (ser_nat n) \<subseteq> set letters"
proof (induction n rule: ser_nat.induct)
  case (1 n)
  then show ?case by (cases "n = 0") (auto simp: ser_nat.simps [of n] ser_nat.simps [of 0] letters_def)
qed

lemma letters_ser_string: "set (ser_string s) \<subseteq> set letters"
  by (induction s) (use letters_ser_nat in \<open>auto simp: letters_def\<close>)

lemma letters_ser_int: "set (ser_int i) \<subseteq> set letters"
  using letters_ser_nat by (auto simp: ser_int_def letters_def)

lemma letters_ser_claims: "set (ser_claims c) \<subseteq> set letters"
proof -
  have "set (ser_claim x) \<subseteq> set letters" for x
    using letters_ser_string letters_ser_int by (cases x) (auto simp: letters_def)
  then show ?thesis
    using letters_ser_nat [THEN subsetD] letters_ser_string [THEN subsetD] by (auto simp: ser_claims_def)
qed

lemma letters_not_space: "c \<in> set letters \<Longrightarrow> \<not> is_space c"
  by (auto simp: letters_def is_space_def char_code_def)

lemma plain_jwt_laws: "jwt_laws plain_jwt"
proof unfold_locales
  show "\<not> is_space c'" if "c' \<in> set (jwt_encode plain_jwt c key alg)" for c' c key alg
    using that letters_ser_string letters_ser_claims
    by (intro letters_not_space) (auto simp: plain_jwt_def)
next
  show "jwt_encode plain_jwt c key alg \<noteq> []" for c key alg
    by (cases key) (simp_all add: plain_jwt_def)
qed (auto simp: plain_jwt_def split: prod.splits if_splits)

interpretation plain: jwt_laws plain_jwt by (rule plain_jwt_laws)

section \<open>Properties\<close>

lemma strip_bearer:
  assumes "\<And>c. c \<in> set t \<Longrightarrow> \<not> is_space c" and "t \<noteq> []"
  shows "py_strip (''Bearer '' @ t) = ''Bearer '' @ t"
proof -
  from assms obtain c cs where t: "rev t = c # cs" "\<not> is_space c"
    by (cases "rev t") (auto dest: arg_cong [where f = set])
  have "\<not> is_space (CHR ''B'')" by (simp add: is_space_def char_code_def)
  with t show ?thesis by (simp add: py_strip_def strip_chars_def)
qed

lemma lower_B: "lower_char (CHR ''B'') = CHR ''b''"
  by code_simp

lemma bearer_lower: "starts_with ''bearer '' (py_lower (''Bearer '' @ t))"
  by (simp add: starts_with_def py_lower_def lower_B) (simp add: lower_char_def char_code_def)

lemma bearer_token_Bearer:
  assumes "\<And>c. c \<in> set t \<Longrightarrow> \<not> is_space c" and "t \<noteq> []"
  shows "bearer_token (''Bearer '' @ t) = ret t"
proof -
  have "py_strip (''Bearer '' @ t) = ''Bearer '' @ t" using assms by (rule strip_bearer)
  with bearer_lower [of t] show ?thesis unfolding bearer_token_def by (simp add: Let_def)
qed

text \<open>Every failure of \<open>decode_token\<close> becomes a 401, and a token of the wrong type is one.\<close>

lemma vc_decode_token:
  assumes "jwt_laws J" and "runtime_laws T v"
    and "\<And>now c. clk s \<le> now \<Longrightarrow>
      jwt_decode J t (secret_key cfg) [jwt_algorithm cfg] now = Inr c \<Longrightarrow> Q c (s\<lparr>clk := now\<rparr>)"
    and "\<And>now m. clk s \<le> now \<Longrightarrow>
      jwt_decode J t (secret_key cfg) [jwt_algorithm cfg] now = Inl (JWTError m) \<Longrightarrow>
      E (ValueError (''Invalid or expired token: '' @ m)) (s\<lparr>clk := now\<rparr>)"
  shows "vc v (decode_token J cfg T t) Q E s"
  unfolding decode_token_def
proof (rule vc_bnd, rule runtime_laws.vc_utcnow [OF assms(2)])
  fix now
  assume later: "clk s \<le> now"
  show "vc v (case jwt_decode J t (secret_key cfg) [jwt_algorithm cfg] now of
       Inr c \<Rightarrow> ret c
     | Inl (JWTError m) \<Rightarrow> raising (ValueError (''Invalid or expired token: '' @ m))
     | Inl e \<Rightarrow> raising e) Q E (s\<lparr>clk := now\<rparr>)"
  proof (cases "jwt_decode J t (secret_key cfg) [jwt_algorithm cfg] now")
    case (Inl e)
    with jwt_laws.only_jwt_errors [OF assms(1)] obtain m where "e = JWTError m" by blast
    with Inl later assms(4) show ?thesis by (auto intro: vc_raising)
  next
    case (Inr c)
    with later assms(3) show ?thesis by (auto intro: vc_ret)
  qed
qed

lemma vc_checked_claims:
  assumes "jwt_laws J" and "runtime_laws T v"
    and "\<And>now c. clk s \<le> now \<Longrightarrow>
      jwt_decode J t (secret_key cfg) [jwt_algorithm cfg] now = Inr c \<Longrightarrow>
      map_of c ''type'' = Some (CStr wanted) \<Longrightarrow> Q c (s\<lparr>clk := now\<rparr>)"
    and "\<And>now c. clk s \<le> now \<Longrightarrow>
      jwt_decode J t (secret_key cfg) [jwt_algorithm cfg] now = Inr c \<Longrightarrow>
      map_of c ''type'' \<noteq> Some (CStr wanted) \<Longrightarrow> E (HTTPException 401 detail) (s\<lparr>clk := now\<rparr>)"
    and "\<And>now m. clk s \<le> now \<Longrightarrow>
      jwt_decode J t (secret_key cfg) [jwt_algorithm cfg] now = Inl (JWTError m) \<Longrightarrow>
      E (HTTPException 401 (''Invalid or expired token: '' @ m)) (s\<lparr>clk := now\<rparr>)"
  shows "vc v (checked_claims J cfg T t wanted detail) Q E s"
  unfolding checked_claims_def
proof (intro vc_bnd vc_try_except vc_decode_token [OF assms(1,2)] vc_raising vc_if vc_ret)
  fix now m
  assume "clk s \<le> now" and "jwt_decode J t (secret_key cfg) [jwt_algorithm cfg] now = Inl (JWTError m)"
  from assms(5) [OF this]
  show "E (value_error_as_401 (ValueError (''Invalid or expired token: '' @ m))) (s\<lparr>clk := now\<rparr>)"
    by (simp only: value_error_as_401_def unauthorized_def exn.case)
qed (use assms(3,4) in \<open>auto simp: unauthorized_def\<close>)

text \<open>C19: whatever the header, \<open>get_current_user\<close> either returns claims of type \<open>access\<close> or
  raises an HTTP 401, and it leaves the database and Redis alone.\<close>

theorem get_current_user_guards:
  assumes "jwt_laws J" and "runtime_laws T v"
  shows "wp (get_current_user J cfg T authorization)
    (\<lambda>c w'. map_of c ''type'' = Some (CStr ''access'') \<and> v w' = (v w)\<lparr>clk := clk (v w')\<rparr>)
    (\<lambda>e w'. (\<exists>detail. e = HTTPException 401 detail) \<and> v w' = (v w)\<lparr>clk := clk (v w')\<rparr>) w"
proof -
  have "vc v (get_current_user J cfg T authorization)
    (\<lambda>c s'. map_of c ''type'' = Some (CStr ''access'') \<and> s' = (v w)\<lparr>clk := clk s'\<rparr>)
    (\<lambda>e s'. (\<exists>detail. e = HTTPException 401 detail) \<and> s' = (v w)\<lparr>clk := clk s'\<rparr>) (v w)"
    unfolding get_current_user_def bearer_token_def Let_def
    by (intro vc_bnd vc_if vc_ret vc_raising vc_checked_claims [OF assms]) (auto simp: unauthorized_def)
  then show ?thesis by (rule vcD)
qed

theorem get_current_user_guards_witness:
  "jwt_laws plain_jwt \<and> runtime_laws mem_runtime mview \<and>
   wp (get_current_user plain_jwt (default_settings ''db'' ''s'') mem_runtime ''Basic x'') (\<lambda>c w'. True)
     (\<lambda>e w'. \<exists>detail. e = HTTPException 401 detail) (start_mem empty_tables)"
proof -
  have "wp (get_current_user plain_jwt (default_settings ''db'' ''s'') mem_runtime ''Basic x'') (\<lambda>c w'. True)
     (\<lambda>e w'. \<exists>detail. e = HTTPException 401 detail) (start_mem empty_tables)"
    by (rule wp_mono [OF get_current_user_guards [OF plain_jwt_laws mem_runtime_laws]]) auto
  then show ?thesis by (simp add: plain_jwt_laws mem_runtime_laws)
qed

text \<open>The claims of the two kinds of token, as they are read back.\<close>

lemma access_claims_numeric:
  "map_of (numeric_dates (access_claims u e ex)) ''type'' = Some (CStr ''access'')"
  "map_of (numeric_dates (access_claims u e ex)) ''sub'' = Some (CStr u)"
  "map_of (numeric_dates (access_claims u e ex)) ''event_id'' = Some (CStr e)"
  "expired (numeric_dates (access_claims u e ex)) now \<longleftrightarrow> ex div 1000000 < now div 1000000"
  by (simp_all add: access_claims_def numeric_dates_def expired_def)

lemma queue_claims_numeric:
  "map_of (numeric_dates (queue_claims u e p ex)) ''type'' = Some (CStr ''queue'')"
  "expired (numeric_dates (queue_claims u e p ex)) now \<longleftrightarrow> ex div 1000000 < now div 1000000"
  by (simp_all add: queue_claims_def numeric_dates_def expired_def)

lemma decode_own:
  assumes "jwt_laws J"
  shows "jwt_decode J (jwt_encode J c key alg) key [alg] now = Inr c' \<Longrightarrow>
      c' = numeric_dates c \<and> \<not> expired (numeric_dates c) now"
    and "jwt_decode J (jwt_encode J c key alg) key [alg] now = Inl x \<Longrightarrow>
      expired (numeric_dates c) now"
  using jwt_laws.roundtrip [OF assms, of c now alg "[alg]" key]
    jwt_laws.expiry [OF assms, of c now key alg "[alg]"]
  by (cases "expired (numeric_dates c) now"; auto)+

text \<open>C20: an access token round-trips. Sent back as a bearer token, the token that
  \<open>create_access_token\<close> makes for a user and an event is accepted with exactly its claims until the
  second after its expiry, and answered with 401 from then on.\<close>

theorem access_token_round_trip:
  assumes "jwt_laws J" and "runtime_laws T v"
    and "tok = jwt_encode J (access_claims u e expire) (secret_key cfg) (jwt_algorithm cfg)"
  shows "wp (get_current_user J cfg T (''Bearer '' @ tok))
    (\<lambda>c w'. clk (v w') div 1000000 \<le> expire div 1000000 \<and>
       map_of c ''sub'' = Some (CStr u) \<and> map_of c ''event_id'' = Some (CStr e))
    (\<lambda>x w'. expire div 1000000 < clk (v w') div 1000000 \<and> (\<exists>d. x = HTTPException 401 d)) w"
proof -
  have b: "bearer_token (''Bearer '' @ tok) = ret tok"
    unfolding assms(3)
    by (intro bearer_token_Bearer jwt_laws.compact [OF assms(1)] jwt_laws.nonempty [OF assms(1)])
  have "vc v (get_current_user J cfg T (''Bearer '' @ tok))
    (\<lambda>c s'. clk s' div 1000000 \<le> expire div 1000000 \<and>
       map_of c ''sub'' = Some (CStr u) \<and> map_of c ''event_id'' = Some (CStr e))
    (\<lambda>x s'. expire div 1000000 < clk s' div 1000000 \<and> (\<exists>d. x = HTTPException 401 d)) (v w)"
    unfolding get_current_user_def
    by (simp only: b bnd_ret)
      (intro vc_checked_claims [OF assms(1,2)];
        auto dest!: decode_own [OF assms(1)] simp: assms(3) access_claims_numeric)
  then show ?thesis by (rule vcD)
qed

theorem access_token_round_trip_witness:
  "\<exists>tok. tok = jwt_encode plain_jwt (access_claims ''u'' ''e'' 5000000) ''s'' ''HS256'' \<and>
   wp (get_current_user plain_jwt (default_settings ''db'' ''s'') mem_runtime (''Bearer '' @ tok))
    (\<lambda>c w'. map_of c ''sub'' = Some (CStr ''u''))
    (\<lambda>x w'. \<exists>d. x = HTTPException 401 d) (start_mem empty_tables)"
  by (rule exI, rule conjI [OF refl],
      rule wp_mono [OF access_token_round_trip [OF plain_jwt_laws mem_runtime_laws, where u = "''u''"
        and e = "''e''" and expire = 5000000]])
    (auto simp: default_settings_def)

text \<open>C21: the two kinds of token are not interchangeable: a queue token never passes
  \<open>get_current_user\<close>, and an access token never passes \<open>get_user_from_queue_token\<close>, whether in the
  header or as the query parameter; the answer is a 401.\<close>

theorem tokens_not_interchangeable:
  assumes "jwt_laws J" and "runtime_laws T v"
    and "qtok = jwt_encode J (queue_claims u e p expire) (secret_key cfg) (jwt_algorithm cfg)"
    and "atok = jwt_encode J (access_claims u e expire) (secret_key cfg) (jwt_algorithm cfg)"
  shows "wp (get_current_user J cfg T (''Bearer '' @ qtok)) (\<lambda>_ _. False)
      (\<lambda>x _. \<exists>d. x = HTTPException 401 d) w \<and>
    wp (get_user_from_queue_token J cfg T (Some (''Bearer '' @ atok)) param) (\<lambda>_ _. False)
      (\<lambda>x _. \<exists>d. x = HTTPException 401 d) w \<and>
    wp (get_user_from_queue_token J cfg T None (Some atok)) (\<lambda>_ _. False)
      (\<lambda>x _. \<exists>d. x = HTTPException 401 d) w"
proof -
  have b: "bearer_token (''Bearer '' @ t) = ret t" if "t = qtok \<or> t = atok" for t
    using that unfolding assms(3,4)
    by (elim disjE; hypsubst; intro bearer_token_Bearer jwt_laws.compact [OF assms(1)]
        jwt_laws.nonempty [OF assms(1)])
  have q: "vc v (checked_claims J cfg T qtok ''access'' d) (\<lambda>_ _. False)
      (\<lambda>x _. \<exists>d. x = HTTPException 401 d) (v w)" for d
    by (intro vc_checked_claims [OF assms(1,2)])
      (auto dest!: decode_own [OF assms(1)] simp: assms(3) queue_claims_numeric)
  have a: "vc v (checked_claims J cfg T atok ''queue'' d) (\<lambda>_ _. False)
      (\<lambda>x _. \<exists>d. x = HTTPException 401 d) (v w)" for d
    by (intro vc_checked_claims [OF assms(1,2)])
      (auto dest!: decode_own [OF assms(1)] simp: assms(4) access_claims_numeric)
  have ne: "atok \<noteq> []" using jwt_laws.nonempty [OF assms(1)] assms(4) by simp
  show ?thesis
    using vcD [OF q] vcD [OF a] ne
    by (simp add: get_current_user_def get_user_from_queue_token_def truthy_def
        b [of qtok, simplified] b [of atok, simplified])
qed

theorem tokens_not_interchangeable_witness:
  "\<exists>qtok. wp (get_current_user plain_jwt (default_settings ''db'' ''s'') mem_runtime (''Bearer '' @ qtok))
      (\<lambda>_ _. False) (\<lambda>x _. \<exists>d. x = HTTPException 401 d) (start_mem empty_tables)"
  using tokens_not_interchangeable [OF plain_jwt_laws mem_runtime_laws refl refl] by blast

end
