(* ===== verification/Middleware.thy ===== *)
theory Middleware
  imports Auth
begin

text \<open>
  What stands around the handlers: \<open>src/middleware/error_handler.py\<close>, which turns what a handler
  raises into a response, \<open>src/middleware/logger.py\<close>, \<open>src/middleware/rate_limiter.py\<close>, and the database
  session of a request, \<open>get_db\<close> in \<open>src/dependencies.py\<close>. \<open>src/main.py\<close> puts the error handler outside the
  logger and the logger outside the rate limiter. FastAPI itself answers an \<open>HTTPException\<close> before the middlewares see it.
\<close>

section \<open>Responses\<close>

text \<open>
  The \<open>ApiResponse\<close> of a handler, the error document of the error handler with the exception whose
  text it holds, FastAPI's answer to an \<open>HTTPException\<close>, and the answer of the rate limiter.
\<close>

datatype 'a reply =
    Reply nat string "'a option"
  | ErrorReply nat string "exn option"
  | DetailReply nat string
  | RetryAfter nat int

fun status_code :: "'a reply \<Rightarrow> nat" where
  "status_code (Reply c m d) = c"
| "status_code (ErrorReply c m e) = c"
| "status_code (DetailReply c m) = c"
| "status_code (RetryAfter c t) = c"

section \<open>error_handler.py\<close>

definition error_response :: "exn \<Rightarrow> 'a reply" where
  "error_response e =
     (case e of
        ReservationExpiredError _ \<Rightarrow> ErrorReply 410 ''Reservation expired'' (Some e)
      | ValueError _ \<Rightarrow> ErrorReply 400 ''Bad request'' (Some e)
      | _ \<Rightarrow> if is_business_error e then ErrorReply 409 ''Conflict'' (Some e)
            else ErrorReply 500 ''Internal server error'' None)"

definition error_handler :: "('w, 'a reply) py \<Rightarrow> ('w, 'a reply) py" where
  "error_handler call_next = try_except call_next (\<lambda>e. ret (error_response e))"

text \<open>FastAPI's own handler, inside the middlewares.\<close>

definition http_exceptions :: "('w, 'a reply) py \<Rightarrow> ('w, 'a reply) py" where
  "http_exceptions m = try_except m (\<lambda>e.
     case e of HTTPException code detail \<Rightarrow> ret (DetailReply code detail) | _ \<Rightarrow> raising e)"

section \<open>The session of a request\<close>

text \<open>
  \<open>get_db\<close>: roll back and raise again what the handler raised, close the session in any case.
\<close>

definition get_db :: "'w db_session \<Rightarrow> ('w, 'a) py \<Rightarrow> ('w, 'a) py" where
  "get_db D m =
     try_finally (try_except m (\<lambda>e. seqn (rollback D) (raising e))) (close_session D)"


section \<open>Requests\<close>

record request =
  rq_method :: string
  rq_path :: string
  rq_forwarded_for :: "string option"
  rq_client :: "string option"
  rq_authorization :: "string option"

text \<open>A required header that is missing is FastAPI's 422.\<close>

definition current_user ::
  "jwt_lib \<Rightarrow> settings \<Rightarrow> 'w runtime \<Rightarrow> request \<Rightarrow> ('w, claims) py" where
  "current_user J cfg T rq =
     (case rq_authorization rq of
        None \<Rightarrow> raising (HTTPException 422 ''Field required'')
      | Some a \<Rightarrow> get_current_user J cfg T a)"

text \<open>\<open>user["sub"]\<close>: a claim that is missing is a \<open>KeyError\<close>.\<close>

definition claim_str :: "string \<Rightarrow> claims \<Rightarrow> exn + string" where
  "claim_str k payload =
     (case map_of payload k of
        Some (CStr u) \<Rightarrow> Inr u
      | None \<Rightarrow> Inl (OtherError (''KeyError: '' @ k))
      | Some _ \<Rightarrow> Inl (OtherError (''not a string: '' @ k)))"

section \<open>rate_limiter.py\<close>

definition RATE_LIMIT_RULES :: "string \<Rightarrow> (nat \<times> int \<times> string) option" where
  "RATE_LIMIT_RULES =
     [''/api/queue/join'' \<mapsto> (3, 1, ''ip''), ''/api/v1/reservations'' \<mapsto> (2, 1, ''user'')]"

definition DEFAULT_LIMIT :: "nat \<times> int \<times> string" where
  "DEFAULT_LIMIT = (5, 1, ''ip'')"

definition rate_rule :: "string \<Rightarrow> nat \<times> int \<times> string" where
  "rate_rule path = (case RATE_LIMIT_RULES path of Some r \<Rightarrow> r | None \<Rightarrow> DEFAULT_LIMIT)"

definition client_ip :: "request \<Rightarrow> string" where
  "client_ip rq =
     (if truthy (rq_forwarded_for rq) then py_strip (before_comma (the (rq_forwarded_for rq)))
      else case rq_client rq of Some h \<Rightarrow> h | None \<Rightarrow> ''unknown'')"

definition rate_key :: "string \<Rightarrow> string \<Rightarrow> int \<Rightarrow> string" where
  "rate_key who path bucket = ''rate:'' @ who @ '':'' @ path @ '':'' @ str_int bucket"

text \<open>The text of a \<open>sub\<close> claim that counts as true.\<close>

fun claim_text :: "claim option \<Rightarrow> string option" where
  "claim_text (Some (CStr u)) = (if u = [] then None else Some u)"
| "claim_text (Some (CInt i)) = (if i = 0 then None else Some (str_int i))"
| "claim_text (Some (CTime t)) = Some (str_int (t div 1000000))"
| "claim_text _ = None"

text \<open>The header is lower-cased as a whole, the token in it too.\<close>

definition extract_user_id ::
  "jwt_lib \<Rightarrow> settings \<Rightarrow> 'w runtime \<Rightarrow> request \<Rightarrow> ('w, string option) py" where
  "extract_user_id J cfg T rq =
     try_except
       (let auth_header = py_lower (case rq_authorization rq of None \<Rightarrow> [] | Some a \<Rightarrow> a) in
        if \<not> starts_with ''bearer '' auth_header then ret None
        else bnd (decode_token J cfg T (drop 7 auth_header)) (\<lambda>payload.
          ret (claim_text (map_of payload ''sub''))))
       (\<lambda>e. ret None)"

text \<open>
  The part under \<open>try\<close>: \<open>Some w\<close> where the request is over the limit of a window of \<open>w\<close> seconds.
\<close>

definition rate_check ::
  "'w redis_client \<Rightarrow> jwt_lib \<Rightarrow> settings \<Rightarrow> 'w runtime \<Rightarrow> request \<Rightarrow> ('w, int option) py" where
  "rate_check R J cfg T rq =
     (case rate_rule (rq_path rq) of (max_requests, window_seconds, rate_limit_type) \<Rightarrow>
        bnd (utcnow T) (\<lambda>now.
        let bucket = now div (window_seconds * 1000000) in
        bnd (if rate_limit_type = ''user'' then extract_user_id J cfg T rq else ret None) (\<lambda>user_id.
        let key = rate_key (case user_id of Some u \<Rightarrow> u | None \<Rightarrow> client_ip rq) (rq_path rq) bucket in
        bnd (r_incr R key) (\<lambda>current.
        seqn (if current = 1 then r_expire R key (window_seconds * 2 * 1000) else ret ())
        (ret (if max_requests < current then Some window_seconds else None))))))"

definition rate_limiter ::
  "'w redis_client \<Rightarrow> jwt_lib \<Rightarrow> settings \<Rightarrow> 'w runtime \<Rightarrow> request \<Rightarrow> ('w, 'a reply) py \<Rightarrow>
    ('w, 'a reply) py" where
  "rate_limiter R J cfg T rq call_next =
     (if rq_method rq = ''OPTIONS'' then call_next
      else bnd (try_except (rate_check R J cfg T rq) (\<lambda>e. ret None)) (\<lambda>limited.
        case limited of Some w \<Rightarrow> ret (RetryAfter 429 w) | None \<Rightarrow> call_next))"

section \<open>logger.py\<close>

definition SLOW_REQUEST_THRESHOLD_MS :: real where
  "SLOW_REQUEST_THRESHOLD_MS = 300"

definition peer_host :: "request \<Rightarrow> string" where
  "peer_host rq = (case rq_client rq of Some h \<Rightarrow> h | None \<Rightarrow> ''unknown'')"

text \<open>
  One line per answered request, as a warning where it was slow. The two sizes of the line are headers of
  the messages and are left out.
\<close>

definition logger_middleware ::
  "'w runtime \<Rightarrow> request \<Rightarrow> ('w, 'a reply) py \<Rightarrow> ('w, 'a reply) py" where
  "logger_middleware T rq call_next =
     bnd (time_time T) (\<lambda>start_time.
     bnd call_next (\<lambda>response.
     bnd (time_time T) (\<lambda>now.
     let process_time_ms = (now - start_time) * 1000 in
     seqn (log_access T (SLOW_REQUEST_THRESHOLD_MS < process_time_ms)
       \<lparr>al_method = rq_method rq, al_path = rq_path rq, al_status = status_code response,
        al_duration = process_time_ms, al_ip = peer_host rq\<rparr>)
     (ret response))))"

section \<open>The stack of \<open>main.py\<close> around a handler\<close>

text \<open>\<open>CORSMiddleware\<close> and \<open>GZipMiddleware\<close>, further inside, are Starlette's and pass the reply on.\<close>

definition serve ::
  "'w redis_client \<Rightarrow> jwt_lib \<Rightarrow> settings \<Rightarrow> 'w runtime \<Rightarrow> request \<Rightarrow> ('w, 'a reply) py \<Rightarrow>
    ('w, 'a reply) py" where
  "serve R J cfg T rq handler =
     error_handler (logger_middleware T rq (rate_limiter R J cfg T rq (http_exceptions handler)))"

section \<open>Rules\<close>

lemma vc_error_handler:
  "vc v m Q (\<lambda>e s'. Q (error_response e) s') s \<Longrightarrow> vc v (error_handler m) Q E s"
  unfolding error_handler_def by (rule vc_try_except, erule vc_conseq) (auto intro: vc_ret)

context runtime_laws
begin

lemma vc_logger_middleware: "vc v m Q E s \<Longrightarrow> vc v (logger_middleware T rq m) Q E s"
  unfolding logger_middleware_def Let_def
  by (intro vc_bnd vc_time_time, erule vc_conseq) (auto intro!: vc_bnd vc_time_time vc_log_access vc_ret)

end

lemma vc_http_exceptions:
  assumes "vc v m Q (\<lambda>e s'. case e of HTTPException c d \<Rightarrow> Q (DetailReply c d) s' | _ \<Rightarrow> E e s') s"
  shows "vc v (http_exceptions m) Q E s"
  unfolding http_exceptions_def
  by (rule vc_try_except, rule vc_conseq [OF assms])
    (auto intro: vc_ret vc_raising split: exn.split)

text \<open>The guards read the clock and nothing else.\<close>

lemma vc_get_current_user:
  assumes "jwt_laws J" and "runtime_laws T v"
    and "\<And>c t. clk s \<le> t \<Longrightarrow> map_of c ''type'' = Some (CStr ''access'') \<Longrightarrow> Q c (s\<lparr>clk := t\<rparr>)"
    and "\<And>d t. clk s \<le> t \<Longrightarrow> E (HTTPException 401 d) (s\<lparr>clk := t\<rparr>)"
  shows "vc v (get_current_user J cfg T a) Q E s"
proof -
  have same: "E (HTTPException 401 d) s" for d using assms(4) [of "clk s" d] by simp
  show ?thesis
    unfolding get_current_user_def bearer_token_def Let_def unauthorized_def
    by (intro vc_bnd vc_if vc_ret vc_raising vc_checked_claims [OF assms(1,2)]) (simp_all add: assms(3,4) same)
qed

lemma vc_current_user:
  assumes "jwt_laws J" and "runtime_laws T v"
    and "\<And>c t. clk s \<le> t \<Longrightarrow> map_of c ''type'' = Some (CStr ''access'') \<Longrightarrow> Q c (s\<lparr>clk := t\<rparr>)"
    and "\<And>n d t. clk s \<le> t \<Longrightarrow> n = 401 \<or> n = 422 \<Longrightarrow> E (HTTPException n d) (s\<lparr>clk := t\<rparr>)"
  shows "vc v (current_user J cfg T rq) Q E s"
proof -
  have same: "E (HTTPException 422 d) s" for d using assms(4) [of "clk s" 422 d] by simp
  show ?thesis
    unfolding current_user_def
    by (intro vc_case_option vc_raising vc_get_current_user [OF assms(1,2)]) (simp_all add: assms(3,4) same)
qed

lemma vc_queue_user:
  assumes "jwt_laws J" and "runtime_laws T v"
    and "\<And>c t. clk s \<le> t \<Longrightarrow> map_of c ''type'' = Some (CStr ''queue'') \<Longrightarrow> Q c (s\<lparr>clk := t\<rparr>)"
    and "\<And>d t. clk s \<le> t \<Longrightarrow> E (HTTPException 401 d) (s\<lparr>clk := t\<rparr>)"
  shows "vc v (get_user_from_queue_token J cfg T a q) Q E s"
proof -
  have same: "E (HTTPException 401 d) s" for d using assms(4) [of "clk s" d] by simp
  show ?thesis
    unfolding get_user_from_queue_token_def bearer_token_def Let_def unauthorized_def
    by (intro vc_bnd vc_if vc_ret vc_raising vc_checked_claims [OF assms(1,2)]) (simp_all add: assms(3,4) same)
qed

context db_laws
begin

text \<open>The session a request leaves is clean, and what it committed stays.\<close>

lemma vc_get_db:
  assumes "vc v m (\<lambda>a s'. Q a (discard s') \<and> (\<forall>m. E (ExternalError m) (discard s')))
    (\<lambda>e s'. E e (discard s') \<and> (\<forall>m. E (ExternalError m) (discard s'))) s"
  shows "vc v (get_db D m) Q E s"
  unfolding get_db_def
proof (rule vc_try_finally, rule vc_try_except, rule vc_conseq [OF assms])
  fix a s'
  assume "Q a (discard s') \<and> (\<forall>m. E (ExternalError m) (discard s'))"
  then show "vc v (close_session D) (\<lambda>_. Q a) E s'" by (auto intro!: vc_close_session)
next
  fix e s'
  assume "E e (discard s') \<and> (\<forall>m. E (ExternalError m) (discard s'))"
  then show "vc v (seqn (rollback D) (raising e)) (\<lambda>a s'. vc v (close_session D) (\<lambda>_. Q a) E s')
      (\<lambda>e s'. vc v (close_session D) (\<lambda>_. E e) E s') s'"
    by (auto intro!: vc_bnd vc_rollback vc_raising vc_close_session simp: discard_def)
qed

end

section \<open>What the limiter does to Redis\<close>

definition hits :: "string \<Rightarrow> rdb \<Rightarrow> nat" where
  "hits k d = (case rdb_get k d of Some (Count n) \<Rightarrow> n | _ \<Rightarrow> 0)"

text \<open>The key \<open>k\<close> was counted up, nothing else was touched, and the clock went on.\<close>

definition counted :: "string \<Rightarrow> vstate \<Rightarrow> vstate \<Rightarrow> bool" where
  "counted k s s' \<longleftrightarrow>
     hits k (redis s') = Suc (hits k (redis s)) \<and> (\<forall>k'. k' \<noteq> k \<longrightarrow> kv (redis s') k' = kv (redis s) k') \<and>
     zsets (redis s') = zsets (redis s) \<and> published (redis s') = published (redis s) \<and>
     clk s \<le> clk s' \<and> s' = s\<lparr>clk := clk s', redis := redis s'\<rparr>"

lemma get_expire [simp]: "rdb_get k (rdb_expire k' ttl d) = rdb_get k d"
  by (cases "kv d k'") (auto simp: rdb_get_def rdb_expire_def)

lemma expire_frame [simp]:
  "zsets (rdb_expire k ttl d) = zsets d" "published (rdb_expire k ttl d) = published d"
  "k' \<noteq> k \<Longrightarrow> kv (rdb_expire k ttl d) k' = kv d k'"
  by (simp_all add: rdb_expire_def split: option.split)

lemma set_frame [simp]:
  "zsets (rdb_set k x ttl d) = zsets d" "published (rdb_set k x ttl d) = published d"
  "k' \<noteq> k \<Longrightarrow> kv (rdb_set k x ttl d) k' = kv d k'"
  by (simp_all add: rdb_set_def)

lemma hits_set: "hits k (rdb_set k (Count n) ttl d) = n"
  by (simp add: hits_def rdb_get_def rdb_set_def)

lemma incr_counts:
  assumes "(Inr n, s') \<in> incr_outcomes k s"
  shows "n = Suc (hits k (redis s)) \<and> (\<exists>ttl. s' = s\<lparr>redis := rdb_set k (Count n) ttl (redis s)\<rparr>)"
proof (cases "kv (redis s) k")
  case None
  with assms have "n = 1" "s' = s\<lparr>redis := rdb_set k (Count n) None (redis s)\<rparr>"
    by (auto simp: incr_outcomes_def redis_ok_def fails_def)
  with None show ?thesis by (auto simp: hits_def rdb_get_def)
next
  case (Some xt)
  obtain x ttl where "xt = (x, ttl)" by fastforce
  with Some assms have "\<exists>k. x = Count k \<and> n = Suc k \<and> s' = s\<lparr>redis := rdb_set k' (Count n) ttl (redis s)\<rparr>"
    if "k' = k" for k'
    using that by (cases x) (auto simp: incr_outcomes_def redis_ok_def fails_def)
  with Some \<open>xt = (x, ttl)\<close> show ?thesis by (auto simp: hits_def rdb_get_def)
qed

text \<open>
  The name in the key: the address, or, where the rule is by user, the subject of the token in the
  lower-cased header.
\<close>

definition lowered_token :: "request \<Rightarrow> string" where
  "lowered_token rq = drop 7 (py_lower (case rq_authorization rq of None \<Rightarrow> [] | Some a \<Rightarrow> a))"

definition token_subject :: "jwt_lib \<Rightarrow> settings \<Rightarrow> request \<Rightarrow> string \<Rightarrow> bool" where
  "token_subject J cfg rq u \<longleftrightarrow>
     (\<exists>now c. jwt_decode J (lowered_token rq) (secret_key cfg) [jwt_algorithm cfg] now = Inr c \<and>
        claim_text (map_of c ''sub'') = Some u)"

definition rate_who :: "jwt_lib \<Rightarrow> settings \<Rightarrow> request \<Rightarrow> string \<Rightarrow> bool" where
  "rate_who J cfg rq who \<longleftrightarrow> who = client_ip rq \<or>
     (\<exists>n w. rate_rule (rq_path rq) = (n, w, ''user'')) \<and> token_subject J cfg rq who"

context redis_laws
begin

lemma vc_count_request:
  assumes "\<And>s'. counted k s s' \<Longrightarrow> clk s' = clk s \<Longrightarrow> Q (if n < hits k (redis s') then Some w else None) s'"
    and "\<And>m s'. redis s' = redis s \<or> counted k s s' \<Longrightarrow> s' = s\<lparr>redis := redis s'\<rparr> \<Longrightarrow> E (ExternalError m) s'"
  shows "vc v (bnd (r_incr R k) (\<lambda>current.
        seqn (if current = 1 then r_expire R k ttl else ret ())
          (ret (if n < current then Some w else None)))) Q E s"
proof (intro vc_bnd vc_incr)
  fix c s'
  assume "(Inr c, s') \<in> incr_outcomes k s"
  from incr_counts [OF this] obtain ttl' where
    c: "c = Suc (hits k (redis s))" "s' = s\<lparr>redis := rdb_set k (Count c) ttl' (redis s)\<rparr>" by blast
  have counted: "counted k s s'" "counted k s (s'\<lparr>redis := rdb_expire k ttl (redis s')\<rparr>)"
    "hits k (redis s') = c" "hits k (rdb_expire k ttl (redis s')) = c"
    using c hits_set [of k c] by (simp_all add: counted_def hits_def)
  show "vc v (if c = 1 then r_expire R k ttl else ret ())
      (\<lambda>_. vc v (ret (if n < c then Some w else None)) Q E) E s'"
    using assms(1) [OF counted(1)] assms(1) [OF counted(2)] assms(2) [of s'] counted c(2)
    by (intro vc_if vc_expire vc_ret) simp_all
qed (use assms(2) in simp)

end

context lock_services
begin

lemma vc_extract_user_id:
  assumes "jwt_laws J"
    and "\<And>u t. clk s \<le> t \<Longrightarrow> \<forall>x. u = Some x \<longrightarrow> token_subject J cfg rq x \<Longrightarrow> Q u (s\<lparr>clk := t\<rparr>)"
  shows "vc v (extract_user_id J cfg T rq) Q E s"
proof -
  have same: "Q None s" using assms(2) [of "clk s" None] by simp
  show ?thesis
    unfolding extract_user_id_def Let_def
    by (intro vc_try_except vc_if vc_bnd vc_ret vc_decode_token [OF assms(1) runtime_laws_axioms])
      (use same in \<open>auto intro!: assms(2) exI simp: token_subject_def lowered_token_def\<close>)
qed

lemma vc_rate_check:
  assumes J: "jwt_laws J" and rule: "rate_rule (rq_path rq) = (n, w, kind)"
    and ok: "\<And>who t k s'. rate_who J cfg rq who \<Longrightarrow> clk s \<le> t \<Longrightarrow> t \<le> clk s' \<Longrightarrow> kind \<noteq> ''user'' \<longrightarrow> clk s' = t \<Longrightarrow>
      k = rate_key who (rq_path rq) (t div (w * 1000000)) \<Longrightarrow> counted k s s' \<Longrightarrow>
      Q (if n < hits k (redis s') then Some w else None) s'"
    and err: "\<And>m s' k. clk s \<le> clk s' \<Longrightarrow> s' = s\<lparr>clk := clk s', redis := redis s'\<rparr> \<Longrightarrow>
      redis s' = redis s \<or> counted k s s' \<Longrightarrow> E (ExternalError m) s'"
  shows "vc v (rate_check R J cfg T rq) Q E s"
proof -
  have later: "counted k s s'" if "counted k (s\<lparr>clk := t\<rparr>) s'" "clk s \<le> t" for k s' t
    using that by (auto simp: counted_def)
  have step: "vc v (bnd (r_incr R k) (\<lambda>current.
        seqn (if current = 1 then r_expire R k ttl else ret ())
          (ret (if n < current then Some w else None)))) Q E (s\<lparr>clk := t'\<rparr>)"
    if "rate_who J cfg rq who" "clk s \<le> t" "t \<le> t'" "kind \<noteq> ''user'' \<longrightarrow> t' = t"
      "k = rate_key who (rq_path rq) (t div (w * 1000000))" for who t t' k ttl
  proof (rule vc_count_request)
    fix s'
    assume "counted k (s\<lparr>clk := t'\<rparr>) s'" and "clk s' = clk (s\<lparr>clk := t'\<rparr>)"
    with that later show "Q (if n < hits k (redis s') then Some w else None) s'"
      by (intro ok [where t = t and who = who]) auto
  next
    fix m s'
    assume s': "redis s' = redis (s\<lparr>clk := t'\<rparr>) \<or> counted k (s\<lparr>clk := t'\<rparr>) s'"
      "s' = s\<lparr>clk := t', redis := redis s'\<rparr>"
    then have "clk s' = t'" by (metis vstate.select_convs(5) vstate.surjective vstate.update_convs(4,5))
    with s' that later show "E (ExternalError m) s'" by (intro err [where k = k]) auto
  qed
  show ?thesis
    unfolding rate_check_def rule prod.case Let_def
  proof (rule vc_bnd, rule vc_utcnow, rule vc_bnd, rule vc_if, goal_cases)
    case (1 t)
    show ?case
    proof (rule vc_extract_user_id [OF J], goal_cases)
      case (1 u t')
      with \<open>clk s \<le> t\<close> \<open>kind = ''user''\<close> show ?case
        using step [of "case u of Some u \<Rightarrow> u | None \<Rightarrow> client_ip rq" t t', OF _ _ _ _ refl] rule
        by (cases u) (simp_all add: rate_who_def)
    qed
  next
    case (2 t)
    then show ?case
      using step [of "client_ip rq" t t, OF _ _ _ _ refl] rule
      by (intro vc_ret) (simp add: rate_who_def cong: if_cong)
  qed
qed

text \<open>What the limiter may have done when it calls the next layer.\<close>

lemma vc_rate_limiter:
  assumes "jwt_laws J"
    and touched: "\<And>s'. clk s \<le> clk s' \<Longrightarrow> s' = s\<lparr>clk := clk s', redis := redis s'\<rparr> \<Longrightarrow>
      redis s' = redis s \<or> (\<exists>k. counted k s s') \<Longrightarrow> P s'"
    and "\<And>s'. P s' \<Longrightarrow> vc v call_next Q E s'" and "\<And>w s'. P s' \<Longrightarrow> Q (RetryAfter 429 w) s'"
  shows "vc v (rate_limiter R J cfg T rq call_next) Q E s"
proof -
  obtain n w kind where rule: "rate_rule (rq_path rq) = (n, w, kind)" by (cases "rate_rule (rq_path rq)")
  have P: "P s" "\<And>k s'. counted k s s' \<Longrightarrow> P s'"
    using touched [of s] touched by (auto simp: counted_def)
  show ?thesis
    unfolding rate_limiter_def
  proof (rule vc_if, goal_cases)
    case 1
    show ?case using P(1) assms(3) by simp
  next
    case 2
    show ?case
      by (rule vc_bnd, rule vc_try_except, rule vc_rate_check [OF assms(1) rule];
          (rule vc_ret)?; (rule vc_case_option)?; (rule vc_ret)?)
        (use P assms(3,4) touched in blast)+
  qed
qed

end

section \<open>Properties\<close>

text \<open>The number of requests of a list that the limiter lets pass.\<close>

definition admissions ::
  "'w redis_client \<Rightarrow> jwt_lib \<Rightarrow> settings \<Rightarrow> 'w runtime \<Rightarrow> request list \<Rightarrow> ('w, nat) py" where
  "admissions R J cfg T rqs =
     foldM (\<lambda>m rq. bnd (rate_check R J cfg T rq) (\<lambda>over. ret (if over = None then Suc m else m))) 0 rqs"

text \<open>The windows that time is cut into, and the bound after \<open>m\<close> admissions: \<open>n\<close> for each window that is over
  and the count of the present one, up to \<open>n\<close>.\<close>

definition window_index :: "int \<Rightarrow> vstate \<Rightarrow> int" where
  "window_index secs s = clk s div (secs * 1000000)"

definition within_windows :: "nat \<Rightarrow> int \<Rightarrow> string \<Rightarrow> string \<Rightarrow> vstate \<Rightarrow> nat \<Rightarrow> vstate \<Rightarrow> bool" where
  "within_windows n secs ip path s0 m s \<longleftrightarrow>
     window_index secs s0 \<le> window_index secs s \<and>
     int m \<le> int n * (window_index secs s - window_index secs s0) +
       int (min n (hits (rate_key ip path (window_index secs s)) (redis s)))"

lemma within_windows_step:
  assumes I: "within_windows n secs ip path s0 m s" and "clk s \<le> clk s'" and "0 < secs"
    and c: "counted (rate_key ip path (window_index secs s')) s s'"
  shows "within_windows n secs ip path s0
    (if hits (rate_key ip path (window_index secs s')) (redis s') \<le> n then Suc m else m) s'"
proof (cases "window_index secs s' = window_index secs s")
  case True
  with I c show ?thesis by (auto simp: within_windows_def counted_def min_def split: if_splits)
next
  case False
  let ?b = "window_index secs"
  have le: "?b s \<le> ?b s'" using assms(2,3) by (simp add: window_index_def zdiv_mono1)
  with False have "int n * (?b s + 1 - ?b s0) \<le> int n * (?b s' - ?b s0)"
    by (intro mult_left_mono) simp_all
  moreover have "int n * (?b s + 1 - ?b s0) = int n * (?b s - ?b s0) + int n" by (simp add: algebra_simps)
  ultimately have "int m \<le> int n * (?b s' - ?b s0)" using I by (simp add: within_windows_def min_def split: if_splits)
  moreover have "1 \<le> hits (rate_key ip path (?b s')) (redis s')" using c by (simp add: counted_def)
  ultimately show ?thesis using I le by (auto simp: within_windows_def)
qed

lemma within_windows_bound:
  "within_windows n secs ip path s0 m s \<Longrightarrow> int m \<le> int n * (window_index secs s - window_index secs s0 + 1)"
  by (auto simp: within_windows_def algebra_simps min_def split: if_splits)


definition plain_request :: "string \<Rightarrow> string option \<Rightarrow> request" where
  "plain_request path auth =
     \<lparr>rq_method = ''POST'', rq_path = path, rq_forwarded_for = None, rq_client = Some ''10.0.0.1'',
      rq_authorization = auth\<rparr>"


text \<open>The limit by user of \<open>/api/v1/reservations\<close> reads the token from the lower-cased header. With
  tokens that do not survive lower-casing, no user is ever found, and the request is counted under
  the address: users behind one address share the two requests per second.\<close>

theorem user_limit_counts_addresses:
  assumes "lock_services R T v" and "jwt_laws J" and "rq_path rq = ''/api/v1/reservations''"
    and "\<And>now c. jwt_decode J (lowered_token rq) (secret_key cfg) [jwt_algorithm cfg] now \<noteq> Inr c"
  shows "wp (rate_check R J cfg T rq)
    (\<lambda>over w'. \<exists>b. let k = ''rate:'' @ client_ip rq @ '':/api/v1/reservations:'' @ str_int b in
       counted k (v w) (v w') \<and> (over = None \<longleftrightarrow> hits k (redis (v w')) \<le> 2))
    (\<lambda>e w'. is_external e) w"
proof -
  have rule: "rate_rule (rq_path rq) = (2, 1, ''user'')"
    using assms(3) by (simp add: rate_rule_def RATE_LIMIT_RULES_def)
  have "vc v (rate_check R J cfg T rq)
    (\<lambda>over s'. \<exists>b. let k = ''rate:'' @ client_ip rq @ '':/api/v1/reservations:'' @ str_int b in
       counted k (v w) s' \<and> (over = None \<longleftrightarrow> hits k (redis s') \<le> 2)) (\<lambda>e s'. is_external e) (v w)"
  proof (rule lock_services.vc_rate_check [OF assms(1,2) rule], goal_cases)
    case (1 who t k s')
    then have "who = client_ip rq" using assms(4) by (auto simp: rate_who_def token_subject_def)
    with 1 assms(3) show ?case
      by (intro exI [of _ "t div 1000000"]) (auto simp: rate_key_def Let_def)
  qed simp
  then show ?thesis by (rule vcD)
qed

text \<open>The token of a user, as the concrete library writes it; it begins with a capital letter.\<close>

definition user_request :: request where
  "user_request = plain_request ''/api/v1/reservations''
     (Some (''Bearer '' @ jwt_encode plain_jwt (access_claims ''alice'' ''e'' 3600000000) ''k'' ''HS256''))"

lemma lower_C: "lower_char (CHR ''C'') = CHR ''c''"
  by code_simp

lemma user_request_token: "\<exists>r. lowered_token user_request = CHR ''c'' # r"
  by (simp add: lowered_token_def user_request_def plain_request_def plain_jwt_def py_lower_def lower_C)

theorem user_limit_counts_addresses_witness:
  "wp (rate_check mem_redis plain_jwt (default_settings ''db'' ''k'') mem_runtime user_request)
    (\<lambda>over w'. \<exists>b. counted (''rate:10.0.0.1:/api/v1/reservations:'' @ str_int b)
       (start_view empty_tables) (mview w'))
    (\<lambda>e w'. is_external e) (start_mem empty_tables)"
proof -
  from user_request_token obtain r where r: "lowered_token user_request = CHR ''c'' # r" by blast
  have path: "rq_path user_request = ''/api/v1/reservations''"
    by (simp add: user_request_def plain_request_def)
  have ip: "client_ip user_request = ''10.0.0.1''"
    by (simp add: user_request_def plain_request_def client_ip_def truthy_def)
  have "jwt_decode plain_jwt (lowered_token user_request) (secret_key (default_settings ''db'' ''k''))
      [jwt_algorithm (default_settings ''db'' ''k'')] now \<noteq> Inr c" for now c
    by (simp add: r plain_jwt_def default_settings_def split: prod.split)
  from user_limit_counts_addresses [OF mem_lock_services plain_jwt_laws path this] show ?thesis
    by (rule wp_mono) (auto simp: ip Let_def start_mem_def)
qed

end
