(* ===== verification/Catalogue.thy ===== *)
theory Catalogue
  imports Middleware Reservation_Service
begin

text \<open>
  Events and seats as they are shown: \<open>src/services/event_service.py\<close>, \<open>src/api/v1/events.py\<close> and
  \<open>src/api/v1/seats.py\<close>, with the ten-second cache of the seat lists in Redis. A cached list is the
  JSON text of the seats; a text that is none raises \<open>ValueError\<close>.
\<close>

section \<open>event_service.py\<close>

record event_list_response =
  el_items :: "event_response list"
  el_total :: nat
  el_page :: nat
  el_limit :: nat

record seat_list_response =
  sl_items :: "seat_response list"
  sl_total :: nat

definition seat_list :: "seat_response list \<Rightarrow> seat_list_response" where
  "seat_list items = \<lparr>sl_items = items, sl_total = length items\<rparr>"

definition get_events :: "'w db_session \<Rightarrow> nat \<Rightarrow> nat \<Rightarrow> ('w, event_list_response) py" where
  "get_events D page limit =
     bnd (event_get_all D page limit) (\<lambda>(xs, total).
     ret \<lparr>el_items = map to_event_response xs, el_total = total, el_page = page, el_limit = limit\<rparr>)"

definition get_event_by_id :: "'w db_session \<Rightarrow> uuid \<Rightarrow> ('w, event_response option) py" where
  "get_event_by_id D event_id =
     bnd (event_get_by_id D event_id) (\<lambda>e. ret (map_option to_event_response e))"

definition get_seats_by_event :: "'w db_session \<Rightarrow> uuid \<Rightarrow> ('w, seat_list_response option) py" where
  "get_seats_by_event D event_id =
     bnd (event_get_by_id D event_id) (\<lambda>e.
     case e of
       None \<Rightarrow> ret None
     | Some _ \<Rightarrow>
         bnd (seat_get_by_event_id D event_id) (\<lambda>xs. ret (Some (seat_list (map to_seat_response xs)))))"

section \<open>The cached lists\<close>

definition truthy_value :: "rvalue option \<Rightarrow> bool" where
  "truthy_value x \<longleftrightarrow> x \<noteq> None \<and> x \<noteq> Some (Text [])"

text \<open>\<open>[SeatResponse.model_validate(s) for s in json.loads(cached)]\<close>.\<close>

definition load_seats :: "rvalue \<Rightarrow> exn + seat_response list" where
  "load_seats x = (case x of SeatsJson items \<Rightarrow> Inr items | _ \<Rightarrow> Inl (ValueError ''not a list of seats''))"

definition through_cache ::
  "'w redis_client \<Rightarrow> string \<Rightarrow> ('w, seat_response list) py \<Rightarrow> ('w, seat_list_response reply) py" where
  "through_cache R cache_key load =
     bnd (r_get R cache_key) (\<lambda>cached.
     if truthy_value cached then
       bnd (lift_res (load_seats (the cached))) (\<lambda>items.
       ret (Reply 200 ''success (cached)'' (Some (seat_list items))))
     else
       bnd load (\<lambda>items.
       seqn (r_set_ex R cache_key (SeatsJson items) SEAT_CACHE_TTL)
       (ret (Reply 200 ''success'' (Some (seat_list items))))))"

section \<open>seats.py\<close>

definition get_seats ::
  "'w db_session \<Rightarrow> 'w redis_client \<Rightarrow> jwt_lib \<Rightarrow> settings \<Rightarrow> 'w runtime \<Rightarrow> request \<Rightarrow> uuid \<Rightarrow>
    ('w, seat_list_response reply) py" where
  "get_seats D R J cfg T rq event_id =
     get_db D
       (seqn (current_user J cfg T rq)
       (through_cache R (CACHE_SEATS_KEY (uuid_str event_id))
         (bnd (seat_get_by_event_id D event_id) (\<lambda>xs. ret (map to_seat_response xs)))))"

definition list_available_seats ::
  "'w db_session \<Rightarrow> 'w redis_client \<Rightarrow> jwt_lib \<Rightarrow> settings \<Rightarrow> 'w runtime \<Rightarrow> request \<Rightarrow> uuid \<Rightarrow>
    ('w, seat_list_response reply) py" where
  "list_available_seats D R J cfg T rq event_id =
     get_db D
       (seqn (current_user J cfg T rq)
       (through_cache R (CACHE_AVAILABLE_SEATS_KEY (uuid_str event_id))
         (bnd (get_available_seats D event_id) (\<lambda>xs. ret (map to_seat_response xs)))))"

section \<open>events.py\<close>

definition list_events ::
  "'w db_session \<Rightarrow> nat \<Rightarrow> nat \<Rightarrow> ('w, event_list_response reply) py" where
  "list_events D page limit =
     get_db D
       (if page < 1 \<or> limit < 1 \<or> 100 < limit then raising (HTTPException 422 ''Query parameter out of range'')
        else bnd (get_events D page limit) (\<lambda>xs. ret (Reply 200 ''success'' (Some xs))))"

definition get_event :: "'w db_session \<Rightarrow> uuid \<Rightarrow> ('w, event_response reply) py" where
  "get_event D event_id =
     get_db D
       (bnd (get_event_by_id D event_id) (\<lambda>e.
        case e of
          None \<Rightarrow> raising (HTTPException 404 ''Event not found'')
        | Some r \<Rightarrow> ret (Reply 200 ''success'' (Some r))))"

definition get_event_seats ::
  "'w db_session \<Rightarrow> 'w redis_client \<Rightarrow> uuid \<Rightarrow> ('w, seat_list_response reply) py" where
  "get_event_seats D R event_id =
     get_db D
       (through_cache R (CACHE_SEATS_KEY (uuid_str event_id))
         (bnd (get_event_by_id D event_id) (\<lambda>e.
          case e of
            None \<Rightarrow> raising (HTTPException 404 ''Event not found'')
          | Some _ \<Rightarrow>
              bnd (get_seats_by_event D event_id) (\<lambda>found.
              ret (case found of Some l \<Rightarrow> sl_items l | None \<Rightarrow> [])))))"

section \<open>Rules\<close>

text \<open>The rows of the event in display order.\<close>

definition seat_page :: "uuid \<Rightarrow> tables \<Rightarrow> seat_response list \<Rightarrow> bool" where
  "seat_page event_id t items \<longleftrightarrow>
     (\<exists>xs. items = map to_seat_response xs \<and> rows_like xs (filter (\<lambda>x. seat_event x = event_id) (seats t)) \<and>
        sorted_wrt seat_before xs)"

lemma seat_pageI:
  "rows_like xs (filter (\<lambda>x. seat_event x = ev) (seats t)) \<Longrightarrow> sorted_wrt seat_before xs \<Longrightarrow>
    seat_page ev t (map to_seat_response xs)"
  by (auto simp: seat_page_def)

context backend
begin

lemma vc_through_cache:
  assumes "\<And>items. rdb_get key (redis s) = Some (SeatsJson items) \<Longrightarrow>
      Q (Reply 200 ''success (cached)'' (Some (seat_list items))) s"
    and "\<And>x m. rdb_get key (redis s) = Some x \<Longrightarrow> load_seats x = Inl (ValueError m) \<Longrightarrow> E (ValueError m) s"
    and "\<not> truthy_value (rdb_get key (redis s)) \<Longrightarrow>
      vc v load (\<lambda>items s'. Q (Reply 200 ''success'' (Some (seat_list items)))
          (s'\<lparr>redis := rdb_set key (SeatsJson items) (Some SEAT_CACHE_TTL) (redis s')\<rparr>) \<and>
        (\<forall>m. E (ExternalError m) s')) E s"
    and "\<And>m. E (ExternalError m) s"
  shows "vc v (through_cache R key load) Q E s"
  unfolding through_cache_def
proof (intro vc_bnd vc_get vc_if vc_lift_res vc_ret, goal_cases)
  case (1 items)
  then obtain x where "rdb_get key (redis s) = Some x" by (auto simp: truthy_value_def)
  with 1 assms(1) show ?case by (auto simp: load_seats_def split: rvalue.splits)
next
  case (2 e)
  then obtain x where x: "rdb_get key (redis s) = Some x" by (auto simp: truthy_value_def)
  with 2 obtain m where "e = ValueError m" by (auto simp: load_seats_def split: rvalue.splits)
  with 2 x assms(2) show ?case by simp
next
  case 3
  then show ?case
    by (intro vc_conseq [OF assms(3)] vc_bnd vc_set_ex vc_ret) auto
qed (rule assms(4))

lemma vc_event_rows:
  assumes "fresh_session s" and "distinct (map ev_id (events (com s)))"
    and "\<And>e. e \<in> set (events (com s)) \<Longrightarrow> ev_id e = i \<Longrightarrow> Q (Some e) s"
    and "i \<notin> ev_id ` set (events (com s)) \<Longrightarrow> Q None s" and "\<And>m. E (ExternalError m) s"
  shows "vc v (event_get_by_id D i) Q E s"
  by (rule vc_event_get_by_id) (use assms in \<open>simp_all add: fresh_session_def\<close>)

lemma vc_seat_page:
  assumes "ses s = com s" and "\<And>items. seat_page ev (com s) items \<Longrightarrow> Q items s" and "\<And>m. E (ExternalError m) s"
  shows "vc v (bnd (seat_get_by_event_id D ev) (\<lambda>xs. ret (map to_seat_response xs))) Q E s"
  unfolding seat_get_by_event_id_def
  by (intro vc_bnd vc_q_seats_ordered vc_ret) (use assms in \<open>auto intro: seat_pageI\<close>)

lemma vc_get_event_seats:
  assumes fresh: "fresh_session s" and ids: "distinct (map ev_id (events (com s)))"
    and ok: "\<And>items s'. com s' = com s \<Longrightarrow> redis s' = redis s \<Longrightarrow>
      rdb_get (CACHE_SEATS_KEY (uuid_str ev)) (redis s) = Some (SeatsJson items) \<Longrightarrow>
      Q (Reply 200 ''success (cached)'' (Some (seat_list items))) s'"
    and miss: "\<And>items s'. com s' = com s \<Longrightarrow>
      redis s' = rdb_set (CACHE_SEATS_KEY (uuid_str ev)) (SeatsJson items) (Some SEAT_CACHE_TTL) (redis s) \<Longrightarrow>
      seat_page ev (com s) items \<Longrightarrow> ev \<in> ev_id ` set (events (com s)) \<Longrightarrow>
      \<not> truthy_value (rdb_get (CACHE_SEATS_KEY (uuid_str ev)) (redis s)) \<Longrightarrow>
      Q (Reply 200 ''success'' (Some (seat_list items))) s'"
    and none: "\<And>s'. com s' = com s \<Longrightarrow> redis s' = redis s \<Longrightarrow> ev \<notin> ev_id ` set (events (com s)) \<Longrightarrow>
      \<not> truthy_value (rdb_get (CACHE_SEATS_KEY (uuid_str ev)) (redis s)) \<Longrightarrow>
      E (HTTPException 404 ''Event not found'') s'"
    and err: "\<And>m s'. com s' = com s \<Longrightarrow> E (ExternalError m) s'"
    and bad: "\<And>x m s'. com s' = com s \<Longrightarrow> rdb_get (CACHE_SEATS_KEY (uuid_str ev)) (redis s) = Some x \<Longrightarrow>
      load_seats x = Inl (ValueError m) \<Longrightarrow> E (ValueError m) s'"
  shows "vc v (get_event_seats D R ev) Q E s"
proof -
  have ses: "ses s = com s" using fresh by (simp add: fresh_session_def)
  have page: "vc v (bnd (get_seats_by_event D ev) (\<lambda>found. ret (case found of Some l \<Rightarrow> sl_items l | None \<Rightarrow> []))) P F s"
    if "ev \<in> ev_id ` set (events (com s))" and "\<And>items. seat_page ev (com s) items \<Longrightarrow> P items s"
      and "\<And>m. F (ExternalError m) s" for P F
    unfolding get_seats_by_event_def bnd_assoc
    by (rule vc_bnd, rule vc_event_rows [OF fresh ids]; (unfold option.case bnd_ret bnd_assoc)?)
      (use that in \<open>auto intro!: vc_bnd vc_q_seats_ordered vc_ret that(2) seat_pageI
        simp: seat_get_by_event_id_def seat_list_def ses\<close>)
  show ?thesis
    unfolding get_event_seats_def
    by (rule vc_get_db, rule vc_through_cache; (unfold get_event_by_id_def bnd_assoc bnd_ret)?;
        (rule vc_bnd, rule vc_event_rows [OF fresh ids])?; (unfold option.map option.case)?;
        (rule vc_raising page)?)
      (auto intro!: ok miss none err bad intro: rev_image_eqI)
qed

end

section \<open>Properties\<close>

text \<open>C23: the seats of an event come from the cache as they are there, or from the database in display
  order, and then they are cached for ten seconds; an unknown event is a 404 unless a list is
  cached for it. The tables never change.\<close>

theorem get_event_seats_outcome:
  assumes "backend R D T v" and "fresh_session (v w)" and "distinct (map ev_id (events (com (v w))))"
    and "key = CACHE_SEATS_KEY (uuid_str ev)"
  shows "wp (get_event_seats D R ev)
    (\<lambda>reply w'. com (v w') = com (v w) \<and> (\<exists>items.
       reply = Reply 200 ''success (cached)'' (Some (seat_list items)) \<and> redis (v w') = redis (v w) \<and>
         rdb_get key (redis (v w)) = Some (SeatsJson items) \<or>
       reply = Reply 200 ''success'' (Some (seat_list items)) \<and> seat_page ev (com (v w)) items \<and>
         ev \<in> ev_id ` set (events (com (v w))) \<and>
         redis (v w') = rdb_set key (SeatsJson items) (Some 10000) (redis (v w))))
    (\<lambda>x w'. com (v w') = com (v w) \<and>
      (x = HTTPException 404 ''Event not found'' \<and> ev \<notin> ev_id ` set (events (com (v w))) \<or>
       (\<exists>m. x = ValueError m) \<or> is_external x)) w"
proof -
  have "vc v (get_event_seats D R ev)
    (\<lambda>reply s'. com s' = com (v w) \<and> (\<exists>items.
       reply = Reply 200 ''success (cached)'' (Some (seat_list items)) \<and> redis s' = redis (v w) \<and>
         rdb_get key (redis (v w)) = Some (SeatsJson items) \<or>
       reply = Reply 200 ''success'' (Some (seat_list items)) \<and> seat_page ev (com (v w)) items \<and>
         ev \<in> ev_id ` set (events (com (v w))) \<and>
         redis s' = rdb_set key (SeatsJson items) (Some 10000) (redis (v w))))
    (\<lambda>x s'. com s' = com (v w) \<and>
      (x = HTTPException 404 ''Event not found'' \<and> ev \<notin> ev_id ` set (events (com (v w))) \<or>
       (\<exists>m. x = ValueError m) \<or> is_external x)) (v w)"
    by (rule backend.vc_get_event_seats [OF assms(1-3)]) (auto simp: assms(4) SEAT_CACHE_TTL_def)
  then show ?thesis by (rule vcD)
qed

definition event_tables :: tables where
  "event_tables = sample_tables\<lparr>events :=
     [\<lparr>ev_id = 9, event_name = ''Concert'', ev_description = None, ev_location = ''Hall'',
       start_at = Naive 3600000000, end_at = Naive 7200000000, total_seats = 2, available_seats = 2,
       event_created_at = Naive 0\<rparr>]\<rparr>"

theorem get_event_seats_outcome_witness:
  "wp (get_event_seats mem_db mem_redis 9)
    (\<lambda>reply w'. \<exists>items. reply = Reply 200 ''success'' (Some (seat_list items)) \<and> seat_page 9 event_tables items)
    (\<lambda>x w'. com (mview w') = event_tables) (start_mem event_tables)"
  by (rule wp_mono [OF get_event_seats_outcome [OF mem_backend]])
    (auto simp: event_tables_def)

text \<open>The two seat endpoints share one cache entry, but only one of them checks that the event
  exists. After \<open>GET /seats/<id>\<close> for an unknown event has cached the empty list,
  \<open>GET /events/<id>/seats\<close>, which is to answer 404, answers 200 with no seats.\<close>

theorem unknown_event_answered_from_cache:
  assumes "backend R D T v" and "jwt_laws J" and "fresh_session (v w)"
    and "distinct (map ev_id (events (com (v w))))"
    and "\<forall>x \<in> set (seats (com (v w))). seat_event x \<noteq> ev"
    and "rdb_get (CACHE_SEATS_KEY (uuid_str ev)) (redis (v w)) = None"
  shows "wp (seqn (get_seats D R J cfg T rq ev) (get_event_seats D R ev))
    (\<lambda>reply w'. reply = Reply 200 ''success (cached)'' (Some (seat_list [])))
    (\<lambda>x w'. is_external x \<or> (\<exists>n d. x = HTTPException n d \<and> n \<in> {401, 422})) w"
proof -
  have empty: "items = []" if "seat_page ev (com (v w)) items" for items
    using that assms(5) rows_like_length by (fastforce simp: seat_page_def)
  have ses: "ses (v w) = com (v w)" using assms(3) by (simp add: fresh_session_def)
  have "vc v (seqn (get_seats D R J cfg T rq ev) (get_event_seats D R ev))
    (\<lambda>reply s'. reply = Reply 200 ''success (cached)'' (Some (seat_list [])))
    (\<lambda>x s'. is_external x \<or> (\<exists>n d. x = HTTPException n d \<and> n \<in> {401, 422})) (v w)"
    unfolding get_seats_def
  proof (rule vc_bnd, rule db_laws.vc_get_db [OF backend.axioms(2) [OF assms(1)]], rule vc_bnd,
      rule vc_current_user [OF assms(2) lock_services.axioms(2) [OF backend.axioms(1) [OF assms(1)]]], goal_cases)
    case (1 c t)
    show ?case
    proof (rule backend.vc_through_cache [OF assms(1)], goal_cases)
      case 3
      show ?case
        by (rule backend.vc_seat_page [OF assms(1)])
          (auto simp: ses assms(4) truthy_value_def load_seats_def dest!: empty
            intro!: backend.vc_get_event_seats [OF assms(1)])
    qed (use assms(6) in simp_all)
  qed auto
  then show ?thesis by (rule vcD)
qed

theorem unknown_event_answered_from_cache_witness:
  "wp (seqn (get_seats mem_db mem_redis plain_jwt (default_settings ''db'' ''k'') mem_runtime user_request 8)
      (get_event_seats mem_db mem_redis 8))
    (\<lambda>reply w'. status_code reply = 200) (\<lambda>x w'. is_external x \<or> (\<exists>n d. x = HTTPException n d \<and> n \<in> {401, 422}))
    (start_mem event_tables)"
  by (rule wp_mono [OF unknown_event_answered_from_cache [OF mem_backend plain_jwt_laws]])
    (auto simp: event_tables_def sample_tables_def sample_seat_def)

end
