(* ===== verification/Api.thy ===== *)
theory Api
  imports Catalogue Payment_Service
begin

text \<open>
  The endpoints of \<open>src/api/v1/reservations.py\<close> and \<open>src/api/v1/payments.py\<close>, with the session of
  the request and the guard as FastAPI resolves them (the guard before the body), and what a client
  of the whole stack of \<open>src/main.py\<close> may conclude from a status code.
\<close>

section \<open>reservations.py\<close>

text \<open>A body that a validator refuses is FastAPI's 422.\<close>

definition validated :: "exn + 'a \<Rightarrow> ('w, 'a) py" where
  "validated r = (case r of Inr a \<Rightarrow> ret a | Inl _ \<Rightarrow> raising (HTTPException 422 ''Invalid body''))"

definition hold_seats_endpoint ::
  "'w db_session \<Rightarrow> 'w redis_client \<Rightarrow> jwt_lib \<Rightarrow> settings \<Rightarrow> 'w runtime \<Rightarrow> request \<Rightarrow> uuid list \<Rightarrow>
    ('w, reservation_response reply) py" where
  "hold_seats_endpoint D R J cfg T rq body =
     get_db D
       (bnd (current_user J cfg T rq) (\<lambda>user.
        bnd (validated (validate_seat_count body)) (\<lambda>seat_ids.
        bnd (lift_res (claim_str ''sub'' user)) (\<lambda>user_id.
        bnd (lift_res (claim_str ''event_id'' user)) (\<lambda>event_id.
        bnd (hold_seats D R T user_id event_id seat_ids) (\<lambda>result.
        ret (Reply 201 ''Seats held successfully'' (Some result))))))))"

definition get_reservation_endpoint ::
  "'w db_session \<Rightarrow> jwt_lib \<Rightarrow> settings \<Rightarrow> 'w runtime \<Rightarrow> request \<Rightarrow> uuid \<Rightarrow>
    ('w, reservation_response reply) py" where
  "get_reservation_endpoint D J cfg T rq rid =
     get_db D
       (bnd (current_user J cfg T rq) (\<lambda>user.
        bnd (lift_res (claim_str ''sub'' user)) (\<lambda>user_id.
        bnd (get_reservation D rid user_id) (\<lambda>result.
        ret (Reply 200 ''success'' (Some result))))))"

definition cancel_reservation_endpoint ::
  "'w db_session \<Rightarrow> 'w redis_client \<Rightarrow> jwt_lib \<Rightarrow> settings \<Rightarrow> 'w runtime \<Rightarrow> request \<Rightarrow> uuid \<Rightarrow>
    ('w, reservation_response reply) py" where
  "cancel_reservation_endpoint D R J cfg T rq rid =
     get_db D
       (bnd (current_user J cfg T rq) (\<lambda>user.
        bnd (lift_res (claim_str ''sub'' user)) (\<lambda>user_id.
        bnd (cancel_reservation D R T rid user_id) (\<lambda>result.
        ret (Reply 200 ''Reservation cancelled'' (Some result))))))"

definition release_user_holds_internal ::
  "'w db_session \<Rightarrow> 'w redis_client \<Rightarrow> settings \<Rightarrow> 'w runtime \<Rightarrow> string option \<Rightarrow> string \<Rightarrow>
    ('w, (nat \<times> string) reply) py" where
  "release_user_holds_internal D R cfg T x_internal_secret user_id =
     get_db D
       (if internal_secret cfg = [] \<or> x_internal_secret \<noteq> Some (internal_secret cfg)
        then raising (HTTPException 403 ''Forbidden'')
        else bnd (release_user_holds D R T user_id) (\<lambda>released.
          ret (Reply 200 [] (Some (released, user_id)))))"

section \<open>payments.py\<close>

definition process_payment_endpoint ::
  "'w db_session \<Rightarrow> 'w redis_client \<Rightarrow> jwt_lib \<Rightarrow> settings \<Rightarrow> 'w runtime \<Rightarrow> request \<Rightarrow> uuid \<Rightarrow>
    payment_method \<Rightarrow> rat \<Rightarrow> ('w, payment_response reply) py" where
  "process_payment_endpoint D R J cfg T rq rid method amount =
     get_db D
       (bnd (current_user J cfg T rq) (\<lambda>user.
        bnd (lift_res (claim_str ''sub'' user)) (\<lambda>user_id.
        bnd (process_payment D R T user_id rid (payment_method_text method) amount) (\<lambda>result.
        ret (Reply 201 ''Payment processed'' (Some result))))))"

definition get_payment_endpoint ::
  "'w db_session \<Rightarrow> jwt_lib \<Rightarrow> settings \<Rightarrow> 'w runtime \<Rightarrow> request \<Rightarrow> uuid \<Rightarrow> ('w, payment_response reply) py" where
  "get_payment_endpoint D J cfg T rq pid =
     get_db D
       (bnd (current_user J cfg T rq) (\<lambda>user.
        bnd (lift_res (claim_str ''sub'' user)) (\<lambda>user_id.
        bnd (get_payment D pid user_id) (\<lambda>result.
        ret (Reply 200 ''success'' (Some result))))))"

section \<open>The stack around a handler\<close>

definition reply_of :: "exn \<Rightarrow> 'a reply" where
  "reply_of e = (case e of HTTPException code detail \<Rightarrow> DetailReply code detail | _ \<Rightarrow> error_response e)"

lemma reply_of_status:
  "status_code (reply_of (HTTPException c d)) = c" "status_code (reply_of (ValueError m)) = 400"
  "status_code (reply_of (ReservationExpiredError m)) = 410"
  "status_code (reply_of (BusinessLogicError m)) = 409" "status_code (reply_of (SeatNotAvailableError m)) = 409"
  "status_code (reply_of (ReservationNotFoundError m)) = 409" "status_code (reply_of (DuplicateReservationError m)) = 409"
  "status_code (reply_of (EventNotFoundError m)) = 409"
  "status_code (reply_of (PaymentAmountMismatchError p q)) = 409" "status_code (reply_of (LockAcquireError m)) = 500"
  "status_code (reply_of (TypeError m)) = 500" "status_code (reply_of (OtherError m)) = 500"
  "status_code (reply_of (JWTError m)) = 500"
  "status_code (reply_of (ApiException m)) = 500" "status_code (reply_of (ExternalError m)) = 500"
  by (simp_all add: reply_of_def error_response_def)

text \<open>What the limiter leaves for the handler: the same tables and session, a later clock.\<close>

definition as_arrived :: "vstate \<Rightarrow> vstate \<Rightarrow> bool" where
  "as_arrived s s' \<longleftrightarrow> com s' = com s \<and> ses s' = ses s \<and> imap s' = imap s \<and> clk s \<le> clk s' \<and>
     tz_columns s' = tz_columns s \<and> dups s' = dups s"

lemma as_arrived_fresh: "as_arrived s s' \<Longrightarrow> fresh_session s' = fresh_session s"
  by (simp add: as_arrived_def fresh_session_def)

context lock_services
begin

lemma vc_serve:
  assumes "jwt_laws J"
    and "\<And>s'. as_arrived s s' \<Longrightarrow> vc v handler Q (\<lambda>e. Q (reply_of e)) s'"
    and "\<And>w s'. as_arrived s s' \<Longrightarrow> Q (RetryAfter 429 w) s'"
  shows "vc v (serve R J cfg T rq handler) Q E s"
  unfolding serve_def
proof (rule vc_error_handler, rule vc_logger_middleware, rule vc_rate_limiter [OF assms(1), where P = "as_arrived s"], goal_cases)
  case (1 s')
  from 1(2) obtain c d where "s' = s\<lparr>clk := c, redis := d\<rparr>" by blast
  with 1(1) show ?case by (simp add: as_arrived_def)
next
  case (2 s')
  show ?case
    by (rule vc_http_exceptions, rule vc_conseq [OF assms(2) [OF 2]])
      (auto simp: reply_of_def split: exn.splits)
qed (rule assms(3))

end

section \<open>From the arrival of a request\<close>

text \<open>What a service did to the tables it found when it started is what it did to those at the arrival.\<close>

lemma hold_committed_arrived:
  assumes "as_arrived s s1" and "hold_committed ids u ev s1 row s'" and "com s'' = com s'" and "clk s'' = clk s'"
  shows "hold_committed ids u ev s row s''"
  using assms by (fastforce simp: hold_committed_def as_arrived_def column_dt_def)

lemma payable_arrived: "as_arrived s s1 \<Longrightarrow> payable rid u amount s1 r \<Longrightarrow> payable rid u amount s r"
  by (fastforce simp: payable_def as_arrived_def)

lemma payment_row_arrived: "as_arrived s s1 \<Longrightarrow> payment_row u rid m a st s1 p = payment_row u rid m a st s p"
  by (simp add: payment_row_def as_arrived_def)

text \<open>The tables after a hold of the seats, and after a payment with a row of the given status.\<close>

definition held_for :: "uuid list \<Rightarrow> vstate \<Rightarrow> reservation \<Rightarrow> vstate \<Rightarrow> bool" where
  "held_for ids s row s' \<longleftrightarrow> (\<exists>u ev. hold_committed ids u ev s row s')"

definition paid_for ::
  "uuid \<Rightarrow> rat \<Rightarrow> payment_status \<Rightarrow> (reservation \<Rightarrow> tables \<Rightarrow> tables) \<Rightarrow> vstate \<Rightarrow> payment \<Rightarrow> vstate \<Rightarrow> bool" where
  "paid_for rid amount st f s p s' \<longleftrightarrow>
     (\<exists>u user_id m r. payable rid user_id amount s r \<and> payment_row u rid m amount st s p \<and>
        com s' = with_payment p (f r (com s)))"

text \<open>What the status of a hold's answer tells.\<close>

definition hold_reply_ok ::
  "uuid list \<Rightarrow> vstate \<Rightarrow> reservation_response reply \<Rightarrow> vstate \<Rightarrow> bool" where
  "hold_reply_ok ids s reply s' \<longleftrightarrow>
     (if status_code reply = 201
      then \<exists>row. held_for ids s row s' \<and> reply = Reply 201 ''Seats held successfully''
        (Some (to_reservation_response row (seats_total (\<lambda>x. seat_id x \<in> set ids) (com s))))
      else if status_code reply = 500 then com s' = com s \<or> (\<exists>row. held_for ids s row s')
      else status_code reply \<in> {400, 401, 409, 422, 429} \<and> com s' = com s)"

definition pay_reply_ok :: "uuid \<Rightarrow> rat \<Rightarrow> vstate \<Rightarrow> payment_response reply \<Rightarrow> vstate \<Rightarrow> bool" where
  "pay_reply_ok rid amount s reply s' \<longleftrightarrow>
     (case status_code reply of c \<Rightarrow>
        if c = 201 then \<exists>p. paid_for rid amount PaymentCompleted complete_tables s p s' \<and>
          reply = Reply 201 ''Payment processed'' (Some (to_payment_response p))
        else if c = 409 then com s' = com s \<or> (\<exists>p. paid_for rid amount Failed (\<lambda>_ t. t) s p s')
        else if c = 410 then com s' = com s \<or> (\<exists>p. paid_for rid amount Pending (\<lambda>_ t. t) s p s')
        else if c = 500 then com s' = com s \<or>
          (\<exists>p st f. paid_for rid amount st f s p s' \<and> f \<in> {complete_tables, (\<lambda>_ t. t)})
        else c \<in> {400, 401, 422, 429} \<and> com s' = com s)"

lemma vc_validated:
  "(\<And>a. r = Inr a \<Longrightarrow> Q a s) \<Longrightarrow> E (HTTPException 422 ''Invalid body'') s \<Longrightarrow> vc v (validated r) Q E s"
  by (cases r) (auto simp: validated_def intro: vc_ret vc_raising)

lemma claim_str_error: "claim_str k c = Inl e \<Longrightarrow> \<exists>m. e = OtherError m"
  by (auto simp: claim_str_def split: option.splits claim.splits)

lemma validate_seat_count_same: "validate_seat_count ids = Inr xs \<Longrightarrow> xs = ids"
  by (auto simp: validate_seat_count_def split: if_splits)

context backend
begin

lemma vc_hold_seats_endpoint:
  assumes J: "jwt_laws J" and fresh: "fresh_session s" and ok: "booking_ok (com s)"
  shows "vc v (serve R J cfg T rq (hold_seats_endpoint D R J cfg T rq ids)) (hold_reply_ok ids s) E s"
proof -
  have none: "hold_reply_ok ids s reply s'"
    if "status_code reply \<in> {400, 401, 409, 422, 429, 500}" "com s' = com s" for reply s'
    using that by (auto simp: hold_reply_ok_def)
  have lost: "hold_reply_ok ids s reply s'" if "status_code reply = 500" "held_for ids s row s'" for reply row s'
    using that by (auto simp: hold_reply_ok_def)
  have held: "held_for ids s row (discard s')" if "as_arrived s s1" "hold_committed ids u ev (s1\<lparr>clk := t\<rparr>) row s'"
    "clk s1 \<le> t" for s1 t u ev row s'
  proof -
    have "as_arrived s (s1\<lparr>clk := t\<rparr>)" using that by (simp add: as_arrived_def)
    from hold_committed_arrived [OF this that(2), of "discard s'"] show ?thesis by (auto simp: held_for_def)
  qed
  show ?thesis
  proof (rule vc_serve [OF J])
    fix s1
    assume a: "as_arrived s s1"
    note fresh1 = as_arrived_fresh [OF a, THEN iffD2, OF fresh]
    have com1: "com s1 = com s" using a by (simp add: as_arrived_def)
    show "vc v (hold_seats_endpoint D R J cfg T rq ids) (hold_reply_ok ids s) (\<lambda>e. hold_reply_ok ids s (reply_of e)) s1"
      unfolding hold_seats_endpoint_def
    proof (rule vc_get_db, rule vc_bnd, rule vc_current_user [OF J runtime_laws_axioms], rule vc_bnd,
        rule vc_validated, rule vc_bnd, rule vc_lift_res, rule vc_bnd, rule vc_lift_res, rule vc_bnd, goal_cases)
      case (1 c t xs user_id event_id)
      then have "xs = ids" by (simp add: validate_seat_count_same)
      have start: "fresh_session (s1\<lparr>clk := t\<rparr>)" "booking_ok (com (s1\<lparr>clk := t\<rparr>))"
        using fresh1 ok com1 by (simp_all add: fresh_session_def)
      show ?case
        unfolding \<open>xs = ids\<close>
      proof (rule vc_conseq [OF vc_hold_seats [OF start]], goal_cases)
        case (1 resp s')
        then obtain u ev row where h: "hold_committed ids u ev (s1\<lparr>clk := t\<rparr>) row s'"
          and resp: "resp = to_reservation_response row (seats_total (\<lambda>x. seat_id x \<in> set ids) (com s))"
          by (auto simp: hold_result_def com1)
        from held [OF a h] \<open>clk s1 \<le> t\<close> have row: "held_for ids s row (discard s')" by simp
        then have "hold_reply_ok ids s (Reply 201 ''Seats held successfully'' (Some resp)) (discard s')"
          by (auto simp: hold_reply_ok_def resp)
        with row show ?case by (auto intro!: vc_ret lost simp: reply_of_status)
      next
        case (2 x s')
        then have tables: "com s' = com s \<or> (\<exists>m u ev row. x = ExternalError m \<and> hold_committed ids u ev (s1\<lparr>clk := t\<rparr>) row s')"
          and status: "status_code (reply_of x) \<in> {400, 401, 409, 422, 429, 500}"
          by (auto simp: hold_failed_def hold_reason_def com1 reply_of_status split: exn.splits)
        from tables show ?case
        proof (elim disjE exE conjE)
          assume "com s' = com s"
          with status show ?thesis by (intro conjI allI none) (simp_all add: reply_of_status)
        next
          fix m u ev row
          assume "x = ExternalError m" "hold_committed ids u ev (s1\<lparr>clk := t\<rparr>) row s'"
          with held [OF a this(2) \<open>clk s1 \<le> t\<close>] show ?thesis by (auto intro!: lost simp: reply_of_status)
        qed
      qed
    qed (auto simp: reply_of_status com1 dest!: claim_str_error intro!: none)
  qed (use none in \<open>auto simp: as_arrived_def\<close>)
qed

lemma vc_process_payment_endpoint:
  assumes J: "jwt_laws J" and fresh: "fresh_session s" and ok: "booking_ok (com s)"
    and distinct: "distinct (map payment_id (payments (com s)))"
  shows "vc v (serve R J cfg T rq (process_payment_endpoint D R J cfg T rq rid method amount))
    (pay_reply_ok rid amount s) E s"
proof -
  have none: "pay_reply_ok rid amount s reply s'"
    if "status_code reply \<in> {400, 401, 409, 410, 422, 429, 500}" "com s' = com s" for reply s'
    using that by (auto simp: pay_reply_ok_def)
  show ?thesis
  proof (rule vc_serve [OF J])
    fix s1
    assume a: "as_arrived s s1"
    note fresh1 = as_arrived_fresh [OF a, THEN iffD2, OF fresh]
    have com1: "com s1 = com s" using a by (simp add: as_arrived_def)
    show "vc v (process_payment_endpoint D R J cfg T rq rid method amount) (pay_reply_ok rid amount s)
        (\<lambda>e. pay_reply_ok rid amount s (reply_of e)) s1"
      unfolding process_payment_endpoint_def
    proof (rule vc_get_db, rule vc_bnd, rule vc_current_user [OF J runtime_laws_axioms], rule vc_bnd,
        rule vc_lift_res, rule vc_bnd, goal_cases)
      case (1 c t user_id)
      let ?s2 = "s1\<lparr>clk := t\<rparr>"
      have a2: "as_arrived s ?s2" using a 1 by (simp add: as_arrived_def)
      have start: "fresh_session ?s2" "booking_ok (com ?s2)" "distinct (map payment_id (payments (com ?s2)))"
        using fresh1 ok distinct com1 by (simp_all add: fresh_session_def)
      have paid: "paid_for rid amount st f s p (discard s')"
        if "payable rid user_id amount ?s2 r" "payment_row u rid m amount st ?s2 p"
          "com s' = with_payment p (f r (com s))" for u m r st f p s'
        using payable_arrived [OF a2 that(1)] that(2,3)
        unfolding payment_row_arrived [OF a2] paid_for_def by auto
      show ?case
      proof (rule vc_conseq [OF vc_process_payment [OF start]], goal_cases)
        case (1 resp s')
        then obtain p where p: "paid_for rid amount PaymentCompleted complete_tables s p (discard s')"
          and resp: "resp = to_payment_response p"
          by (auto simp: payment_made_def com1 intro!: paid)
        then show ?case by (auto intro!: vc_ret simp: pay_reply_ok_def reply_of_status)
      next
        case (2 x s')
        have lost: "pay_reply_ok rid amount s reply (discard s')"
          if "status_code reply = 500" "paid_for rid amount st f s p (discard s')"
            "f = complete_tables \<or> f = (\<lambda>_ t. t)" for reply st f p
          using that by (auto simp: pay_reply_ok_def)
        from 2 consider "payment_refused rid user_id amount ?s2 x s'"
          | u where "payment_broken u rid user_id (payment_method_text method) amount ?s2 x s'"
          by (auto simp: payment_failed_def)
        then show ?case
        proof cases
          case 1
          then have "com s' = com s" "status_code (reply_of x) \<in> {400, 401, 409, 410, 422, 429, 500}"
            by (auto simp: payment_refused_def com1 reply_of_status split: exn.splits)
          then show ?thesis by (intro conjI allI none) (simp_all add: reply_of_status)
        next
          case (2 u)
          then obtain st f p where p: "paid_for rid amount st f s p (discard s')"
            and f: "f = complete_tables \<or> f = (\<lambda>_ t. t)"
            and x: "is_external x \<or> f = (\<lambda>_ t. t) \<and> (st = Failed \<and> x = PG_DECLINED \<or> st = Pending \<and>
              (\<exists>m. x = ReservationExpiredError m \<or> x = LockAcquireError m))"
            using paid [where f = "\<lambda>_ t. t"] paid [where f = complete_tables]
            unfolding payment_broken_def by (elim exE conjE disjE) (simp_all add: com1, blast+)
          from x have "pay_reply_ok rid amount s (reply_of x) (discard s')"
          proof (elim disjE conjE exE)
            assume "is_external x"
            with lost [OF _ p f] show ?thesis by (cases x) (simp_all add: reply_of_status)
          next
            fix m
            assume "x = LockAcquireError m"
            with lost [OF _ p f] show ?thesis by (simp add: reply_of_status)
          qed (use p in \<open>auto simp: pay_reply_ok_def reply_of_status PG_DECLINED_def\<close>)
          with lost [OF _ p f] show ?thesis by (simp add: reply_of_status)
        qed
      qed
    qed (auto simp: reply_of_status com1 dest!: claim_str_error intro!: none)
  qed (use none in \<open>auto simp: as_arrived_def\<close>)
qed

lemma vc_release_internal:
  assumes fresh: "fresh_session s" and ok: "booking_ok (com s)" and u: "uuid_parse user_id = Inr u"
    and allowed: "secret = Some (internal_secret cfg)" "internal_secret cfg \<noteq> []"
  shows "vc v (release_user_holds_internal D R cfg T secret user_id)
    (\<lambda>reply s'. \<exists>n. reply = Reply 200 [] (Some (n, user_id)) \<and> cancels (\<lambda>r. res_user r = u) (com s) n (com s'))
    (\<lambda>x s'. is_external x \<and> (\<exists>n. cancels (\<lambda>r. res_user r = u) (com s) n (com s'))) s"
  unfolding release_user_holds_internal_def
proof (rule vc_get_db, rule vc_if, goal_cases)
  case 2
  show ?case
    by (rule vc_bnd, rule vc_conseq [OF vc_release_user_holds [OF fresh ok u]]) (auto intro!: vc_ret)
qed (use allowed in auto)

end

section \<open>Properties\<close>

text \<open>C8: every request to hold seats is answered, and the status tells what happened to the booking:
  201 that exactly the named seats are now held by one new reservation, which the answer shows with
  the sum of their prices; 400, 401, 409, 422 and 429 that no table changed; 500 that the hold was
  either made or not. The booking invariant holds after each.\<close>

theorem hold_seats_endpoint_answers:
  assumes "backend R D T v" and "jwt_laws J" and "fresh_session (v w)" and "booking_ok (com (v w))"
  shows "wp (serve R J cfg T rq (hold_seats_endpoint D R J cfg T rq ids))
    (\<lambda>reply w'. hold_reply_ok ids (v w) reply (v w') \<and> booking_ok (com (v w'))) (\<lambda>e w'. False) w"
proof -
  have "booking_ok (com s')" if "hold_reply_ok ids (v w) reply s'" for reply s'
    using that assms(4) booking_ok_hold_committed [OF assms(4)]
    by (auto simp: hold_reply_ok_def held_for_def split: if_splits)
  then show ?thesis
    by (intro wp_mono [OF vcD [OF backend.vc_hold_seats_endpoint [OF assms]]]) auto
qed

theorem hold_seats_endpoint_answers_witness:
  "wp (serve mem_redis plain_jwt (default_settings ''db'' ''k'') mem_runtime user_request
      (hold_seats_endpoint mem_db mem_redis plain_jwt (default_settings ''db'' ''k'') mem_runtime user_request [1, 1]))
    (\<lambda>reply w'. booking_ok (com (mview w')) \<and> status_code reply \<noteq> 404) (\<lambda>e w'. False) (start_mem sample_tables)"
  by (rule wp_mono [OF hold_seats_endpoint_answers [OF mem_backend plain_jwt_laws]])
    (auto simp: sample_tables_ok hold_reply_ok_def split: if_splits)

text \<open>C9: every payment request is answered, and the status tells what happened: 201 that the amount
  was the sum of the seats' prices, the reservation is completed, its seats are sold and one completed
  payment row was added; 400, 401, 422 and 429 that no table changed; 409 that no seat and no
  reservation changed, with at most a failed payment row added; 410 the same, but the row may be
  left pending although the gateway took the money; 500 leaves the stage open. The booking invariant
  holds after each.\<close>

theorem process_payment_endpoint_answers:
  assumes "backend R D T v" and "jwt_laws J" and "fresh_session (v w)" and "booking_ok (com (v w))"
    and "distinct (map payment_id (payments (com (v w))))"
  shows "wp (serve R J cfg T rq (process_payment_endpoint D R J cfg T rq rid method amount))
    (\<lambda>reply w'. pay_reply_ok rid amount (v w) reply (v w') \<and> booking_ok (com (v w'))) (\<lambda>e w'. False) w"
proof -
  have paid: "booking_ok (com s')" if "paid_for rid amount st f (v w) p s'" "f \<in> {complete_tables, (\<lambda>_ t. t)}" for st f p s'
    using that assms(4) booking_ok_complete [OF assms(4)] by (auto simp: paid_for_def payable_def)
  have "booking_ok (com s')" if "pay_reply_ok rid amount (v w) reply s'" for reply s'
    using that assms(4) by (auto simp: pay_reply_ok_def split: if_splits dest: paid)
  then show ?thesis
    by (intro wp_mono [OF vcD [OF backend.vc_process_payment_endpoint [OF assms]]]) auto
qed

theorem process_payment_endpoint_answers_witness:
  "wp (serve mem_redis plain_jwt (default_settings ''db'' ''k'') mem_runtime user_request
      (process_payment_endpoint mem_db mem_redis plain_jwt (default_settings ''db'' ''k'') mem_runtime user_request 5 Card 1))
    (\<lambda>reply w'. booking_ok (com (mview w')) \<and> status_code reply \<noteq> 404) (\<lambda>e w'. False) (start_mem held_tables)"
  by (rule wp_mono [OF process_payment_endpoint_answers [OF mem_backend plain_jwt_laws]])
    (simp_all add: sample_booking_ok, auto simp: pay_reply_ok_def held_tables_def sample_tables_def split: if_splits)

text \<open>The internal endpoint does nothing without the secret, and nothing at all where none is
  configured.\<close>

theorem internal_release_needs_secret:
  assumes "backend R D T v" and "fresh_session (v w)"
    and "internal_secret cfg = [] \<or> secret \<noteq> Some (internal_secret cfg)"
  shows "wp (http_exceptions (release_user_holds_internal D R cfg T secret user_id))
    (\<lambda>reply w'. reply = DetailReply 403 ''Forbidden'' \<and> v w' = v w) (\<lambda>e w'. is_external e \<and> v w' = v w) w"
proof -
  have same: "discard (v w) = v w" using assms(2) by (simp add: discard_def fresh_session_def)
  have "vc v (http_exceptions (release_user_holds_internal D R cfg T secret user_id))
    (\<lambda>reply s'. reply = DetailReply 403 ''Forbidden'' \<and> s' = v w) (\<lambda>e s'. is_external e \<and> s' = v w) (v w)"
    unfolding release_user_holds_internal_def if_P [OF assms(3)]
    by (rule vc_http_exceptions, rule db_laws.vc_get_db [OF backend.axioms(2) [OF assms(1)]])
      (auto intro!: vc_raising simp: same)
  then show ?thesis by (rule vcD)
qed

theorem internal_release_needs_secret_witness:
  "wp (http_exceptions (release_user_holds_internal mem_db mem_redis (default_settings ''db'' ''k'') mem_runtime (Some []) ''u''))
    (\<lambda>reply w'. reply = DetailReply 403 ''Forbidden'' \<and> mview w' = start_view held_tables) (\<lambda>e w'. is_external e)
    (start_mem held_tables)"
  by (rule wp_mono [OF internal_release_needs_secret [OF mem_backend]]) (auto simp: default_settings_def)

end
