(* ===== verification/Torch.thy ===== *)
theory Torch
  imports Mem_Backend
begin

text \<open>
  The interface to the code the prediction side uses beyond the backend: PyTorch with the network of
  \<open>traffic_forecaster.py\<close> (its layers are PyTorch's, their weights a file), and the locales of all
  services that prediction and scaling need. The network that is trained and the one that is loaded
  are different objects in the code: \<open>new_model\<close>, \<open>train_step\<close>, \<open>eval_loss\<close> and \<open>save_model\<close> act on the
  former, \<open>load_model\<close> and \<open>forward\<close> on the latter.
\<close>

record 'w torch =
  make_model_dir :: "('w, unit) py"
  model_exists :: "('w, bool) py"
  new_model :: "('w, unit) py"
  train_step :: "real list list list \<Rightarrow> real list list \<Rightarrow> ('w, real) py"
  eval_loss :: "real list list list \<Rightarrow> real list list \<Rightarrow> ('w, real) py"
  save_model :: "('w, unit) py"
  load_model :: "('w, unit) py"
  forward :: "real list list \<Rightarrow> ('w, real list) py"
  get_loaded :: "('w, bool) py"
  set_loaded :: "('w, unit) py"

text \<open>
  A save that fails may leave a file behind; a load needs one. The network ends in a softplus: one
  positive number for each row of its input.
\<close>

locale torch_laws =
  fixes N :: "'w torch" and v :: "'w \<Rightarrow> vstate"
  assumes make_model_dir: "refines v (make_model_dir N) (\<lambda>s. insert (Inr (), s) (fails s))"
    and model_exists: "refines v (model_exists N) (\<lambda>s. {(Inr (model_file s), s)})"
    and new_model: "refines v (new_model N) (\<lambda>s. {(Inr (), s\<lparr>train_steps := 0\<rparr>)})"
    and train_step: "refines v (train_step N X y)
      (\<lambda>s. {(Inr l, s\<lparr>train_steps := Suc (train_steps s)\<rparr>) | l. True} \<union> fails s)"
    and eval_loss: "refines v (eval_loss N X y) (\<lambda>s. {(Inr l, s) | l. True} \<union> fails s)"
    and save_model: "refines v (save_model N)
      (\<lambda>s. insert (Inr (), s\<lparr>model_file := True\<rparr>)
        {(Inl (ExternalError m), s\<lparr>model_file := b\<rparr>) | m b. model_file s \<longrightarrow> b})"
    and load_model: "refines v (load_model N) (\<lambda>s. if model_file s then insert (Inr (), s) (fails s) else fails s)"
    and forward: "refines v (forward N feats)
      (\<lambda>s. {(Inr ys, s) | ys. length ys = length feats \<and> (\<forall>y \<in> set ys. 0 < y)} \<union> fails s)"
    and get_loaded: "refines v (get_loaded N) (\<lambda>s. {(Inr (forecaster_loaded s), s)})"
    and set_loaded: "refines v (set_loaded N) (\<lambda>s. {(Inr (), s\<lparr>forecaster_loaded := True\<rparr>)})"
begin

lemma vc_make_model_dir [vc_intro]:
  "Q () s \<Longrightarrow> (\<And>m. E (ExternalError m) s) \<Longrightarrow> vc v (make_model_dir N) Q E s"
  by (rule vc_refines [OF make_model_dir]) (auto simp: law_simps)

lemma vc_model_exists [vc_intro]: "Q (model_file s) s \<Longrightarrow> vc v (model_exists N) Q E s"
  by (rule vc_refines [OF model_exists]) auto

lemma vc_new_model [vc_intro]: "Q () (s\<lparr>train_steps := 0\<rparr>) \<Longrightarrow> vc v (new_model N) Q E s"
  by (rule vc_refines [OF new_model]) auto

lemma vc_train_step [vc_intro]:
  "(\<And>l. Q l (s\<lparr>train_steps := Suc (train_steps s)\<rparr>)) \<Longrightarrow> (\<And>m. E (ExternalError m) s) \<Longrightarrow>
    vc v (train_step N X y) Q E s"
  by (rule vc_refines [OF train_step]) (auto simp: law_simps)

lemma vc_eval_loss [vc_intro]:
  "(\<And>l. Q l s) \<Longrightarrow> (\<And>m. E (ExternalError m) s) \<Longrightarrow> vc v (eval_loss N X y) Q E s"
  by (rule vc_refines [OF eval_loss]) (auto simp: law_simps)

lemma vc_save_model [vc_intro]:
  "Q () (s\<lparr>model_file := True\<rparr>) \<Longrightarrow> (\<And>m b. (model_file s \<longrightarrow> b) \<Longrightarrow> E (ExternalError m) (s\<lparr>model_file := b\<rparr>)) \<Longrightarrow>
    vc v (save_model N) Q E s"
  by (rule vc_refines [OF save_model]) (auto simp: law_simps)

lemma vc_load_model [vc_intro]:
  "(model_file s \<Longrightarrow> Q () s) \<Longrightarrow> (\<And>m. E (ExternalError m) s) \<Longrightarrow> vc v (load_model N) Q E s"
  by (rule vc_refines [OF load_model]) (auto simp: law_simps split: if_splits)

lemma vc_forward [vc_intro]:
  "(\<And>ys. length ys = length feats \<Longrightarrow> \<forall>y \<in> set ys. 0 < y \<Longrightarrow> Q ys s) \<Longrightarrow> (\<And>m. E (ExternalError m) s) \<Longrightarrow>
    vc v (forward N feats) Q E s"
  by (rule vc_refines [OF forward]) (auto simp: law_simps)

lemma vc_get_loaded [vc_intro]: "Q (forecaster_loaded s) s \<Longrightarrow> vc v (get_loaded N) Q E s"
  by (rule vc_refines [OF get_loaded]) auto

lemma vc_set_loaded [vc_intro]: "Q () (s\<lparr>forecaster_loaded := True\<rparr>) \<Longrightarrow> vc v (set_loaded N) Q E s"
  by (rule vc_refines [OF set_loaded]) auto

end

locale prediction_backend = backend R D T v + torch_laws N v
  for R :: "'w redis_client" and D :: "'w db_session" and T :: "'w runtime" and N :: "'w torch"
    and v :: "'w \<Rightarrow> vstate"

locale scaling_backend = prediction_backend R D T N v + cluster_laws K v
  for R :: "'w redis_client" and D :: "'w db_session" and T :: "'w runtime" and N :: "'w torch"
    and K :: "'w cluster" and v :: "'w \<Rightarrow> vstate"

section \<open>In memory\<close>

definition mem_torch :: "mem torch" where
  "mem_torch =
     \<lparr>make_model_dir = attempt (\<lambda>s. Some ((), s)) id,
      model_exists = always (\<lambda>s. (model_file s, s)),
      new_model = always (\<lambda>s. ((), s\<lparr>train_steps := 0\<rparr>)),
      train_step = (\<lambda>X y. attempt (\<lambda>s. Some (0, s\<lparr>train_steps := Suc (train_steps s)\<rparr>)) id),
      eval_loss = (\<lambda>X y. attempt (\<lambda>s. Some (0, s)) id),
      save_model = attempt (\<lambda>s. Some ((), s\<lparr>model_file := True\<rparr>)) id,
      load_model = attempt (\<lambda>s. if model_file s then Some ((), s) else None) id,
      forward = (\<lambda>feats. attempt (\<lambda>s. Some (replicate (length feats) (1 / 2), s)) id),
      get_loaded = always (\<lambda>s. (forecaster_loaded s, s)),
      set_loaded = always (\<lambda>s. ((), s\<lparr>forecaster_loaded := True\<rparr>))\<rparr>"

lemma mem_torch_laws: "torch_laws mem_torch mview"
proof unfold_locales
  have same: "s = s\<lparr>model_file := model_file s\<rparr>" for s :: vstate by simp
  show "refines mview (save_model mem_torch) (\<lambda>s. insert (Inr (), s\<lparr>model_file := True\<rparr>)
      {(Inl (ExternalError m), s\<lparr>model_file := b\<rparr>) | m b. model_file s \<longrightarrow> b})"
    unfolding mem_torch_def torch.simps
    by (rule refines_attempt) (simp, simp, metis same)
  show "refines mview (forward mem_torch feats)
      (\<lambda>s. {(Inr ys, s) | ys. length ys = length feats \<and> (\<forall>y \<in> set ys. 0 < y)} \<union> fails s)" for feats
    unfolding mem_torch_def torch.simps by (rule refines_attempt) (simp_all add: law_simps)
qed (unfold mem_torch_def torch.simps, (rule refines_attempt refines_always; simp add: law_simps split: if_splits)+)

interpretation mem_n: torch_laws mem_torch mview by (rule mem_torch_laws)
interpretation mem_p: prediction_backend mem_redis mem_db mem_runtime mem_torch mview by unfold_locales
interpretation mem_s: scaling_backend mem_redis mem_db mem_runtime mem_torch mem_cluster mview by unfold_locales

lemma mem_prediction_backend: "prediction_backend mem_redis mem_db mem_runtime mem_torch mview" by unfold_locales

lemma mem_scaling_backend: "scaling_backend mem_redis mem_db mem_runtime mem_torch mem_cluster mview" by unfold_locales

end
