(* ===== verification/Forecasting.thy ===== *)
theory Forecasting
  imports Models
begin

text \<open>
  \<open>src/prediction\<close>: the shared types, the feature matrix and the synthetic training data of
  \<open>traffic_forecaster.py\<close>, and the forecast of \<open>TrafficForecaster.predict\<close>. Floating-point numbers
  are reals. The network (PyTorch) is not in the repository: a forecast is a function of the samples
  it gave. NumPy's random generator is a record of its draws over an opaque generator state.
\<close>

section \<open>types.py\<close>

record forecast_point =
  fp_timestamp :: pydt
  predicted_rps :: real
  fp_lower :: real
  fp_upper :: real

record scaling_window =
  from_datetime :: pydt
  to_datetime :: pydt
  sw_replicas :: int
  sw_cpu_request_m :: int
  sw_memory_request_mi :: int

section \<open>Features and training data\<close>

definition RPS_SCALE :: real where "RPS_SCALE = 5000"
definition CI_Z :: real where "CI_Z = 1645 / 1000"

definition t_fraction :: "nat \<Rightarrow> nat \<Rightarrow> real" where
  "t_fraction steps i = real i / real (max (steps - 1) 1)"

definition feature_row :: "nat \<Rightarrow> real \<Rightarrow> nat \<Rightarrow> real list" where
  "feature_row steps event_scale i =
     [t_fraction steps i, sin (2 * pi * t_fraction steps i), cos (2 * pi * t_fraction steps i), event_scale,
      (real i * 15 / 60) / 24]"

definition build_features :: "nat \<Rightarrow> real \<Rightarrow> real list list" where
  "build_features steps event_scale = map (feature_row steps event_scale) [0..<steps]"

text \<open>
  A NumPy generator: \<open>default_rng(seed)\<close> and the draws \<open>uniform\<close>, \<open>integers\<close> and
  \<open>normal(0, sd, size=n)\<close>.
\<close>

record 'g rng =
  default_rng :: "nat \<Rightarrow> 'g"
  uniform :: "real \<Rightarrow> real \<Rightarrow> 'g \<Rightarrow> real \<times> 'g"
  integers :: "int \<Rightarrow> int \<Rightarrow> 'g \<Rightarrow> int \<times> 'g"
  normals :: "real \<Rightarrow> nat \<Rightarrow> 'g \<Rightarrow> real list \<times> 'g"

text \<open>One value of the curve: warm-up, burst, tail and baseline, the peak at step 48.\<close>

definition weekly_sale_at :: "real \<Rightarrow> real \<Rightarrow> int \<Rightarrow> real \<Rightarrow> real \<Rightarrow> nat \<Rightarrow> real" where
  "weekly_sale_at peak_rps baseline pre_start sigma decay i =
     (let t = real i; peak_step = 48; window = max (peak_step - pre_start) 1;
          warmup = (if real_of_int pre_start \<le> t \<and> t < 48
                    then (peak_rps * (2 / 10)) * (t - real_of_int pre_start) / real_of_int window else 0);
          burst = peak_rps * exp (- (1 / 2) * ((t - 48) / sigma) ^ 2);
          tail = (peak_rps * (3 / 10)) * exp (- decay * max (t - 48) 0)
      in warmup + burst + tail + baseline)"

definition rps_weekly_sale ::
  "'g rng \<Rightarrow> nat \<Rightarrow> real \<Rightarrow> real \<Rightarrow> 'g \<Rightarrow> real list \<times> 'g" where
  "rps_weekly_sale G seq_len peak_rps baseline g =
     (let (lead, g1) = integers G 4 9 g;
          (sigma, g2) = uniform G 2 4 g1;
          (decay, g3) = uniform G (5 / 100) (12 / 100) g2
      in (map (weekly_sale_at peak_rps baseline (48 - lead) sigma decay) [0..<seq_len], g3))"

text \<open>One training sample: the features and the noisy, clipped, scaled curve.\<close>

definition append_sample ::
  "'g rng \<Rightarrow> real \<Rightarrow> nat \<Rightarrow> (real list list \<times> real list) list \<Rightarrow> 'g \<Rightarrow>
    (real list list \<times> real list) list \<times> 'g" where
  "append_sample G event_scale seq_len samples g =
     (let (u, g1) = uniform G 200 RPS_SCALE g; peak_rps = u * event_scale;
          (baseline, g2) = uniform G 20 80 g1;
          (noise_std, g3) = uniform G (3 / 100) (12 / 100) g2;
          (rps, g4) = rps_weekly_sale G seq_len peak_rps baseline g3;
          (noise, g5) = normals G noise_std seq_len g4;
          clipped = map2 (\<lambda>r z. max 0 (r * (1 + z))) rps noise
      in (samples @ [(build_features seq_len event_scale, map (\<lambda>r. r / RPS_SCALE) clipped)], g5))"

text \<open>A series of two openings, the second with 85 to 100 percent of the scale of the first.\<close>

definition append_series ::
  "'g rng \<Rightarrow> nat \<Rightarrow> (real list list \<times> real list) list \<times> 'g \<Rightarrow> (real list list \<times> real list) list \<times> 'g" where
  "append_series G seq_len sg =
     (let (series_scale, g1) = uniform G (3 / 10) 1 (snd sg);
          (first, g2) = append_sample G series_scale seq_len (fst sg) g1;
          (rate, g3) = uniform G (85 / 100) 1 g2
      in append_sample G (series_scale * rate) seq_len first g3)"

definition append_oneoff ::
  "'g rng \<Rightarrow> nat \<Rightarrow> (real list list \<times> real list) list \<times> 'g \<Rightarrow> (real list list \<times> real list) list \<times> 'g" where
  "append_oneoff G seq_len sg =
     (let (event_scale, g1) = uniform G (1 / 10) 1 (snd sg)
      in append_sample G event_scale seq_len (fst sg) g1)"

definition generate_synthetic_data ::
  "'g rng \<Rightarrow> nat \<Rightarrow> nat \<Rightarrow> nat \<Rightarrow> (real list list \<times> real list) list" where
  "generate_synthetic_data G n_events seq_len seed =
     (let n_series = nat \<lfloor>real n_events * 7 / 10\<rfloor> div 2; n_oneoff = n_events - n_series * 2
      in fst ((append_oneoff G seq_len ^^ n_oneoff) ((append_series G seq_len ^^ n_series) ([], default_rng G seed))))"

section \<open>The forecast\<close>

text \<open>Python's \<open>round(x, 1)\<close>: half to even.\<close>

definition round_half_even :: "real \<Rightarrow> int" where
  "round_half_even x =
     (let f = \<lfloor>x\<rfloor>; d = x - real_of_int f in
      if d < 1 / 2 then f else if 1 / 2 < d then f + 1 else if even f then f else f + 1)"

definition round1 :: "real \<Rightarrow> real" where
  "round1 x = real_of_int (round_half_even (x * 10)) / 10"

text \<open>Mean and standard deviation of the samples at one step, and NumPy's \<open>argmax\<close>.\<close>

definition step_mean :: "real list list \<Rightarrow> nat \<Rightarrow> real" where
  "step_mean samples j = sum_list (map (\<lambda>s. s ! j) samples) / real (length samples)"

definition step_std :: "real list list \<Rightarrow> nat \<Rightarrow> real" where
  "step_std samples j =
     sqrt (sum_list (map (\<lambda>s. (s ! j - step_mean samples j) ^ 2) samples) / real (length samples))"

fun argmax_from :: "(nat \<Rightarrow> real) \<Rightarrow> nat \<Rightarrow> nat list \<Rightarrow> nat" where
  "argmax_from f best [] = best"
| "argmax_from f best (j # js) = argmax_from f (if f best < f j then j else best) js"

definition SEQ_LEN :: nat where "SEQ_LEN = 96"

definition gaussian :: "int \<Rightarrow> real" where
  "gaussian offset = exp (- (1 / 2) * (real_of_int offset / 4) ^ 2)"

definition forecast_at :: "pydt \<Rightarrow> int \<Rightarrow> int \<Rightarrow> real \<Rightarrow> real \<Rightarrow> nat \<Rightarrow> forecast_point" where
  "forecast_at target granularity center peak_rps margin i =
     (let offset = int i - center; g = gaussian offset; rps = peak_rps * g in
      \<lparr>fp_timestamp = dt_plus target (minutes (offset * granularity)),
       predicted_rps = round1 (max 0 rps),
       fp_lower = round1 (max 0 (rps - margin * g)),
       fp_upper = round1 (rps + margin * g)\<rparr>)"

text \<open>
  From the samples to the points. Without a point, the \<open>max\<close> of the log line raises \<open>ValueError\<close>.
\<close>

definition forecast_points ::
  "pydt \<Rightarrow> int \<Rightarrow> int \<Rightarrow> real list list \<Rightarrow> exn + forecast_point list" where
  "forecast_points target horizon_hours granularity samples =
     (let k = argmax_from (step_mean samples) 0 [1..<SEQ_LEN];
          peak_rps = step_mean samples k * RPS_SCALE;
          margin = step_std samples k * RPS_SCALE * CI_Z
      in if granularity = 0 then Inl (OtherError ''ZeroDivisionError'')
         else
           let steps = (horizon_hours * 60) div granularity; center = steps div 2;
               points = map (forecast_at target granularity center peak_rps margin) [0..<nat steps]
           in if points = [] then Inl (ValueError ''max() arg is an empty sequence'') else Inr points)"

section \<open>Rounding\<close>

lemma round_half_even_bounds: "\<lfloor>x\<rfloor> \<le> round_half_even x" "round_half_even x \<le> \<lfloor>x\<rfloor> + 1"
  by (auto simp: round_half_even_def Let_def)

lemma round_half_even_mono: "x \<le> y \<Longrightarrow> round_half_even x \<le> round_half_even y"
proof (cases "\<lfloor>x\<rfloor> = \<lfloor>y\<rfloor>")
  case True
  moreover assume "x \<le> y"
  ultimately show ?thesis by (simp add: round_half_even_def Let_def)
next
  case False
  moreover assume "x \<le> y"
  ultimately have "\<lfloor>x\<rfloor> + 1 \<le> \<lfloor>y\<rfloor>" using floor_mono [of x y] by linarith
  then show ?thesis using round_half_even_bounds [of x] round_half_even_bounds [of y] by linarith
qed

lemma round_half_even_int [simp]: "round_half_even (real_of_int n) = n"
  by (simp add: round_half_even_def)

lemma round1_mono: "x \<le> y \<Longrightarrow> round1 x \<le> round1 y"
  unfolding round1_def by (intro divide_right_mono of_int_le_iff [THEN iffD2] round_half_even_mono) simp_all

lemma round1_zero [simp]: "round1 0 = 0"
  using round_half_even_int [of 0] by (simp add: round1_def)

lemma round1_nonneg: "0 \<le> x \<Longrightarrow> 0 \<le> round1 x"
  using round1_mono [of 0 x] by simp

section \<open>The shape of a forecast\<close>

lemma gaussian_bounds: "0 < gaussian i" "gaussian i \<le> 1" "gaussian 0 = 1"
  by (simp_all add: gaussian_def)

lemma argmax_from_mem: "argmax_from f best js \<in> set (best # js)"
  by (induction js arbitrary: best) (auto simp: Let_def)

lemma argmax_from_max: "j \<in> set (best # js) \<Longrightarrow> f j \<le> f (argmax_from f best js)"
proof (induction js arbitrary: best j)
  case (Cons k js)
  have "f best \<le> f (if f best < f k then k else best)" "f k \<le> f (if f best < f k then k else best)"
    by simp_all
  with Cons.IH [of "if f best < f k then k else best" "if f best < f k then k else best"]
  show ?case using Cons.IH [of j "if f best < f k then k else best"] Cons.prems by fastforce
qed simp

lemma step_mean_nonneg:
  assumes "\<forall>s \<in> set samples. j < length s \<and> (\<forall>y \<in> set s. 0 \<le> y)"
  shows "0 \<le> step_mean samples j"
  unfolding step_mean_def
  by (intro divide_nonneg_nonneg sum_list_nonneg) (use assms in auto)

lemma step_std_nonneg: "0 \<le> step_std samples j"
  unfolding step_std_def
  by (intro real_sqrt_ge_zero divide_nonneg_nonneg sum_list_nonneg) auto

lemma forecast_at_bounds:
  assumes "0 \<le> peak" and "0 \<le> margin"
  shows "0 \<le> fp_lower (forecast_at d g c peak margin i)"
    and "fp_lower (forecast_at d g c peak margin i) \<le> predicted_rps (forecast_at d g c peak margin i)"
    and "predicted_rps (forecast_at d g c peak margin i) \<le> fp_upper (forecast_at d g c peak margin i)"
    and "predicted_rps (forecast_at d g c peak margin i) \<le> round1 peak"
proof -
  let ?g = "gaussian (int i - c)"
  have g: "0 \<le> ?g" "?g \<le> 1" using gaussian_bounds(1,2) [of "int i - c"] by simp_all
  have "0 \<le> peak * ?g" "0 \<le> margin * ?g" "peak * ?g \<le> peak"
    using assms g by (simp_all add: mult_left_le)
  then show "0 \<le> fp_lower (forecast_at d g c peak margin i)"
    "fp_lower (forecast_at d g c peak margin i) \<le> predicted_rps (forecast_at d g c peak margin i)"
    "predicted_rps (forecast_at d g c peak margin i) \<le> fp_upper (forecast_at d g c peak margin i)"
    "predicted_rps (forecast_at d g c peak margin i) \<le> round1 peak"
    by (auto simp: forecast_at_def Let_def intro!: round1_nonneg round1_mono)
qed

text \<open>
  With samples that are not negative, a forecast has one point per step, its bounds enclose the
  prediction, and its largest prediction is at the target time.
\<close>

lemma forecast_points_shape:
  assumes "\<forall>s \<in> set samples. length s = SEQ_LEN \<and> (\<forall>y \<in> set s. 0 \<le> y)"
    and "0 < granularity" and "granularity \<le> horizon * 60"
  shows "\<exists>ps. forecast_points target horizon granularity samples = Inr ps \<and>
    int (length ps) = (horizon * 60) div granularity \<and>
    (\<forall>i < length ps. 0 \<le> fp_lower (ps ! i) \<and> fp_lower (ps ! i) \<le> predicted_rps (ps ! i) \<and>
       predicted_rps (ps ! i) \<le> fp_upper (ps ! i) \<and>
       predicted_rps (ps ! i) \<le> predicted_rps (ps ! (length ps div 2)) \<and>
       fp_timestamp (ps ! i) = dt_plus target (minutes ((int i - int (length ps div 2)) * granularity)))"
proof -
  define steps where "steps = (horizon * 60) div granularity"
  define k where "k = argmax_from (step_mean samples) 0 [1..<SEQ_LEN]"
  define peak where "peak = step_mean samples k * RPS_SCALE"
  define margin where "margin = step_std samples k * RPS_SCALE * CI_Z"
  define ps where "ps = map (forecast_at target granularity (steps div 2) peak margin) [0..<nat steps]"
  have steps: "0 < steps" using assms(2,3) by (simp add: steps_def pos_imp_zdiv_pos_iff)
  have "k < SEQ_LEN"
    using argmax_from_mem [of "step_mean samples" 0 "[1..<SEQ_LEN]"] by (auto simp: k_def SEQ_LEN_def)
  with assms(1) have "0 \<le> peak"
    by (auto simp: peak_def RPS_SCALE_def intro!: step_mean_nonneg)
  have "0 \<le> margin" by (simp add: margin_def RPS_SCALE_def CI_Z_def step_std_nonneg)
  have len: "length ps = nat steps" "int (length ps) = steps" using steps by (simp_all add: ps_def)
  have mid: "int (length ps div 2) = steps div 2" "length ps div 2 < length ps"
    using steps len by (simp_all add: zdiv_int)
  have top: "predicted_rps (ps ! (length ps div 2)) = round1 peak"
    using mid len \<open>0 \<le> peak\<close> by (simp add: ps_def forecast_at_def Let_def gaussian_bounds(3) zdiv_int)
  have "ps \<noteq> []" using steps by (simp add: ps_def)
  then have "forecast_points target horizon granularity samples = Inr ps"
    using assms(2) by (simp add: forecast_points_def Let_def ps_def steps_def k_def peak_def margin_def)
  moreover have "fp_timestamp (ps ! i) = dt_plus target (minutes ((int i - int (length ps div 2)) * granularity))"
    if "i < length ps" for i
    using that mid by (simp add: ps_def forecast_at_def Let_def)
  moreover have "0 \<le> fp_lower (ps ! i) \<and> fp_lower (ps ! i) \<le> predicted_rps (ps ! i) \<and>
      predicted_rps (ps ! i) \<le> fp_upper (ps ! i) \<and> predicted_rps (ps ! i) \<le> round1 peak" if "i < length ps" for i
    using that forecast_at_bounds [OF \<open>0 \<le> peak\<close> \<open>0 \<le> margin\<close>] by (simp add: ps_def)
  ultimately show ?thesis
    using len(2) unfolding top [symmetric] steps_def by blast
qed

section \<open>The shape of the training data\<close>

text \<open>All that is needed of the generator: \<open>normal\<close> gives as many numbers as it is asked for.\<close>

definition draws_enough :: "'g rng \<Rightarrow> bool" where
  "draws_enough G \<longleftrightarrow> (\<forall>sd n g. length (fst (normals G sd n g)) = n)"

definition sample_ok :: "nat \<Rightarrow> real list list \<times> real list \<Rightarrow> bool" where
  "sample_ok seq_len xy \<longleftrightarrow>
     length (fst xy) = seq_len \<and> (\<forall>row \<in> set (fst xy). length row = 5) \<and>
     length (snd xy) = seq_len \<and> (\<forall>y \<in> set (snd xy). 0 \<le> y)"

lemma length_weekly_sale: "length (fst (rps_weekly_sale G n p b g)) = n"
  by (simp add: rps_weekly_sale_def Let_def split: prod.split)

lemma append_sample_ok:
  assumes "draws_enough G"
  shows "\<exists>xy. fst (append_sample G scale n xs g) = xs @ [xy] \<and> sample_ok n xy"
proof -
  obtain u g1 where 1: "uniform G 200 RPS_SCALE g = (u, g1)" by fastforce
  obtain b g2 where 2: "uniform G 20 80 g1 = (b, g2)" by fastforce
  obtain sd g3 where 3: "uniform G (3 / 100) (12 / 100) g2 = (sd, g3)" by fastforce
  obtain rps g4 where 4: "rps_weekly_sale G n (u * scale) b g3 = (rps, g4)" by fastforce
  obtain z g5 where 5: "normals G sd n g4 = (z, g5)" by fastforce
  have len: "length rps = n" "length z = n"
    using length_weekly_sale [of G n "u * scale" b g3] 4 5 assms
    by (auto simp: draws_enough_def dest!: spec [where x = sd] spec [where x = n] spec [where x = g4])
  let ?xy = "(build_features n scale, map (\<lambda>r. r / RPS_SCALE) (map2 (\<lambda>r z. max 0 (r * (1 + z))) rps z))"
  have "fst (append_sample G scale n xs g) = xs @ [?xy]"
    unfolding append_sample_def Let_def 1 2 3 4 5 prod.case fst_conv ..
  moreover have "sample_ok n ?xy"
    by (auto simp: sample_ok_def len build_features_def feature_row_def RPS_SCALE_def)
  ultimately show ?thesis by blast
qed

text \<open>Every round of the two loops keeps what is there well-shaped and adds its samples.\<close>

definition grows_by :: "nat \<Rightarrow> nat \<Rightarrow> ((real list list \<times> real list) list \<times> 'g \<Rightarrow> (real list list \<times> real list) list \<times> 'g) \<Rightarrow> bool" where
  "grows_by n k f \<longleftrightarrow>
     (\<forall>sg. (\<forall>xy \<in> set (fst sg). sample_ok n xy) \<longrightarrow>
        (\<forall>xy \<in> set (fst (f sg)). sample_ok n xy) \<and> length (fst (f sg)) = length (fst sg) + k)"

lemma grows_by_sample:
  assumes "draws_enough G"
  shows "grows_by n 1 (\<lambda>sg. append_sample G scale n (fst sg) (snd sg))"
  unfolding grows_by_def
proof (intro allI impI)
  fix sg :: "(real list list \<times> real list) list \<times> 'a"
  assume "\<forall>xy \<in> set (fst sg). sample_ok n xy"
  then show "(\<forall>xy \<in> set (fst (append_sample G scale n (fst sg) (snd sg))). sample_ok n xy) \<and>
      length (fst (append_sample G scale n (fst sg) (snd sg))) = length (fst sg) + 1"
    using append_sample_ok [OF assms, of scale n "fst sg" "snd sg"] by auto
qed

lemma grows_byD:
  "grows_by n k f \<Longrightarrow> \<forall>xy \<in> set (fst sg). sample_ok n xy \<Longrightarrow>
    (\<forall>xy \<in> set (fst (f sg)). sample_ok n xy) \<and> length (fst (f sg)) = length (fst sg) + k"
  unfolding grows_by_def by blast

lemma grows_by_oneoff: "draws_enough G \<Longrightarrow> grows_by n 1 (append_oneoff G n)"
  unfolding grows_by_def
  by (intro allI impI)
    (use grows_byD [OF grows_by_sample] in \<open>force simp: append_oneoff_def split: prod.split\<close>)

lemma grows_by_series: "draws_enough G \<Longrightarrow> grows_by n 2 (append_series G n)"
  unfolding grows_by_def
proof (intro allI impI)
  fix sg :: "(real list list \<times> real list) list \<times> 'a"
  assume G: "draws_enough G" and ok: "\<forall>xy \<in> set (fst sg). sample_ok n xy"
  obtain u g1 where 1: "uniform G (3 / 10) 1 (snd sg) = (u, g1)" by fastforce
  obtain xs g2 where 2: "append_sample G u n (fst sg) g1 = (xs, g2)" by fastforce
  obtain q g3 where 3: "uniform G (85 / 100) 1 g2 = (q, g3)" by fastforce
  have "(\<forall>xy \<in> set xs. sample_ok n xy) \<and> length xs = length (fst sg) + 1"
    using grows_byD [OF grows_by_sample [OF G], where sg = "(fst sg, g1)" and n = n and scale1 = u] ok 2 by simp
  then show "(\<forall>xy \<in> set (fst (append_series G n sg)). sample_ok n xy) \<and>
      length (fst (append_series G n sg)) = length (fst sg) + 2"
    using grows_byD [OF grows_by_sample [OF G], where sg = "(xs, g3)" and n = n and scale1 = "u * q"]
    by (simp only: append_series_def Let_def 1 2 3 prod.case) simp
qed

lemma grows_by_iterate: "grows_by n k f \<Longrightarrow> grows_by n (m * k) (f ^^ m)"
proof (induction m)
  case (Suc m)
  then have f: "grows_by n k f" and fm: "grows_by n (m * k) (f ^^ m)" by simp_all
  show ?case
    unfolding grows_by_def
  proof (intro allI impI)
    fix sg :: "(real list list \<times> real list) list \<times> 'a"
    assume "\<forall>xy \<in> set (fst sg). sample_ok n xy"
    note before = grows_byD [OF fm this]
    with grows_byD [OF f conjunct1 [OF before]]
    show "(\<forall>xy \<in> set (fst ((f ^^ Suc m) sg)). sample_ok n xy) \<and>
        length (fst ((f ^^ Suc m) sg)) = length (fst sg) + Suc m * k" by simp
  qed
qed (simp add: grows_by_def)

text \<open>The training set has exactly as many samples as events were asked for, each with one row of
  five features per step and one scaled request rate per step that is never negative.\<close>

theorem synthetic_data_shape:
  assumes "draws_enough G"
  shows "length (generate_synthetic_data G n_events seq_len seed) = n_events \<and>
    (\<forall>xy \<in> set (generate_synthetic_data G n_events seq_len seed). sample_ok seq_len xy)"
proof -
  define n where "n = nat \<lfloor>real n_events * 7 / 10\<rfloor> div 2"
  have "\<lfloor>real n_events * 7 / 10\<rfloor> \<le> int n_events"
    by (rule order_trans [OF floor_mono [where y = "real n_events"]]) simp_all
  then have n: "2 * n \<le> n_events" unfolding n_def by linarith
  let ?start = "([], default_rng G seed) :: (real list list \<times> real list) list \<times> 'a"
  let ?series = "(append_series G seq_len ^^ n) ?start"
  have series: "(\<forall>xy \<in> set (fst ?series). sample_ok seq_len xy) \<and> length (fst ?series) = n * 2"
    using grows_byD [OF grows_by_iterate [OF grows_by_series [OF assms]], where sg = ?start] by simp
  have "(\<forall>xy \<in> set (fst ((append_oneoff G seq_len ^^ (n_events - n * 2)) ?series)). sample_ok seq_len xy) \<and>
      length (fst ((append_oneoff G seq_len ^^ (n_events - n * 2)) ?series)) = n * 2 + (n_events - n * 2) * 1"
    using grows_byD [OF grows_by_iterate [OF grows_by_oneoff [OF assms]], where sg = ?series] series by simp
  then show ?thesis using n by (simp add: generate_synthetic_data_def Let_def n_def)
qed

text \<open>A generator that gives the middle of every range and no noise.\<close>

definition middle_rng :: "nat rng" where
  "middle_rng = \<lparr>default_rng = id, uniform = (\<lambda>a b g. ((a + b) / 2, Suc g)),
     integers = (\<lambda>a b g. ((a + b) div 2, Suc g)), normals = (\<lambda>sd n g. (replicate n 0, Suc g))\<rparr>"

lemma middle_rng_draws [simp]: "draws_enough middle_rng"
  by (simp add: draws_enough_def middle_rng_def)

theorem synthetic_data_shape_witness:
  "length (generate_synthetic_data middle_rng 1000 96 42) = 1000"
  using synthetic_data_shape [OF middle_rng_draws] by blast

end
