(* ===== verification/Traffic_Forecaster.thy ===== *)
theory Traffic_Forecaster
  imports Torch Forecasting
begin

text \<open>
  \<open>src/prediction/traffic_forecaster.py\<close>: training on the synthetic data and saving the weights,
  loading a forecaster (which trains one where no weights exist), and \<open>TrafficForecaster.predict\<close>;
  and \<open>_get_forecaster\<close> of \<open>prediction_service.py\<close>, which keeps one per process.
\<close>

section \<open>Training\<close>

definition EPOCHS :: nat where "EPOCHS = 40"

text \<open>One epoch: an optimizer step, and every tenth time the loss on the samples held back.\<close>

definition train_epoch ::
  "'w torch \<Rightarrow> (real list list \<times> real list) list \<Rightarrow> (real list list \<times> real list) list \<Rightarrow> nat \<Rightarrow> ('w, unit) py" where
  "train_epoch N training held_back epoch =
     bnd (train_step N (map fst training) (map snd training)) (\<lambda>loss.
     if (epoch + 1) mod 10 = 0
     then bnd (eval_loss N (map fst held_back) (map snd held_back)) (\<lambda>_. ret ())
     else ret ())"

text \<open>Nine tenths of the samples are trained on; the weights are saved after the last epoch.\<close>

definition train_on :: "'w torch \<Rightarrow> (real list list \<times> real list) list \<Rightarrow> nat \<Rightarrow> ('w, unit) py" where
  "train_on N samples epochs =
     (let split = nat \<lfloor>real (length samples) * 9 / 10\<rfloor>
      in seqn (new_model N)
        (seqn (for_each (train_epoch N (take split samples) (drop split samples)) [0..<epochs])
        (save_model N)))"

definition train_and_save :: "'w torch \<Rightarrow> 'g rng \<Rightarrow> nat \<Rightarrow> ('w, unit) py" where
  "train_and_save N G epochs =
     seqn (make_model_dir N) (train_on N (generate_synthetic_data G 1000 96 42) epochs)"

text \<open>\<open>TrafficForecaster.__init__\<close>.\<close>

definition load_forecaster :: "'w torch \<Rightarrow> 'g rng \<Rightarrow> ('w, unit) py" where
  "load_forecaster N G =
     bnd (model_exists N) (\<lambda>there.
     seqn (if there then ret () else train_and_save N G EPOCHS)
     (load_model N))"

definition get_forecaster :: "'w torch \<Rightarrow> 'g rng \<Rightarrow> ('w, unit) py" where
  "get_forecaster N G =
     bnd (get_loaded N) (\<lambda>loaded.
     if loaded then ret () else seqn (load_forecaster N G) (set_loaded N))"

section \<open>Forecasts\<close>

text \<open>
  The Monte Carlo samples of the network with its dropout on. Without a sample NumPy's mean is not a number,
  which the reals have no value for; the service draws forty.
\<close>

definition draw_samples :: "'w torch \<Rightarrow> real list list \<Rightarrow> nat \<Rightarrow> ('w, real list list) py" where
  "draw_samples N feats mc_samples =
     foldM (\<lambda>samples i. bnd (forward N feats) (\<lambda>ys. ret (samples @ [ys]))) [] [0..<mc_samples]"

definition predict ::
  "'w torch \<Rightarrow> pydt \<Rightarrow> int \<Rightarrow> int \<Rightarrow> real \<Rightarrow> nat \<Rightarrow> ('w, forecast_point list) py" where
  "predict N target_datetime horizon_hours granularity_minutes event_scale mc_samples =
     bnd (draw_samples N (build_features SEQ_LEN event_scale) mc_samples) (\<lambda>samples.
     lift_res (forecast_points target_datetime horizon_hours granularity_minutes samples))"

section \<open>Rules\<close>

text \<open>The points of a forecast.\<close>

definition forecast_ok :: "pydt \<Rightarrow> int \<Rightarrow> int \<Rightarrow> forecast_point list \<Rightarrow> bool" where
  "forecast_ok target horizon granularity ps \<longleftrightarrow>
     int (length ps) = (horizon * 60) div granularity \<and>
     (\<forall>i < length ps. 0 \<le> fp_lower (ps ! i) \<and> fp_lower (ps ! i) \<le> predicted_rps (ps ! i) \<and>
        predicted_rps (ps ! i) \<le> fp_upper (ps ! i) \<and>
        predicted_rps (ps ! i) \<le> predicted_rps (ps ! (length ps div 2)) \<and>
        fp_timestamp (ps ! i) = dt_plus target (minutes ((int i - int (length ps div 2)) * granularity)))"

text \<open>Only the forecaster's own part of the view changes.\<close>

definition forecaster_only :: "vstate \<Rightarrow> vstate \<Rightarrow> bool" where
  "forecaster_only s s' \<longleftrightarrow>
     s' = s\<lparr>model_file := model_file s', train_steps := train_steps s', forecaster_loaded := forecaster_loaded s'\<rparr>"

lemma forecaster_only_refl [simp, intro]: "forecaster_only s s"
  by (simp add: forecaster_only_def)

lemma forecaster_only_view:
  assumes "forecaster_only s t"
  shows "com t = com s" "ses t = ses s" "imap t = imap s" "redis t = redis s" "clk t = clk s"
    "hpa_min t = hpa_min s" "replicas t = replicas s" "scaled_events t = scaled_events s"
    "predicted_gauge t = predicted_gauge s" "prescales t = prescales s" "issued t = issued s"
    "dups t = dups s" "tz_columns t = tz_columns s"
  using assms by (cases s, cases t, simp add: forecaster_only_def)+

lemma forecaster_only_updates [intro]:
  "forecaster_only s t \<Longrightarrow> forecaster_only s (t\<lparr>model_file := f\<rparr>)"
  "forecaster_only s t \<Longrightarrow> forecaster_only s (t\<lparr>train_steps := k\<rparr>)"
  "forecaster_only s t \<Longrightarrow> forecaster_only s (t\<lparr>forecaster_loaded := l\<rparr>)"
  by (cases s, cases t, simp add: forecaster_only_def)+

context torch_laws
begin

lemma vc_train_on:
  assumes "\<And>s'. forecaster_only s s' \<Longrightarrow> model_file s' \<Longrightarrow> train_steps s' = epochs \<Longrightarrow>
      forecaster_loaded s' = forecaster_loaded s \<Longrightarrow> Q () s'"
    and "\<And>m s'. forecaster_only s s' \<Longrightarrow> forecaster_loaded s' = forecaster_loaded s \<Longrightarrow>
      (model_file s \<longrightarrow> model_file s') \<Longrightarrow> E (ExternalError m) s'"
  shows "vc v (train_on N samples epochs) Q E s"
proof -
  define A where "A = (\<lambda>k t. t = s\<lparr>train_steps := k\<rparr>)"
  have loop: "vc v (for_each (train_epoch N X Y) [a..<b]) (\<lambda>_. A b) E t" if "A a t" "a \<le> b" for X Y a b t
    using that
  proof (induction "b - a" arbitrary: a t)
    case 0
    then show ?case by (auto simp: for_each_def intro: vc_ret)
  next
    case (Suc n)
    then have ab: "a < b" "[a..<b] = a # [Suc a..<b]" by (simp_all add: upt_conv_Cons)
    have "vc v (train_epoch N X Y a) (\<lambda>_. A (Suc a)) E t"
      unfolding train_epoch_def
      by (intro vc_bnd vc_train_step vc_if vc_eval_loss vc_ret)
        (use Suc.prems in \<open>auto simp: A_def intro!: assms(2)\<close>)
    then have "vc v (train_epoch N X Y a) (\<lambda>_ t'. vc v (for_each (train_epoch N X Y) [Suc a..<b]) (\<lambda>_. A b) E t') E t"
      by (rule vc_conseq) (use Suc.hyps ab in auto)
    then show ?case unfolding ab(2) for_each_def foldM.simps by (simp add: vc_bnd)
  qed
  show ?thesis
    unfolding train_on_def Let_def
  proof (rule vc_bnd, rule vc_new_model, rule vc_bnd, rule vc_conseq [OF loop])
    fix t
    assume "A epochs t"
    then show "vc v (save_model N) Q E t"
      by (intro vc_save_model) (auto simp: A_def intro!: assms)
  qed (auto simp: A_def intro!: assms(2))
qed

lemma vc_train_and_save:
  assumes "\<And>s'. forecaster_only s s' \<Longrightarrow> model_file s' \<Longrightarrow> train_steps s' = epochs \<Longrightarrow>
      forecaster_loaded s' = forecaster_loaded s \<Longrightarrow> Q () s'"
    and "\<And>m s'. forecaster_only s s' \<Longrightarrow> forecaster_loaded s' = forecaster_loaded s \<Longrightarrow>
      (model_file s \<longrightarrow> model_file s') \<Longrightarrow> E (ExternalError m) s'"
  shows "vc v (train_and_save N G epochs) Q E s"
  unfolding train_and_save_def by (intro vc_bnd vc_make_model_dir vc_train_on) (auto intro!: assms)

text \<open>A process that has no forecaster gets one, and trains it first where there are no weights.\<close>

lemma vc_get_forecaster:
  assumes "\<And>s'. forecaster_only s s' \<Longrightarrow> forecaster_loaded s' \<Longrightarrow>
      (train_steps s' = (if forecaster_loaded s \<or> model_file s then train_steps s else EPOCHS)) \<Longrightarrow>
      (\<not> forecaster_loaded s \<longrightarrow> model_file s') \<Longrightarrow> Q () s'"
    and "\<And>m s'. forecaster_only s s' \<Longrightarrow> \<not> forecaster_loaded s \<Longrightarrow> \<not> forecaster_loaded s' \<Longrightarrow>
      (model_file s \<longrightarrow> model_file s') \<Longrightarrow> E (ExternalError m) s'"
  shows "vc v (get_forecaster N G) Q E s"
  unfolding get_forecaster_def load_forecaster_def bnd_assoc
  by (intro vc_bnd vc_get_loaded vc_if vc_ret vc_model_exists vc_train_and_save vc_load_model vc_set_loaded)
    (auto intro!: assms simp: forecaster_only_view)

lemma vc_draw_samples:
  assumes "\<And>samples. \<forall>ys \<in> set samples. length ys = length feats \<and> (\<forall>y \<in> set ys. 0 < y) \<Longrightarrow>
      length samples = mc \<Longrightarrow> Q samples s" and "\<And>m. E (ExternalError m) s"
  shows "vc v (draw_samples N feats mc) Q E s"
proof -
  have "vc v (foldM (\<lambda>samples i. bnd (forward N feats) (\<lambda>ys. ret (samples @ [ys]))) acc js) Q E s"
    if "\<forall>ys \<in> set acc. length ys = length feats \<and> (\<forall>y \<in> set ys. 0 < y)" "length acc + length js = mc" for acc and js :: "nat list"
    using that
  proof (induction js arbitrary: acc)
    case Nil
    then show ?case by (auto intro!: vc_ret assms(1))
  next
    case (Cons i js)
    show ?case
      unfolding foldM.simps bnd_assoc bnd_ret
      by (intro vc_bnd vc_forward Cons.IH) (use Cons.prems in \<open>auto intro: assms(2)\<close>)
  qed
  from this [of "[]" "[0..<mc]"] show ?thesis by (simp add: draw_samples_def)
qed

lemma vc_predict:
  assumes "0 < granularity" and "granularity \<le> horizon * 60"
    and "\<And>ps. forecast_ok target horizon granularity ps \<Longrightarrow> Q ps s" and "\<And>m. E (ExternalError m) s"
  shows "vc v (predict N target horizon granularity scale mc) Q E s"
  unfolding predict_def
proof (rule vc_bnd, rule vc_draw_samples, goal_cases)
  case (1 samples)
  have "\<forall>ys \<in> set samples. length ys = SEQ_LEN \<and> (\<forall>y \<in> set ys. 0 \<le> y)"
    using 1(1) by (auto simp: build_features_def less_imp_le)
  from forecast_points_shape [OF this assms(1,2), of target] obtain ps where
    "forecast_points target horizon granularity samples = Inr ps" "forecast_ok target horizon granularity ps"
    unfolding forecast_ok_def by blast
  then show ?case by (auto intro: vc_ret assms(3))
qed (rule assms(4))

end

section \<open>Properties\<close>

text \<open>C29: a forecast has one point per step, whatever the weights of the network and however many samples
  it draws: its bounds enclose the prediction and are not negative, the points are a step apart in time,
  and the largest prediction is at the target time, half-way through; only the network can fail, and
  nothing else changes.\<close>

theorem predict_shape:
  assumes "torch_laws N v" and "0 < granularity" and "granularity \<le> horizon * 60" and "0 < mc_samples"
  shows "wp (predict N target horizon granularity event_scale mc_samples)
    (\<lambda>ps w'. v w' = v w \<and> int (length ps) = (horizon * 60) div granularity \<and>
      (\<forall>i < length ps. 0 \<le> fp_lower (ps ! i) \<and> fp_lower (ps ! i) \<le> predicted_rps (ps ! i) \<and>
         predicted_rps (ps ! i) \<le> fp_upper (ps ! i) \<and>
         predicted_rps (ps ! i) \<le> predicted_rps (ps ! (length ps div 2)) \<and>
         fp_timestamp (ps ! i) = dt_plus target (minutes ((int i - int (length ps div 2)) * granularity))))
    (\<lambda>e w'. v w' = v w \<and> is_external e) w"
  by (rule vcD [OF torch_laws.vc_predict [OF assms(1-3)]]) (simp_all add: forecast_ok_def)

theorem predict_shape_witness:
  "wp (predict mem_torch (Naive 0) 6 15 (1 / 2) 40) (\<lambda>ps w'. int (length ps) = (6 * 60) div 15)
    (\<lambda>e w'. is_external e) (start_mem empty_tables)"
  by (rule wp_mono [OF predict_shape [OF mem_torch_laws]]) simp_all

text \<open>A process that has no forecaster yet gets one: on return one is loaded, with weights that exist,
  and the network was trained, for exactly forty steps, where there were none and not at all
  otherwise; when that fails no forecaster is kept, so the next call tries again.\<close>

theorem get_forecaster_outcome:
  assumes "torch_laws N v"
  shows "wp (get_forecaster N G)
    (\<lambda>_ w'. forecaster_only (v w) (v w') \<and> forecaster_loaded (v w') \<and>
      (\<not> forecaster_loaded (v w) \<longrightarrow> model_file (v w')) \<and>
      train_steps (v w') =
        (if forecaster_loaded (v w) \<or> model_file (v w) then train_steps (v w) else 40))
    (\<lambda>e w'. forecaster_only (v w) (v w') \<and> is_external e \<and> \<not> forecaster_loaded (v w) \<and> \<not> forecaster_loaded (v w')) w"
  by (rule vcD [OF torch_laws.vc_get_forecaster [OF assms]]) (simp_all add: EPOCHS_def)

theorem get_forecaster_outcome_witness:
  "wp (get_forecaster mem_torch middle_rng) (\<lambda>_ w'. train_steps (mview w') = 40)
    (\<lambda>e w'. \<not> forecaster_loaded (mview w')) (start_mem empty_tables)"
  by (rule wp_mono [OF get_forecaster_outcome [OF mem_torch_laws]]) (simp_all add: start_mem_def start_view_def)

end
