(* ===== verification/Resource_Calculator.thy ===== *)
theory Resource_Calculator
  imports Forecasting
begin

text \<open>
  \<open>src/prediction/resource_calculator.py\<close>: from a forecast to the replicas of each step, the limit on
  how fast they go down, and the windows of equal replica counts.
\<close>

section \<open>The calculator\<close>

definition MIN_REPLICAS :: int where "MIN_REPLICAS = 2"
definition MAX_REPLICAS :: int where "MAX_REPLICAS = 50"

record calculator =
  rps_per_pod :: int
  cpu_request_m :: int
  memory_request_mi :: int

text \<open>\<open>ResourceCalculator()\<close> takes the constants of the module; the service gives the same values itself.\<close>

definition DEFAULT_RPS_PER_POD :: int where "DEFAULT_RPS_PER_POD = 250"
definition CPU_REQUEST_M :: int where "CPU_REQUEST_M = 500"
definition MEMORY_REQUEST_MI :: int where "MEMORY_REQUEST_MI = 512"

definition new_calculator :: calculator where
  "new_calculator =
     \<lparr>rps_per_pod = DEFAULT_RPS_PER_POD, cpu_request_m = CPU_REQUEST_M, memory_request_mi = MEMORY_REQUEST_MI\<rparr>"

definition default_calculator :: calculator where
  "default_calculator = \<lparr>rps_per_pod = 250, cpu_request_m = 500, memory_request_mi = 512\<rparr>"

definition rps_to_replicas :: "calculator \<Rightarrow> real \<Rightarrow> int" where
  "rps_to_replicas c rps =
     max MIN_REPLICAS (min MAX_REPLICAS \<lceil>rps / real_of_int (rps_per_pod c)\<rceil>)"

text \<open>The loop over the replicas, each with its predecessor as smoothed.\<close>

definition max_decrease :: "int \<Rightarrow> int" where
  "max_decrease before = max 1 \<lfloor>real_of_int before * (8 / 10)\<rfloor>"

fun smooth_after :: "int \<Rightarrow> int list \<Rightarrow> int list" where
  "smooth_after before [] = []"
| "smooth_after before (r # rs) =
     (let r' = max r (max_decrease before) in r' # smooth_after r' rs)"

definition smooth_scale_down :: "int list \<Rightarrow> int list" where
  "smooth_scale_down replicas = (case replicas of [] \<Rightarrow> [] | r # rs \<Rightarrow> r # smooth_after r rs)"

text \<open>One turn of the merging loop, over the windows so far and the start of the open one.\<close>

definition window_of :: "calculator \<Rightarrow> pydt \<Rightarrow> pydt \<Rightarrow> int \<Rightarrow> scaling_window" where
  "window_of c first_at last_at n =
     \<lparr>from_datetime = first_at, to_datetime = last_at, sw_replicas = n,
      sw_cpu_request_m = cpu_request_m c, sw_memory_request_mi = memory_request_mi c\<rparr>"

definition merge_step ::
  "calculator \<Rightarrow> forecast_point list \<Rightarrow> int list \<Rightarrow> scaling_window list \<times> nat \<Rightarrow> nat \<Rightarrow>
    scaling_window list \<times> nat" where
  "merge_step c forecast smoothed ws i =
     (case ws of (windows, start_idx) \<Rightarrow>
        if i = length smoothed \<or> smoothed ! i \<noteq> smoothed ! start_idx
        then (windows @ [window_of c (fp_timestamp (forecast ! start_idx)) (fp_timestamp (forecast ! (i - 1)))
                (smoothed ! start_idx)], i)
        else (windows, start_idx))"

definition merge_windows ::
  "calculator \<Rightarrow> forecast_point list \<Rightarrow> int list \<Rightarrow> scaling_window list" where
  "merge_windows c forecast replicas =
     (let smoothed = smooth_scale_down replicas
      in fst (foldl (merge_step c forecast smoothed) ([], 0) [1..<Suc (length smoothed)]))"

definition calculate ::
  "calculator \<Rightarrow> forecast_point list \<Rightarrow> real \<Rightarrow> exn + scaling_window list" where
  "calculate c forecast safety_factor =
     (if forecast = [] then Inr []
      else if rps_per_pod c = 0 then Inl (OtherError ''ZeroDivisionError'')
      else Inr (merge_windows c forecast
        (map (\<lambda>p. rps_to_replicas c (fp_upper p * safety_factor)) forecast)))"

section \<open>Reference: maximal runs\<close>

text \<open>The maximal runs of steps with equal keys, and the window of one.\<close>

fun runs :: "('a \<times> int) list \<Rightarrow> ('a \<times> int) list list" where
  "runs [] = []"
| "runs (x # xs) =
     (case runs xs of
        [] \<Rightarrow> [[x]]
      | r # rs \<Rightarrow> if snd x = snd (hd r) then (x # r) # rs else [x] # r # rs)"

definition run_window :: "calculator \<Rightarrow> (pydt \<times> int) list \<Rightarrow> scaling_window" where
  "run_window c r = window_of c (fst (hd r)) (fst (last r)) (snd (hd r))"

lemma concat_runs: "concat (runs xs) = xs"
  by (induction xs rule: runs.induct) (auto split: list.splits if_splits)

lemma runs_nonempty: "r \<in> set (runs xs) \<Longrightarrow> r \<noteq> []"
  by (induction xs arbitrary: r rule: runs.induct) (auto split: list.splits if_splits)

lemma hd_runs: "xs \<noteq> [] \<Longrightarrow> runs xs \<noteq> [] \<and> hd (hd (runs xs)) = hd xs"
  by (cases xs) (auto split: list.splits)

lemma runs_same: "ys \<noteq> [] \<Longrightarrow> (\<And>y. y \<in> set ys \<Longrightarrow> snd y = k) \<Longrightarrow> runs ys = [ys]"
proof (induction ys)
  case (Cons y ys)
  then show ?case by (cases "ys = []") auto
qed simp

text \<open>A list of steps with one key starts a new run after a step with another.\<close>

lemma runs_append:
  assumes "ys \<noteq> []" and "\<And>y. y \<in> set ys \<Longrightarrow> snd y = k" and "xs \<noteq> [] \<Longrightarrow> snd (last xs) \<noteq> k"
  shows "runs (xs @ ys) = runs xs @ [ys]"
  using assms(3)
proof (induction xs)
  case Nil
  then show ?case using runs_same [OF assms(1,2)] by simp
next
  case (Cons x xs)
  show ?case
  proof (cases "xs = []")
    case True
    have "snd (hd ys) = k" using assms(1,2) by simp
    with True Cons.prems runs_same [OF assms(1,2)] show ?thesis by simp
  next
    case False
    with Cons have "runs (xs @ ys) = runs xs @ [ys]" by simp
    with hd_runs [OF False] show ?thesis by (auto split: list.splits)
  qed
qed

lemma length_smooth_after [simp]: "length (smooth_after b rs) = length rs"
  by (induction rs arbitrary: b) (simp_all add: Let_def)

lemma length_smooth [simp]: "length (smooth_scale_down rs) = length rs"
  by (cases rs) (simp_all add: smooth_scale_down_def)

text \<open>The loop invariant: the closed windows are those of the runs before the open one.\<close>

definition merge_inv ::
  "calculator \<Rightarrow> (pydt \<times> int) list \<Rightarrow> nat \<Rightarrow> scaling_window list \<times> nat \<Rightarrow> bool" where
  "merge_inv c zs i ws \<longleftrightarrow>
     (case ws of (windows, start) \<Rightarrow> start < i \<and> windows = map (run_window c) (runs (take start zs)) \<and>
        (\<forall>j. start \<le> j \<and> j < i \<longrightarrow> snd (zs ! j) = snd (zs ! start)) \<and>
        (0 < start \<longrightarrow> snd (zs ! (start - 1)) \<noteq> snd (zs ! start)))"

lemma runs_extend:
  assumes "merge_inv c zs i (windows, start)" and "i \<le> length zs"
  shows "runs (take i zs) = runs (take start zs) @ [drop start (take i zs)]"
proof -
  have le: "start < i"
    and same: "\<And>j. start \<le> j \<Longrightarrow> j < i \<Longrightarrow> snd (zs ! j) = snd (zs ! start)"
    and new: "0 < start \<Longrightarrow> snd (zs ! (start - 1)) \<noteq> snd (zs ! start)"
    using assms(1) unfolding merge_inv_def prod.case by blast+
  have "runs (take start zs @ drop start (take i zs)) = runs (take start zs) @ [drop start (take i zs)]"
  proof (rule runs_append [where k = "snd (zs ! start)"])
    show "drop start (take i zs) \<noteq> []" using le assms(2) by simp
    show "snd y = snd (zs ! start)" if "y \<in> set (drop start (take i zs))" for y
    proof -
      from that obtain j where "j < length (drop start (take i zs))" "y = drop start (take i zs) ! j"
        unfolding in_set_conv_nth by blast
      with same [of "start + j"] assms(2) show ?thesis by simp
    qed
    show "snd (last (take start zs)) \<noteq> snd (zs ! start)" if "take start zs \<noteq> []"
      using that new le assms(2) by (simp add: last_conv_nth)
  qed
  moreover have "take start zs @ drop start (take i zs) = take i zs"
    using append_take_drop_id [of start "take i zs"] le by (simp only: take_take min.absorb1 less_imp_le)
  ultimately show ?thesis by simp
qed

lemma run_window_slice:
  assumes "start < i" and "i \<le> length zs"
  shows "run_window c (drop start (take i zs)) = window_of c (fst (zs ! start)) (fst (zs ! (i - 1))) (snd (zs ! start))"
  using assms by (simp add: run_window_def hd_drop_conv_nth last_conv_nth)

lemma merge_step_inv:
  assumes inv: "merge_inv c zs i ws" and i: "i < length zs"
    and zs: "zs = zip (map fp_timestamp forecast) smoothed" and len: "length smoothed = length forecast"
  shows "merge_inv c zs (Suc i) (merge_step c forecast smoothed ws i)"
proof -
  obtain windows start where ws: "ws = (windows, start)" by fastforce
  note inv' = inv [unfolded ws]
  from inv' have le: "start < i" and win: "windows = map (run_window c) (runs (take start zs))"
    by (simp_all add: merge_inv_def)
  have same: "\<And>j. start \<le> j \<Longrightarrow> j < i \<Longrightarrow> snd (zs ! j) = snd (zs ! start)"
    using inv' unfolding merge_inv_def prod.case by blast
  have nth: "zs ! j = (fp_timestamp (forecast ! j), smoothed ! j)" if "j < length zs" for j
    using that zs len by simp
  show ?thesis
  proof (cases "smoothed ! i = smoothed ! start")
    case True
    have "length smoothed = length zs" using zs len by simp
    with True i have step: "merge_step c forecast smoothed ws i = (windows, start)"
      by (simp add: merge_step_def ws)
    have "snd (zs ! i) = snd (zs ! start)" using True nth i le by simp
    with inv' show ?thesis
      unfolding step merge_inv_def prod.case by (blast intro: less_SucI elim: less_SucE)
  next
    case False
    have window: "window_of c (fp_timestamp (forecast ! start)) (fp_timestamp (forecast ! (i - 1))) (smoothed ! start) =
        run_window c (drop start (take i zs))"
      using run_window_slice [OF le, of zs c] i nth [of start] nth [of "i - 1"] le by simp
    have step: "merge_step c forecast smoothed ws i = (map (run_window c) (runs (take i zs)), i)"
      using False runs_extend [OF inv'] i win window by (simp add: merge_step_def ws)
    have "snd (zs ! (i - 1)) = snd (zs ! start)"
      using same [of "i - 1"] le by simp
    then have "snd (zs ! (i - 1)) \<noteq> snd (zs ! i)" using False nth i le by simp
    then show ?thesis
      unfolding step merge_inv_def prod.case by (intro conjI allI impI; (elim conjE)?) (simp_all add: le_less_Suc_eq)
  qed
qed

lemma merge_windows_runs:
  assumes "length replicas = length forecast"
  shows "merge_windows c forecast replicas =
    map (run_window c) (runs (zip (map fp_timestamp forecast) (smooth_scale_down replicas)))"
proof (cases "forecast = []")
  case True
  with assms show ?thesis by (simp add: merge_windows_def smooth_scale_down_def)
next
  case False
  define sm where "sm = smooth_scale_down replicas"
  define zs where "zs = zip (map fp_timestamp forecast) sm"
  have len: "length sm = length forecast" "length zs = length forecast" "0 < length forecast"
    using assms False by (simp_all add: sm_def zs_def)
  have inv: "merge_inv c zs (Suc n) (foldl (merge_step c forecast sm) ([], 0) [1..<Suc n])"
    if "n < length forecast" for n
    using that
  proof (induction n)
    case 0
    then show ?case by (simp add: merge_inv_def)
  next
    case (Suc n)
    then show ?case
      using merge_step_inv [OF Suc.IH _ zs_def] len by simp
  qed
  obtain m where m: "length forecast = Suc m" using len by (cases "length forecast") auto
  obtain windows start where ws: "foldl (merge_step c forecast sm) ([], 0) [1..<Suc m] = (windows, start)"
    by fastforce
  note final = inv [of m, unfolded ws m]
  have le: "start < Suc m" "windows = map (run_window c) (runs (take start zs))"
    using final by (simp_all add: merge_inv_def)
  have "merge_windows c forecast replicas = fst (merge_step c forecast sm (windows, start) (Suc m))"
    using ws len m by (simp add: merge_windows_def Let_def sm_def [symmetric])
  also have "\<dots> = map (run_window c) (runs (take (Suc m) zs))"
    using runs_extend [OF final] run_window_slice [OF le(1), of zs c] le len m
    by (simp add: merge_step_def zs_def)
  finally show ?thesis using len m by (simp add: zs_def sm_def)
qed

section \<open>Bounds\<close>

lemma max_decrease_bounds: "1 \<le> max_decrease b" "1 \<le> b \<Longrightarrow> max_decrease b \<le> b"
proof -
  assume "1 \<le> b"
  then have "real_of_int b * (8 / 10) \<le> real_of_int b" by simp
  then have "\<lfloor>real_of_int b * (8 / 10)\<rfloor> \<le> b" by (simp add: floor_le_iff)
  with \<open>1 \<le> b\<close> show "max_decrease b \<le> b" by (simp add: max_decrease_def)
qed (simp add: max_decrease_def)

lemma rps_to_replicas_bounds:
  "2 \<le> rps_to_replicas c rps" "rps_to_replicas c rps \<le> 50"
  by (auto simp: rps_to_replicas_def MIN_REPLICAS_def MAX_REPLICAS_def)

lemma smooth_after_nth:
  assumes "i < length rs"
  shows "smooth_after b rs ! i = max (rs ! i) (max_decrease ((b # smooth_after b rs) ! i))"
  using assms
proof (induction rs arbitrary: b i)
  case (Cons r rs)
  show ?case
  proof (cases i)
    case (Suc j)
    with Cons.prems have "j < length rs" by simp
    from Cons.IH [OF this] show ?thesis unfolding Suc smooth_after.simps Let_def nth_Cons_Suc .
  qed (simp add: Let_def)
qed simp

text \<open>Each step needs its own replicas, or what its predecessor may go down to.\<close>

lemma smooth_hd: "rs \<noteq> [] \<Longrightarrow> smooth_scale_down rs ! 0 = rs ! 0"
  by (cases rs) (simp_all add: smooth_scale_down_def)

lemma smooth_nth:
  assumes "Suc i < length rs"
  shows "smooth_scale_down rs ! Suc i = max (rs ! Suc i) (max_decrease (smooth_scale_down rs ! i))"
proof -
  obtain b qs where rs: "rs = b # qs" using assms by (cases rs) simp_all
  have "i < length qs" using assms rs by simp
  then show ?thesis
    unfolding rs smooth_scale_down_def list.case nth_Cons_Suc by (rule smooth_after_nth)
qed

lemma smooth_bounds:
  assumes "\<forall>r \<in> set rs. lo \<le> r \<and> r \<le> hi" and "1 \<le> lo" and "i < length rs"
  shows "lo \<le> smooth_scale_down rs ! i \<and> smooth_scale_down rs ! i \<le> hi"
  using assms(3)
proof (induction i)
  case 0
  then have "rs \<noteq> []" by auto
  moreover have "rs ! 0 \<in> set rs" using 0 by (rule nth_mem)
  ultimately show ?case using assms(1) smooth_hd [of rs] by simp
next
  case (Suc i)
  let ?prev = "smooth_scale_down rs ! i"
  have prev: "lo \<le> ?prev" "?prev \<le> hi" using Suc by simp_all
  then have "max_decrease ?prev \<le> hi" using max_decrease_bounds(2) [of ?prev] assms(2) by linarith
  moreover have "rs ! Suc i \<in> set rs" using Suc.prems by (rule nth_mem)
  with assms(1) have "lo \<le> rs ! Suc i" "rs ! Suc i \<le> hi" by blast+
  ultimately show ?case unfolding smooth_nth [OF Suc.prems] by linarith
qed

text \<open>The counts of a plan, step by step.\<close>

lemma calculate_counts:
  assumes "0 < rps_per_pod c"
  shows "\<exists>counts. calculate c forecast sf =
      Inr (map (run_window c) (runs (zip (map fp_timestamp forecast) counts))) \<and>
    length counts = length forecast \<and>
    (\<forall>i < length counts. 2 \<le> counts ! i \<and> counts ! i \<le> 50 \<and>
       counts ! i = (let need = rps_to_replicas c (fp_upper (forecast ! i) * sf) in
         if i = 0 then need else max need (max_decrease (counts ! (i - 1)))))"
proof -
  define needs where "needs = map (\<lambda>p. rps_to_replicas c (fp_upper p * sf)) forecast"
  define counts where "counts = smooth_scale_down needs"
  have len: "length needs = length forecast" "length counts = length forecast"
    by (simp_all add: needs_def counts_def)
  have "calculate c forecast sf = Inr (map (run_window c) (runs (zip (map fp_timestamp forecast) counts)))"
  proof (cases "forecast = []")
    case True
    then show ?thesis by (simp add: calculate_def)
  next
    case False
    then have "calculate c forecast sf = Inr (merge_windows c forecast needs)"
      using assms by (simp add: calculate_def needs_def)
    then show ?thesis unfolding merge_windows_runs [OF len(1)] counts_def .
  qed
  moreover have "2 \<le> counts ! i \<and> counts ! i \<le> 50" if "i < length counts" for i
    using smooth_bounds [of needs 2 50 i] that len rps_to_replicas_bounds
    by (auto simp: counts_def needs_def)
  moreover have "counts ! i = (let need = rps_to_replicas c (fp_upper (forecast ! i) * sf) in
      if i = 0 then need else max need (max_decrease (counts ! (i - 1))))" if "i < length counts" for i
  proof -
    have need: "needs ! i = rps_to_replicas c (fp_upper (forecast ! i) * sf)" "needs \<noteq> []"
      using that len by (auto simp: needs_def)
    show ?thesis
      using need that len smooth_hd [of needs] smooth_nth [of "i - 1" needs]
      unfolding counts_def by (cases i) (simp_all add: Let_def)
  qed
  ultimately show ?thesis using len by blast
qed

lemma run_key: "r \<in> set (runs xs) \<Longrightarrow> x \<in> set r \<Longrightarrow> snd x = snd (hd r)"
proof (induction xs arbitrary: r rule: runs.induct)
  case (2 y ys)
  show ?case
  proof (cases "runs ys")
    case (Cons q qs)
    have q: "q \<noteq> []" using runs_nonempty [of q ys] Cons by simp
    show ?thesis
    proof (cases "snd y = snd (hd q)")
      case True
      with 2 Cons q show ?thesis by (auto split: if_splits)
    next
      case False
      with 2 Cons show ?thesis by auto
    qed
  qed (use 2 in auto)
qed simp

text \<open>
  A plan of a forecast that is not empty has windows with 2 to 50 replicas, and for each step one of
  at least what the step needs.
\<close>

lemma calculate_covers:
  assumes "0 < rps_per_pod c" and "forecast \<noteq> []"
  obtains ws where "calculate c forecast sf = Inr ws" and "ws \<noteq> []"
    and "\<And>w. w \<in> set ws \<Longrightarrow> 2 \<le> sw_replicas w \<and> sw_replicas w \<le> 50"
    and "\<And>p. p \<in> set forecast \<Longrightarrow> \<exists>w \<in> set ws. rps_to_replicas c (fp_upper p * sf) \<le> sw_replicas w"
proof -
  from calculate_counts [OF assms(1), of forecast sf] obtain counts where
    calc: "calculate c forecast sf =
        Inr (map (run_window c) (runs (zip (map fp_timestamp forecast) counts)))"
    and len: "length counts = length forecast"
    and counts: "\<forall>i < length counts. 2 \<le> counts ! i \<and> counts ! i \<le> 50 \<and>
       counts ! i = (let need = rps_to_replicas c (fp_upper (forecast ! i) * sf) in
         if i = 0 then need else max need (max_decrease (counts ! (i - 1))))"
    by blast
  define zs where "zs = zip (map fp_timestamp forecast) counts"
  define ws where "ws = map (run_window c) (runs zs)"
  have replicas: "sw_replicas (run_window c r) = snd (hd r)" for r
    by (simp add: run_window_def window_of_def)
  have range: "2 \<le> sw_replicas w \<and> sw_replicas w \<le> 50" if "w \<in> set ws" for w
  proof -
    from that obtain r where r: "r \<in> set (runs zs)" "w = run_window c r" unfolding ws_def by auto
    have "hd r \<in> set r" using runs_nonempty [OF r(1)] by simp
    with r(1) have "hd r \<in> set zs" using concat_runs [of zs] by (metis UN_I set_concat)
    then have "snd (hd r) \<in> set counts" unfolding zs_def by (metis prod.collapse set_zip_rightD)
    then obtain i where i: "i < length counts" "counts ! i = snd (hd r)" unfolding in_set_conv_nth by blast
    from spec [OF counts, of i] i show ?thesis unfolding r(2) replicas by simp
  qed
  have cover: "\<exists>w \<in> set ws. rps_to_replicas c (fp_upper p * sf) \<le> sw_replicas w" if "p \<in> set forecast" for p
  proof -
    from that obtain i where i: "i < length forecast" "p = forecast ! i" unfolding in_set_conv_nth by blast
    have need: "rps_to_replicas c (fp_upper p * sf) \<le> counts ! i"
      using spec [OF counts, of i] i len by (cases "i = 0") (simp_all add: Let_def)
    have "(fp_timestamp p, counts ! i) \<in> set zs" using i len by (auto simp: zs_def set_zip intro!: exI [where x = i])
    then obtain r where r: "r \<in> set (runs zs)" "(fp_timestamp p, counts ! i) \<in> set r"
      using concat_runs [of zs] by (metis UN_E set_concat)
    then have "snd (hd r) = counts ! i" using run_key [OF r] by simp
    with need r(1) show ?thesis unfolding ws_def by (auto simp: replicas intro!: bexI [where x = r])
  qed
  have "ws \<noteq> []" using cover [of "hd forecast"] assms(2) by auto
  with that calc range cover show thesis unfolding ws_def zs_def by blast
qed

section \<open>Properties\<close>

text \<open>C28: a plan covers the forecast: its windows are exactly the maximal runs of equal replica counts,
  in order and without a gap; at each step the count is what the upper bound of the forecast with
  its safety factor needs, or, where that is less, four fifths of the count before, rounded down; and
  every count lies between 2 and 50.\<close>

theorem calculate_plan:
  assumes "0 < rps_per_pod c"
  shows "\<exists>counts. calculate c forecast sf =
      Inr (map (run_window c) (runs (zip (map fp_timestamp forecast) counts))) \<and>
    length counts = length forecast \<and>
    (\<forall>i < length counts. 2 \<le> counts ! i \<and> counts ! i \<le> 50 \<and>
       counts ! i = (let need = rps_to_replicas c (fp_upper (forecast ! i) * sf) in
         if i = 0 then need else max need (max_decrease (counts ! (i - 1)))))"
  by (rule calculate_counts [OF assms])

definition sample_forecast :: "forecast_point list" where
  "sample_forecast = map (\<lambda>(t, u). \<lparr>fp_timestamp = Naive t, predicted_rps = u, fp_lower = u, fp_upper = u\<rparr>)
     [(0, 0), (1, 1000), (2, 1000), (3, 0)]"

theorem calculate_plan_witness:
  "\<exists>counts. calculate default_calculator sample_forecast (3 / 2) =
      Inr (map (run_window default_calculator) (runs (zip (map fp_timestamp sample_forecast) counts))) \<and>
    length counts = 4"
  using calculate_plan [of default_calculator sample_forecast "3 / 2"]
  by (auto simp: default_calculator_def sample_forecast_def)

text \<open>The comment of the smoothing promises steps of at most 20 percent; rounding allows more.\<close>

lemma smooth_down_by_a_third: "smooth_scale_down [3, 2] = [3, 2]"
  by (simp add: smooth_scale_down_def max_decrease_def Let_def)

end
