(* ===== verification/Prediction_Service.thy ===== *)
theory Prediction_Service
  imports Catalogue Traffic_Forecaster Resource_Calculator
begin

text \<open>
  \<open>src/services/prediction_service.py\<close> and the endpoints of \<open>src/api/v1/prediction.py\<close>: a resource
  plan and a forecast for an event, each cached for five minutes, with fixed numbers where there is
  no event or where anything fails on the way.
\<close>

section \<open>prediction_service.py\<close>

record resource_plan =
  recommended_replicas :: int
  peak_rps :: real

record forecast =
  expected_users :: int
  peak_time :: string

definition mock_plan :: resource_plan where
  "mock_plan = \<lparr>recommended_replicas = 10, peak_rps = 0\<rparr>"

definition mock_forecast :: forecast where
  "mock_forecast = \<lparr>expected_users = 5000, peak_time = ''14:00''\<rparr>"

definition PLAN_KEY :: "string \<Rightarrow> string" where
  "PLAN_KEY event_id = ''prediction:resource_plan:'' @ event_id"

definition FORECAST_KEY :: "string \<Rightarrow> string" where
  "FORECAST_KEY event_id = ''prediction:forecast:'' @ event_id"

definition PREDICTION_TTL :: int where "PREDICTION_TTL = 300 * 1000"

text \<open>\<open>json.loads(cached)\<close> as the two methods use it.\<close>

definition load_plan :: "rvalue \<Rightarrow> exn + resource_plan" where
  "load_plan x = (case x of
     PlanJson n p \<Rightarrow> Inr \<lparr>recommended_replicas = n, peak_rps = p\<rparr>
   | _ \<Rightarrow> Inl (ValueError ''not a resource plan''))"

definition load_forecast :: "rvalue \<Rightarrow> exn + forecast" where
  "load_forecast x = (case x of
     ForecastJson n t \<Rightarrow> Inr \<lparr>expected_users = n, peak_time = t\<rparr>
   | _ \<Rightarrow> Inl (ValueError ''not a forecast''))"

definition event_scale :: "event \<Rightarrow> real" where
  "event_scale e = min (real_of_int (total_seats e) / 50000) 1"

text \<open>The plan for the busiest window.\<close>

definition plan_of :: "scaling_window list \<Rightarrow> forecast_point list \<Rightarrow> resource_plan" where
  "plan_of windows points =
     (if windows \<noteq> []
      then \<lparr>recommended_replicas = Max (set (map sw_replicas windows)),
            peak_rps = (if points = [] then 0 else Max (set (map predicted_rps points)))\<rparr>
      else mock_plan)"

definition get_resource_plan ::
  "'w redis_client \<Rightarrow> 'w db_session \<Rightarrow> 'w torch \<Rightarrow> 'g rng \<Rightarrow> string \<Rightarrow> ('w, resource_plan) py" where
  "get_resource_plan R D N G event_id =
     bnd (r_get R (PLAN_KEY event_id)) (\<lambda>cached.
     if truthy_value cached then lift_res (load_plan (the cached))
     else
       bnd (q_events_by_text D event_id) (\<lambda>found.
       case first_row found of
         None \<Rightarrow> ret mock_plan
       | Some e \<Rightarrow>
           try_except
             (seqn (get_forecaster N G)
             (bnd (predict N (start_at e) 6 15 (event_scale e) 40) (\<lambda>points.
              bnd (lift_res (calculate default_calculator points (3 / 2))) (\<lambda>windows.
              let result = plan_of windows points in
              seqn (r_set_ex R (PLAN_KEY event_id)
                (PlanJson (recommended_replicas result) (peak_rps result)) PREDICTION_TTL)
              (ret result)))))
             (\<lambda>_. ret mock_plan)))"

text \<open>\<open>max(points, key=...)\<close> keeps the first of equals; \<open>strftime("%H:%M")\<close>.\<close>

definition peak_point :: "forecast_point \<Rightarrow> forecast_point list \<Rightarrow> forecast_point" where
  "peak_point p ps = foldl (\<lambda>best q. if predicted_rps best < predicted_rps q then q else best) p ps"

definition two_digits :: "int \<Rightarrow> string" where
  "two_digits n = [char_of (48 + nat n div 10), char_of (48 + nat n mod 10)]"

definition hour_minute :: "pydt \<Rightarrow> string" where
  "hour_minute d =
     (let m = instant d div (60 * 1000000) in two_digits (m div 60 mod 24) @ '':'' @ two_digits (m mod 60))"

definition get_forecast ::
  "'w redis_client \<Rightarrow> 'w db_session \<Rightarrow> 'w torch \<Rightarrow> 'g rng \<Rightarrow> string \<Rightarrow> ('w, forecast) py" where
  "get_forecast R D N G event_id =
     bnd (r_get R (FORECAST_KEY event_id)) (\<lambda>cached.
     if truthy_value cached then lift_res (load_forecast (the cached))
     else
       bnd (q_events_by_text D event_id) (\<lambda>found.
       case first_row found of
         None \<Rightarrow> ret mock_forecast
       | Some e \<Rightarrow>
           try_except
             (seqn (get_forecaster N G)
             (bnd (predict N (start_at e) 6 15 (event_scale e) 10) (\<lambda>points.
              case points of
                [] \<Rightarrow> ret mock_forecast
              | p # ps \<Rightarrow>
                  let best = peak_point p ps;
                      result = \<lparr>expected_users = round_half_even (predicted_rps best),
                                peak_time = hour_minute (fp_timestamp best)\<rparr> in
                  seqn (r_set_ex R (FORECAST_KEY event_id)
                    (ForecastJson (expected_users result) (peak_time result)) PREDICTION_TTL)
                  (ret result))))
             (\<lambda>_. ret mock_forecast)))"

section \<open>prediction.py\<close>

record resource_plan_data =
  plan_replicas :: int
  scale_trigger :: string

definition forecast_endpoint ::
  "'w db_session \<Rightarrow> 'w redis_client \<Rightarrow> 'w torch \<Rightarrow> 'g rng \<Rightarrow> string option \<Rightarrow> ('w, forecast reply) py" where
  "forecast_endpoint D R N G event_id =
     get_db D
       (if truthy event_id
        then bnd (get_forecast R D N G (the event_id)) (\<lambda>result. ret (Reply 200 ''success'' (Some result)))
        else ret (Reply 200 ''success'' (Some mock_forecast)))"

definition resource_plan_endpoint ::
  "'w db_session \<Rightarrow> 'w redis_client \<Rightarrow> 'w torch \<Rightarrow> 'g rng \<Rightarrow> string option \<Rightarrow>
    ('w, resource_plan_data reply) py" where
  "resource_plan_endpoint D R N G event_id =
     get_db D
       (if truthy event_id
        then bnd (get_resource_plan R D N G (the event_id)) (\<lambda>plan.
          ret (Reply 200 ''success''
            (Some \<lparr>plan_replicas = recommended_replicas plan, scale_trigger = ''cpu_70''\<rparr>)))
        else ret (Reply 200 ''success'' (Some \<lparr>plan_replicas = 10, scale_trigger = ''cpu_70''\<rparr>)))"

section \<open>Rules\<close>

text \<open>
  What a computed plan promises: 2 to 50 replicas, and, short of 50, enough of them for one and a half
  times the predicted peak at 250 requests per second each.
\<close>

definition plan_ok :: "resource_plan \<Rightarrow> bool" where
  "plan_ok p \<longleftrightarrow> 2 \<le> recommended_replicas p \<and> recommended_replicas p \<le> 50 \<and> 0 \<le> peak_rps p \<and>
     (recommended_replicas p = 50 \<or> peak_rps p * (3 / 2) \<le> 250 * real_of_int (recommended_replicas p))"

lemma replicas_suffice:
  assumes "rps_to_replicas default_calculator u \<le> n" and "n < 50"
  shows "u \<le> 250 * real_of_int n"
proof -
  have "\<lceil>u / 250\<rceil> \<le> n"
    using assms by (auto simp: rps_to_replicas_def default_calculator_def MIN_REPLICAS_def MAX_REPLICAS_def)
  then have "u / 250 \<le> real_of_int n" by (simp add: ceiling_le_iff)
  then show ?thesis by simp
qed

lemma plan_of_ok:
  assumes "points \<noteq> []" and "\<forall>p \<in> set points. 0 \<le> predicted_rps p \<and> predicted_rps p \<le> fp_upper p"
    and "calculate default_calculator points (3 / 2) = Inr ws"
  shows "plan_ok (plan_of ws points)"
proof -
  obtain ws' where ws': "calculate default_calculator points (3 / 2) = Inr ws'" "ws' \<noteq> []"
    and range: "\<And>w. w \<in> set ws' \<Longrightarrow> 2 \<le> sw_replicas w \<and> sw_replicas w \<le> 50"
    and covers: "\<And>p. p \<in> set points \<Longrightarrow>
      \<exists>w \<in> set ws'. rps_to_replicas default_calculator (fp_upper p * (3 / 2)) \<le> sw_replicas w"
    by (rule calculate_covers [of default_calculator points "3 / 2"])
      (use assms(1) in \<open>auto simp: default_calculator_def\<close>)
  have ws: "ws' = ws" using ws'(1) assms(3) by simp
  define n where "n = Max (set (map sw_replicas ws))"
  define k where "k = Max (set (map predicted_rps points))"
  have plan: "plan_of ws points = \<lparr>recommended_replicas = n, peak_rps = k\<rparr>"
    using ws'(2) ws assms(1) by (simp add: plan_of_def n_def k_def)
  have "n \<in> sw_replicas ` set ws" using ws'(2) ws Max_in [of "set (map sw_replicas ws)"] by (simp add: n_def)
  with range ws have n: "2 \<le> n" "n \<le> 50" by auto
  have "k \<in> predicted_rps ` set points"
    using assms(1) Max_in [of "set (map predicted_rps points)"] by (simp add: k_def)
  then obtain p where p: "p \<in> set points" "k = predicted_rps p" by blast
  from covers [OF p(1)] obtain w where
    w: "w \<in> set ws" "rps_to_replicas default_calculator (fp_upper p * (3 / 2)) \<le> sw_replicas w"
    unfolding ws by blast
  note w(2)
  moreover from w(1) have "sw_replicas w \<le> n" unfolding n_def by (intro Max_ge) simp_all
  ultimately have "rps_to_replicas default_calculator (fp_upper p * (3 / 2)) \<le> n" by (rule order_trans)
  then have "n < 50 \<Longrightarrow> fp_upper p * (3 / 2) \<le> 250 * real_of_int n" by (rule replicas_suffice)
  moreover have "0 \<le> k" "k \<le> fp_upper p" using assms(2) p by auto
  ultimately show ?thesis using n by (auto simp: plan_ok_def plan intro: order_trans)
qed

lemma forecast_okD:
  assumes "forecast_ok target 6 15 ps"
  shows "ps \<noteq> []" "\<forall>p \<in> set ps. 0 \<le> predicted_rps p \<and> predicted_rps p \<le> fp_upper p"
proof -
  show "ps \<noteq> []" using assms by (auto simp: forecast_ok_def)
  show "\<forall>p \<in> set ps. 0 \<le> predicted_rps p \<and> predicted_rps p \<le> fp_upper p"
    using assms unfolding forecast_ok_def by (metis in_set_conv_nth order_trans)
qed

context prediction_backend
begin

lemma vc_get_resource_plan:
  assumes cached: "\<And>n p. rdb_get (PLAN_KEY e) (redis s) = Some (PlanJson n p) \<Longrightarrow>
      Q \<lparr>recommended_replicas = n, peak_rps = p\<rparr> s"
    and mock: "\<And>s'. forecaster_only s s' \<Longrightarrow> Q mock_plan s'"
    and fresh: "\<And>s' plan. forecaster_only s s' \<Longrightarrow> plan_ok plan \<Longrightarrow>
      Q plan (s'\<lparr>redis := rdb_set (PLAN_KEY e)
        (PlanJson (recommended_replicas plan) (peak_rps plan)) (Some PREDICTION_TTL) (redis s)\<rparr>)"
    and err: "\<And>m. E (ExternalError m) s" and bad: "\<And>m. E (ValueError m) s"
  shows "vc v (get_resource_plan R D N G e) Q E s"
  unfolding get_resource_plan_def
proof (intro vc_bnd vc_get vc_if vc_lift_res vc_q_events_by_text vc_case_option vc_ret vc_try_except, goal_cases)
  case (1 a)
  then show ?case using cached by (auto simp: load_plan_def truthy_value_def split: rvalue.splits)
next
  case (2 x)
  then show ?case using bad by (auto simp: load_plan_def split: rvalue.splits)
next
  case 3
  show ?case by (rule mock) simp
next
  case (4 xs u ev)
  show ?case
  proof (rule vc_get_forecaster, goal_cases)
    case (1 s1)
    show ?case
    proof (rule vc_bnd, rule vc_predict, goal_cases)
      case (3 ps)
      obtain ws where ws: "calculate default_calculator ps (3 / 2) = Inr ws"
        using calculate_counts [of default_calculator ps "3 / 2"] by (auto simp: default_calculator_def)
      have ok: "plan_ok (plan_of ws ps)" by (rule plan_of_ok [OF forecast_okD [OF 3] ws])
      show ?case
        unfolding ws lift_res_simps bnd_ret Let_def
        by (intro vc_bnd vc_set_ex vc_ret)
          (use 1 fresh [OF 1(1) ok] in \<open>auto simp: forecaster_only_view(4) intro: mock\<close>)
    qed (use 1 in \<open>auto intro: vc_ret mock\<close>)
  qed (auto intro: vc_ret mock)
qed (auto intro: err)

lemma vc_get_forecast:
  assumes cached: "\<And>n t. rdb_get (FORECAST_KEY e) (redis s) = Some (ForecastJson n t) \<Longrightarrow>
      Q \<lparr>expected_users = n, peak_time = t\<rparr> s"
    and mock: "\<And>s'. forecaster_only s s' \<Longrightarrow> Q mock_forecast s'"
    and fresh: "\<And>s' f. forecaster_only s s' \<Longrightarrow>
      Q f (s'\<lparr>redis := rdb_set (FORECAST_KEY e)
        (ForecastJson (expected_users f) (peak_time f)) (Some PREDICTION_TTL) (redis s)\<rparr>)"
    and err: "\<And>m. E (ExternalError m) s" and bad: "\<And>m. E (ValueError m) s"
  shows "vc v (get_forecast R D N G e) Q E s"
  unfolding get_forecast_def
proof (intro vc_bnd vc_get vc_if vc_lift_res vc_q_events_by_text vc_case_option vc_ret vc_try_except, goal_cases)
  case (1 a)
  then show ?case using cached by (auto simp: load_forecast_def truthy_value_def split: rvalue.splits)
next
  case (2 x)
  then show ?case using bad by (auto simp: load_forecast_def split: rvalue.splits)
next
  case 3
  show ?case by (rule mock) simp
next
  case (4 xs u ev)
  show ?case
  proof (rule vc_get_forecaster, goal_cases)
    case (1 s1)
    show ?case
    proof (rule vc_bnd, rule vc_predict, goal_cases)
      case (3 ps)
      obtain q qs where ps: "ps = q # qs" using forecast_okD(1) [OF 3] by (cases ps) auto
      let ?f = "\<lparr>expected_users = round_half_even (predicted_rps (peak_point q qs)),
        peak_time = hour_minute (fp_timestamp (peak_point q qs))\<rparr>"
      show ?case
        unfolding ps list.case Let_def
        by (intro vc_bnd vc_set_ex vc_ret)
          (use 1 fresh [OF 1(1), of ?f] in \<open>auto simp: forecaster_only_view(4) intro: mock\<close>)
    qed (use 1 in \<open>auto intro: vc_ret mock\<close>)
  qed (auto intro: vc_ret mock)
qed (auto intro: err)

end

section \<open>Properties\<close>



end
