(* ===== verification/Redis_Queue.thy ===== *)
theory Redis_Queue
  imports Auth Redis_Lock
begin

text \<open>
  The waiting line of an event: the sorted set of \<open>src/redis/queue.py\<close> and the service
  \<open>src/services/queue_service.py\<close> over it. The first section is what a sorted set guarantees of the
  order of its members, stated as an interface that the sorted set implements; the last is the
  line as a step relation, for the interleavings of several clients.
\<close>

section \<open>The order of a sorted set\<close>

definition zbefore :: "string \<times> int \<Rightarrow> string \<times> int \<Rightarrow> bool" where
  "zbefore p q \<longleftrightarrow> snd p < snd q \<or> (snd p = snd q \<and> fst p < fst q)"

definition zset_ok :: "(string \<times> int) list \<Rightarrow> bool" where
  "zset_ok xs \<longleftrightarrow> sorted_wrt zbefore xs \<and> distinct (map fst xs)"

lemma zbefore_trans: "zbefore p q \<Longrightarrow> zbefore q r \<Longrightarrow> zbefore p r"
  by (auto simp: zbefore_def)

lemma zbefore_total: "fst p \<noteq> fst q \<Longrightarrow> zbefore p q \<or> zbefore q p"
  by (auto simp: zbefore_def)

lemma zbefore_asym: "zbefore p q \<Longrightarrow> \<not> zbefore q p"
  by (auto simp: zbefore_def)

lemma zinsert_Cons: "zinsert x (y # ys) = (if zbefore x y then x # y # ys else y # zinsert x ys)"
  by (simp add: zbefore_def)

declare zinsert.simps(2) [simp del]

lemma zinsert_split:
  "sorted_wrt zbefore xs \<Longrightarrow> zinsert x xs = filter (\<lambda>y. \<not> zbefore x y) xs @ x # filter (zbefore x) xs"
proof (induction xs)
  case Nil
  then show ?case by simp
next
  case (Cons y ys)
  show ?case
  proof (cases "zbefore x y")
    case True
    then have "\<forall>z\<in>set ys. zbefore x z" using Cons.prems zbefore_trans by auto
    then have "filter (\<lambda>z. \<not> zbefore x z) ys = []" "filter (zbefore x) ys = ys"
      by (auto simp: filter_empty_conv)
    with True show ?thesis by (simp add: zinsert_Cons)
  next
    case False
    with Cons show ?thesis by (simp add: zinsert_Cons)
  qed
qed

lemma set_zinsert [simp]: "set (zinsert x xs) = insert x (set xs)"
  by (induction xs) (auto simp: zinsert_Cons)

lemma length_zinsert [simp]: "length (zinsert x xs) = Suc (length xs)"
  by (induction xs) (auto simp: zinsert_Cons)

lemma set_zremove [simp]: "set (zremove m xs) = {p \<in> set xs. fst p \<noteq> m}"
  by (auto simp: zremove_def)

lemma zremove_absent: "m \<notin> fst ` set xs \<Longrightarrow> zremove m xs = xs"
  by (auto simp: zremove_def intro!: filter_True)

lemma sorted_zinsert:
  "sorted_wrt zbefore xs \<Longrightarrow> fst x \<notin> fst ` set xs \<Longrightarrow> sorted_wrt zbefore (zinsert x xs)"
proof (induction xs)
  case Nil
  then show ?case by simp
next
  case (Cons y ys)
  then have "zbefore x y \<or> zbefore y x" using zbefore_total [of x y] by auto
  with Cons show ?case by (auto simp: zinsert_Cons intro: zbefore_trans)
qed

lemma distinct_zinsert:
  "distinct (map fst xs) \<Longrightarrow> fst x \<notin> fst ` set xs \<Longrightarrow> distinct (map fst (zinsert x xs))"
  by (induction xs) (auto simp: zinsert_Cons)

lemma zset_ok_Nil [simp]: "zset_ok []"
  by (simp add: zset_ok_def)

lemma zset_ok_remove: "zset_ok xs \<Longrightarrow> zset_ok (zremove m xs)"
  by (simp add: zset_ok_def zremove_def sorted_wrt_filter distinct_map_filter)

lemma zset_ok_add: "zset_ok xs \<Longrightarrow> zset_ok (zinsert (m, sc) (zremove m xs))"
  using zset_ok_remove [of xs m] sorted_zinsert [of "zremove m xs" "(m, sc)"]
    distinct_zinsert [of "zremove m xs" "(m, sc)"]
  by (auto simp: zset_ok_def)

lemma zposition_None [simp]: "zposition m xs = None \<longleftrightarrow> m \<notin> fst ` set xs"
  by (induction xs) auto

lemma zposition_Some: "zposition m xs = Some n \<Longrightarrow> n < length xs \<and> fst (xs ! n) = m"
  by (induction xs arbitrary: n) (auto split: if_splits)

lemma zposition_skip: "m \<notin> fst ` set xs \<Longrightarrow> zposition m (xs @ (m, sc) # ys) = Some (length xs)"
  by (induction xs) auto

lemma zposition_head: "zposition m xs = Some 0 \<longleftrightarrow> (\<exists>p ps. xs = p # ps \<and> fst p = m)"
  by (cases xs) auto

text \<open>The rank of a member that was just added is the number of members before it.\<close>

lemma zposition_zinsert:
  assumes "sorted_wrt zbefore xs" and "m \<notin> fst ` set xs"
  shows "zposition m (zinsert (m, sc) xs) = Some (length (filter (\<lambda>y. \<not> zbefore (m, sc) y) xs))"
proof -
  have "m \<notin> fst ` set (filter (\<lambda>y. \<not> zbefore (m, sc) y) xs)"
    using assms(2) by auto
  then show ?thesis by (simp add: zinsert_split [OF assms(1)] zposition_skip)
qed

subsection \<open>A waiting line\<close>

text \<open>
  What the queue needs of the sorted set. \<open>late u t q\<close> says that \<open>u\<close> entering at \<open>t\<close> comes after
  everybody in \<open>q\<close>.
\<close>

locale waiting_line =
  fixes ok :: "'q \<Rightarrow> bool" and line :: "'q \<Rightarrow> string list"
    and enter :: "string \<Rightarrow> int \<Rightarrow> 'q \<Rightarrow> 'q" and leave :: "string \<Rightarrow> 'q \<Rightarrow> 'q"
    and late :: "string \<Rightarrow> int \<Rightarrow> 'q \<Rightarrow> bool"
  assumes ok_enter: "ok q \<Longrightarrow> ok (enter u t q)"
    and ok_leave: "ok q \<Longrightarrow> ok (leave u q)"
    and distinct_line: "ok q \<Longrightarrow> distinct (line q)"
    and line_leave: "ok q \<Longrightarrow> line (leave u q) = filter (\<lambda>x. x \<noteq> u) (line q)"
    and line_enter: "ok q \<Longrightarrow> filter (\<lambda>x. x \<noteq> u) (line (enter u t q)) = filter (\<lambda>x. x \<noteq> u) (line q)"
    and enter_there: "ok q \<Longrightarrow> u \<in> set (line (enter u t q))"
    and line_late: "ok q \<Longrightarrow> u \<notin> set (line q) \<Longrightarrow> late u t q \<Longrightarrow> line (enter u t q) = line q @ [u]"
begin

text \<open>\<open>a\<close> stands before \<open>b\<close>.\<close>

definition ahead :: "string \<Rightarrow> string \<Rightarrow> 'q \<Rightarrow> bool" where
  "ahead a b q \<longleftrightarrow> a \<noteq> b \<and> filter (\<lambda>x. x = a \<or> x = b) (line q) = [a, b]"

lemma ahead_others:
  assumes "ahead a b q" and "u \<noteq> a" and "u \<noteq> b"
    and "filter (\<lambda>x. x \<noteq> u) (line q') = filter (\<lambda>x. x \<noteq> u) (line q)"
  shows "ahead a b q'"
proof -
  have "filter (\<lambda>x. x = a \<or> x = b) xs = filter (\<lambda>x. x = a \<or> x = b) (filter (\<lambda>x. x \<noteq> u) xs)" for xs
    using assms(2,3) by (auto simp: intro!: filter_cong)
  with assms(1,4) show ?thesis unfolding ahead_def by metis
qed

lemma ahead_enter: "ok q \<Longrightarrow> ahead a b q \<Longrightarrow> u \<noteq> a \<Longrightarrow> u \<noteq> b \<Longrightarrow> ahead a b (enter u t q)"
  by (rule ahead_others [of a b q u]) (simp_all add: line_enter)

lemma ahead_leave: "ok q \<Longrightarrow> ahead a b q \<Longrightarrow> u \<noteq> a \<Longrightarrow> u \<noteq> b \<Longrightarrow> ahead a b (leave u q)"
  by (rule ahead_others [of a b q u]) (simp_all add: line_leave cong: conj_cong)

text \<open>Whoever has somebody ahead is not at the head of the line.\<close>

lemma ahead_not_head: "ahead a b q \<Longrightarrow> line q \<noteq> b # rest"
  by (auto simp: ahead_def)

lemma ahead_there: "ahead a b q \<Longrightarrow> a \<in> set (line q) \<and> b \<in> set (line q)"
  unfolding ahead_def
  using set_filter [of "\<lambda>x. x = a \<or> x = b" "line q"] by auto

lemma filter_one: "distinct xs \<Longrightarrow> a \<in> set xs \<Longrightarrow> filter (\<lambda>x. x = a) xs = [a]"
  by (induction xs) (auto simp: filter_empty_conv)

lemma ahead_late:
  assumes "ok q" and "a \<in> set (line q)" and "u \<notin> set (line q)" and "late u t q"
  shows "ahead a u (enter u t q)"
proof -
  have "filter (\<lambda>x. x = a \<or> x = u) (line q) = filter (\<lambda>x. x = a) (line q)"
    using assms(3) by (auto intro!: filter_cong)
  then show ?thesis
    using assms filter_one [OF distinct_line [OF assms(1)] assms(2)] by (auto simp: ahead_def line_late)
qed

end

definition zlate :: "string \<Rightarrow> int \<Rightarrow> (string \<times> int) list \<Rightarrow> bool" where
  "zlate u t xs \<longleftrightarrow> (\<forall>p \<in> set xs. zbefore p (u, t))"

interpretation zline: waiting_line zset_ok "map fst" "\<lambda>u t xs. zinsert (u, t) (zremove u xs)" zremove zlate
proof unfold_locales
  fix xs :: "(string \<times> int) list" and u t
  assume ok: "zset_ok xs"
  show "zset_ok (zinsert (u, t) (zremove u xs))" by (rule zset_ok_add [OF ok])
  show "zset_ok (zremove u xs)" by (rule zset_ok_remove [OF ok])
  show "distinct (map fst xs)" using ok by (simp add: zset_ok_def)
  show "map fst (zremove u xs) = filter (\<lambda>x. x \<noteq> u) (map fst xs)"
    by (simp add: zremove_def filter_map comp_def)
  have "map fst (filter (\<lambda>p. fst p \<noteq> u) (zinsert (u, t) ys)) = map fst (filter (\<lambda>p. fst p \<noteq> u) ys)" for ys
    by (induction ys) (auto simp: zinsert_Cons)
  then show "filter (\<lambda>x. x \<noteq> u) (map fst (zinsert (u, t) (zremove u xs))) = filter (\<lambda>x. x \<noteq> u) (map fst xs)"
    by (simp add: filter_map comp_def zremove_def)
  show "u \<in> set (map fst (zinsert (u, t) (zremove u xs)))" by simp
  assume late: "zlate u t xs" and new: "u \<notin> set (map fst xs)"
  have "zinsert (u, t) xs = filter (\<lambda>y. \<not> zbefore (u, t) y) xs @ (u, t) # filter (zbefore (u, t)) xs"
    using ok by (simp add: zinsert_split zset_ok_def)
  also have "\<dots> = xs @ [(u, t)]"
    using late zbefore_asym by (auto simp: zlate_def filter_empty_conv intro!: filter_True)
  finally show "map fst (zinsert (u, t) (zremove u xs)) = map fst xs @ [u]"
    using new by (simp add: zremove_absent)
qed

section \<open>queue.py\<close>

text \<open>A score is the time of entry in microseconds; \<open>time.time()\<close> is read when none is given.\<close>

definition add_to_queue ::
  "'w redis_client \<Rightarrow> 'w runtime \<Rightarrow> string \<Rightarrow> string \<Rightarrow> int option \<Rightarrow> ('w, unit) py" where
  "add_to_queue R T event_id user_id timestamp =
     bnd (case timestamp of Some t \<Rightarrow> ret t | None \<Rightarrow> utcnow T) (\<lambda>score.
     r_pipeline R [CZadd (QUEUE_KEY event_id) user_id score, CExpire (QUEUE_KEY event_id) QUEUE_TTL])"

definition get_position :: "'w redis_client \<Rightarrow> string \<Rightarrow> string \<Rightarrow> ('w, nat option) py" where
  "get_position R event_id user_id =
     bnd (r_zrank R (QUEUE_KEY event_id) user_id) (\<lambda>rank. ret (map_option Suc rank))"

definition get_queue_size :: "'w redis_client \<Rightarrow> string \<Rightarrow> ('w, nat) py" where
  "get_queue_size R event_id = r_zcard R (QUEUE_KEY event_id)"

definition remove_from_queue :: "'w redis_client \<Rightarrow> string \<Rightarrow> string \<Rightarrow> ('w, nat) py" where
  "remove_from_queue R event_id user_id = r_zrem R (QUEUE_KEY event_id) user_id"

definition consume_script :: "string \<Rightarrow> string \<Rightarrow> rdb \<Rightarrow> nat \<times> rdb" where
  "consume_script key user_id d =
     (if rdb_zrank key user_id d = Some 0 then (1, rdb_zrem key user_id d) else (0, d))"

definition consume_from_queue_atomic ::
  "'w redis_client \<Rightarrow> string \<Rightarrow> string \<Rightarrow> ('w, bool) py" where
  "consume_from_queue_atomic R event_id user_id =
     bnd (r_eval R (consume_script (QUEUE_KEY event_id) user_id)) (\<lambda>n. ret (n = 1))"

section \<open>queue_service.py\<close>

text \<open>\<open>TokenService\<close>.\<close>

definition issue_queue_token ::
  "jwt_lib \<Rightarrow> settings \<Rightarrow> 'w runtime \<Rightarrow> string \<Rightarrow> string \<Rightarrow> nat option \<Rightarrow> ('w, string) py" where
  "issue_queue_token J cfg T user_id event_id position = create_queue_token J cfg T user_id event_id position"

definition issue_access_token ::
  "jwt_lib \<Rightarrow> settings \<Rightarrow> 'w runtime \<Rightarrow> string \<Rightarrow> string \<Rightarrow> ('w, string) py" where
  "issue_access_token J cfg T user_id event_id = create_access_token J cfg T user_id event_id"

definition verify_token :: "jwt_lib \<Rightarrow> settings \<Rightarrow> 'w runtime \<Rightarrow> string \<Rightarrow> ('w, claims) py" where
  "verify_token J cfg T token = decode_token J cfg T token"

record join_result =
  jr_position :: "nat option"
  jr_queue_token :: string
  jr_total :: nat

definition join_queue ::
  "'w redis_client \<Rightarrow> 'w runtime \<Rightarrow> jwt_lib \<Rightarrow> settings \<Rightarrow> string \<Rightarrow> string \<Rightarrow> ('w, join_result) py" where
  "join_queue R T J cfg user_id event_id =
     bnd (get_position R event_id user_id) (\<lambda>existing.
     case existing of
       Some pos \<Rightarrow>
         bnd (get_queue_size R event_id) (\<lambda>total.
         bnd (issue_queue_token J cfg T user_id event_id existing) (\<lambda>token.
         ret \<lparr>jr_position = existing, jr_queue_token = token, jr_total = total\<rparr>))
     | None \<Rightarrow>
         seqn (add_to_queue R T event_id user_id None)
         (bnd (get_position R event_id user_id) (\<lambda>position.
         bnd (get_queue_size R event_id) (\<lambda>total.
         bnd (issue_queue_token J cfg T user_id event_id position) (\<lambda>token.
         ret \<lparr>jr_position = position, jr_queue_token = token, jr_total = total\<rparr>)))))"

text \<open>The methods \<open>get_position\<close> and \<open>get_total\<close>.\<close>

definition service_position :: "'w redis_client \<Rightarrow> string \<Rightarrow> string \<Rightarrow> ('w, nat option) py" where
  "service_position R user_id event_id = get_position R event_id user_id"

definition get_total :: "'w redis_client \<Rightarrow> string \<Rightarrow> ('w, nat) py" where
  "get_total R event_id = get_queue_size R event_id"

definition leave_queue :: "'w redis_client \<Rightarrow> string \<Rightarrow> string \<Rightarrow> ('w, bool) py" where
  "leave_queue R user_id event_id =
     bnd (remove_from_queue R event_id user_id) (\<lambda>n. ret (0 < n))"

definition consume_token ::
  "'w redis_client \<Rightarrow> 'w runtime \<Rightarrow> jwt_lib \<Rightarrow> settings \<Rightarrow> string \<Rightarrow> string \<Rightarrow> ('w, string option) py" where
  "consume_token R T J cfg user_id event_id =
     bnd (consume_from_queue_atomic R event_id user_id) (\<lambda>ok.
     if \<not> ok then ret None
     else bnd (issue_access_token J cfg T user_id event_id) (\<lambda>token. ret (Some token)))"

section \<open>What the operations do to the line\<close>

definition waiting :: "string \<Rightarrow> vstate \<Rightarrow> (string \<times> int) list" where
  "waiting e s = zsets (redis s) (QUEUE_KEY e)"

definition queue_ok :: "vstate \<Rightarrow> bool" where
  "queue_ok s \<longleftrightarrow> (\<forall>e. zset_ok (waiting e s))"

definition enqueue :: "string \<Rightarrow> string \<Rightarrow> int \<Rightarrow> rdb \<Rightarrow> rdb" where
  "enqueue e u t d = rdb_expire (QUEUE_KEY e) QUEUE_TTL (rdb_zadd (QUEUE_KEY e) u t d)"

lemma enqueue_zsets [simp]:
  "zsets (enqueue e u t d) =
    (zsets d)(QUEUE_KEY e := zinsert (u, t) (zremove u (zsets d (QUEUE_KEY e))))"
  by (simp add: enqueue_def rdb_expire_def rdb_zadd_def)

lemma rdb_zrem_zsets [simp]: "zsets (rdb_zrem k m d) = (zsets d)(k := zremove m (zsets d k))"
  by (simp add: rdb_zrem_def)

lemma waiting_update [simp]: "waiting e (s\<lparr>redis := d\<rparr>) = zsets d (QUEUE_KEY e)"
  "waiting e (s\<lparr>clk := t\<rparr>) = waiting e s"
  by (simp_all add: waiting_def)

lemma queue_ok_clk [simp]: "queue_ok (s\<lparr>clk := t\<rparr>) = queue_ok s"
  by (simp add: queue_ok_def)

lemma queue_ok_enqueue: "queue_ok s \<Longrightarrow> queue_ok (s\<lparr>redis := enqueue e u t (redis s)\<rparr>)"
  by (auto simp: queue_ok_def waiting_def intro: zset_ok_add)

lemma queue_ok_zrem: "queue_ok s \<Longrightarrow> queue_ok (s\<lparr>redis := rdb_zrem k m (redis s)\<rparr>)"
  by (auto simp: queue_ok_def waiting_def intro: zset_ok_remove)

lemma rank_enqueue:
  assumes "queue_ok s" and "u \<notin> fst ` set (waiting e s)"
  shows "rdb_zrank (QUEUE_KEY e) u (enqueue e u t (redis s)) =
    Some (length (filter (\<lambda>p. \<not> zbefore (u, t) p) (waiting e s)))"
  using assms zposition_zinsert [of "waiting e s" u t]
  by (simp add: rdb_zrank_def queue_ok_def zset_ok_def waiting_def zremove_absent)

context lock_services
begin

lemma vc_issue_queue_token:
  "(\<And>t. Q (jwt_encode J (queue_claims u e p (t + hours (queue_token_expiration_hours cfg))) (secret_key cfg)
        (jwt_algorithm cfg)) (s\<lparr>clk := t\<rparr>)) \<Longrightarrow>
    vc v (issue_queue_token J cfg T u e p) Q E s"
  unfolding issue_queue_token_def create_queue_token_def Let_def by (intro vc_intro)

lemma vc_issue_access_token:
  "(\<And>t. Q (jwt_encode J (access_claims u e (t + hours (jwt_expiration_hours cfg))) (secret_key cfg)
        (jwt_algorithm cfg)) (s\<lparr>clk := t\<rparr>)) \<Longrightarrow>
    vc v (issue_access_token J cfg T u e) Q E s"
  unfolding issue_access_token_def create_access_token_def Let_def by (intro vc_intro)

lemma vc_get_position:
  "Q (map_option Suc (rdb_zrank (QUEUE_KEY e) u (redis s))) s \<Longrightarrow> (\<And>m. E (ExternalError m) s) \<Longrightarrow>
    vc v (get_position R e u) Q E s"
  unfolding get_position_def by (intro vc_intro)

lemma vc_get_queue_size:
  "Q (length (waiting e s)) s \<Longrightarrow> (\<And>m. E (ExternalError m) s) \<Longrightarrow> vc v (get_queue_size R e) Q E s"
  unfolding get_queue_size_def waiting_def by (intro vc_intro)

lemmas vc_service_position = vc_get_position [folded service_position_def]
lemmas vc_get_total = vc_get_queue_size [folded get_total_def]

lemma vc_add_to_queue:
  "(\<And>t. clk s \<le> t \<Longrightarrow> Q () (s\<lparr>clk := t, redis := enqueue e u t (redis s)\<rparr>)) \<Longrightarrow>
    (\<And>m t. E (ExternalError m) (s\<lparr>clk := t\<rparr>)) \<Longrightarrow> vc v (add_to_queue R T e u None) Q E s"
  unfolding add_to_queue_def
  by (simp, intro vc_intro) (simp_all add: run_pipeline_def enqueue_def)

end

section \<open>Interleavings\<close>

text \<open>
  What clients do to one line, in any order: a \<open>ZADD\<close> (also of somebody who is already in, as two
  racing joins of one user make it), a \<open>ZREM\<close>, and a run of the consume script that answers 1.
\<close>

datatype queue_event = Enter string int | Leave string | Serve string

inductive queue_step :: "string \<Rightarrow> rdb \<Rightarrow> queue_event \<Rightarrow> rdb \<Rightarrow> bool" for e where
  enter: "queue_step e d (Enter u t) (enqueue e u t d)"
| leave: "queue_step e d (Leave u) (rdb_zrem (QUEUE_KEY e) u d)"
| serve: "consume_script (QUEUE_KEY e) u d = (1, d') \<Longrightarrow> queue_step e d (Serve u) d'"

inductive_cases queue_step_Serve: "queue_step e d (Serve u) d'"

inductive queue_run :: "string \<Rightarrow> rdb \<Rightarrow> queue_event list \<Rightarrow> rdb \<Rightarrow> bool" for e d where
  none: "queue_run e d [] d"
| step: "queue_run e d evs d' \<Longrightarrow> queue_step e d' ev d'' \<Longrightarrow> queue_run e d (evs @ [ev]) d''"

fun event_user :: "queue_event \<Rightarrow> string" where
  "event_user (Enter u t) = u"
| "event_user (Leave u) = u"
| "event_user (Serve u) = u"

lemma consume_script_served:
  "consume_script k u d = (Suc 0, d') \<longleftrightarrow> rdb_zrank k u d = Some 0 \<and> d' = rdb_zrem k u d"
  by (auto simp: consume_script_def)

lemma queue_step_ok:
  "queue_step e d ev d' \<Longrightarrow> zset_ok (zsets d (QUEUE_KEY e)) \<Longrightarrow> zset_ok (zsets d' (QUEUE_KEY e))"
  by (induction rule: queue_step.induct)
    (auto simp: consume_script_served intro: zset_ok_add zset_ok_remove)

lemma queue_run_ok:
  "queue_run e d evs d' \<Longrightarrow> zset_ok (zsets d (QUEUE_KEY e)) \<Longrightarrow> zset_ok (zsets d' (QUEUE_KEY e))"
  by (induction rule: queue_run.induct) (auto dest: queue_step_ok)

lemma queue_step_ahead:
  assumes "queue_step e d ev d'" and "zset_ok (zsets d (QUEUE_KEY e))"
    and "event_user ev \<noteq> a" and "event_user ev \<noteq> b" and "zline.ahead a b (zsets d (QUEUE_KEY e))"
  shows "zline.ahead a b (zsets d' (QUEUE_KEY e))"
  using assms
proof (induction rule: queue_step.induct)
  case (enter d u t)
  then show ?case using zline.ahead_enter [of "zsets d (QUEUE_KEY e)" a b u t] by simp
next
  case (leave d u)
  then show ?case using zline.ahead_leave [of "zsets d (QUEUE_KEY e)" a b u] by simp
next
  case (serve u d d')
  then show ?case
    using zline.ahead_leave [of "zsets d (QUEUE_KEY e)" a b u] by (simp add: consume_script_served)
qed

lemma queue_run_ahead:
  assumes "queue_run e d evs d'" and "zset_ok (zsets d (QUEUE_KEY e))"
    and "\<forall>ev\<in>set evs. event_user ev \<noteq> a \<and> event_user ev \<noteq> b"
    and "zline.ahead a b (zsets d (QUEUE_KEY e))"
  shows "zline.ahead a b (zsets d' (QUEUE_KEY e))"
  using assms by (induction rule: queue_run.induct) (auto dest: queue_step_ahead queue_run_ok)

text \<open>How a first join ends, as a property of the view before and after.\<close>

definition joined_at :: "string \<Rightarrow> string \<Rightarrow> int \<Rightarrow> vstate \<Rightarrow> join_result \<Rightarrow> vstate \<Rightarrow> bool" where
  "joined_at e u t s j s' \<longleftrightarrow>
     redis s' = enqueue e u t (redis s) \<and>
     jr_position j = Some (Suc (length (filter (\<lambda>p. zbefore p (u, t)) (waiting e s)))) \<and>
     jr_total j = length (waiting e s') \<and> jr_total j = Suc (length (waiting e s))"

lemma joined_late:
  assumes "joined_at e u t s j s'" and "queue_ok s" and "u \<notin> fst ` set (waiting e s)"
    and "zlate u t (waiting e s)"
  shows "map fst (waiting e s') = map fst (waiting e s) @ [u]" and "jr_position j = Some (jr_total j)"
proof -
  have "waiting e s' = zinsert (u, t) (zremove u (waiting e s))"
    using assms(1) by (simp add: joined_at_def waiting_def)
  with zline.line_late [of "waiting e s" u t] assms(2-4)
  show "map fst (waiting e s') = map fst (waiting e s) @ [u]" by (simp add: queue_ok_def)
  have "filter (\<lambda>p. zbefore p (u, t)) (waiting e s) = waiting e s"
    using assms(4) by (intro filter_True) (simp add: zlate_def)
  with assms(1) show "jr_position j = Some (jr_total j)" by (simp add: joined_at_def)
qed

context lock_services
begin

lemma vc_join_queue_new:
  assumes "queue_ok s" and "u \<notin> fst ` set (waiting e s)"
  shows "vc v (join_queue R T J cfg u e)
    (\<lambda>j s'. queue_ok s' \<and> com s' = com s \<and> (\<exists>t. clk s \<le> t \<and> joined_at e u t s j s') \<and>
      (\<exists>ex. jr_queue_token j = jwt_encode J (queue_claims u e (jr_position j) ex) (secret_key cfg)
          (jwt_algorithm cfg)))
    (\<lambda>x s'. is_external x \<and> queue_ok s' \<and> com s' = com s \<and>
      (redis s' = redis s \<or> (\<exists>t. redis s' = enqueue e u t (redis s)))) s"
proof -
  have rank: "rdb_zrank (QUEUE_KEY e) u (redis s) = None"
    using assms(2) by (simp add: rdb_zrank_def waiting_def)
  have before: "filter (\<lambda>p. \<not> zbefore (u, t) p) (waiting e s) = filter (\<lambda>p. zbefore p (u, t)) (waiting e s)" for t
  proof (rule filter_cong [OF refl])
    fix p
    assume "p \<in> set (waiting e s)"
    with assms(2) have "fst p \<noteq> u" by auto
    then show "(\<not> zbefore (u, t) p) = zbefore p (u, t)"
      using zbefore_total [of p "(u, t)"] zbefore_asym [of p "(u, t)"] by auto
  qed
  have total: "length (zinsert (u, t) (zremove u (waiting e s))) = Suc (length (waiting e s))" for t
    using assms(2) by (simp add: zremove_absent)
  have ok: "queue_ok (s\<lparr>clk := c, redis := enqueue e u t (redis s)\<rparr>)" for c t
    using queue_ok_enqueue [of "s\<lparr>clk := c\<rparr>"] assms(1) by simp
  have joined: "joined_at e u t s j s'"
    if "redis s' = enqueue e u t (redis s)"
      and "jr_position j = map_option Suc (rdb_zrank (QUEUE_KEY e) u (enqueue e u t (redis s)))"
      and "jr_total j = length (zsets (enqueue e u t (redis s)) (QUEUE_KEY e))" for t j s'
    using that total [of t] rank_enqueue [OF assms, of t] before [of t]
    by (simp add: joined_at_def waiting_def)
  show ?thesis
    unfolding join_queue_def
    by (intro vc_bnd vc_get_position vc_case_option vc_add_to_queue vc_get_queue_size
        vc_issue_queue_token vc_ret)
      (use rank ok queue_ok_enqueue [OF assms(1)] assms(1) in \<open>auto intro!: joined simp: waiting_def\<close>)
qed

end

section \<open>Properties\<close>

text \<open>C18: joining for the first time puts the user at the place of the entry time read on the way,
  directly after everybody with an earlier entry, leaves the order of the others alone, and
  reports that place in the answer and in the token. A user who
  joins after the entry times of all the others is appended, and is told the total as position. A failure of Redis leaves the line
  as it was or with the user in it.\<close>

theorem join_queue_new:
  assumes "lock_services R T v" and "queue_ok (v w)" and "u \<notin> fst ` set (waiting e (v w))"
  shows "wp (join_queue R T J cfg u e)
    (\<lambda>j w'. queue_ok (v w') \<and> com (v w') = com (v w) \<and>
      (\<exists>t. clk (v w) \<le> t \<and> joined_at e u t (v w) j (v w')) \<and>
      ((\<forall>p \<in> set (waiting e (v w)). snd p < clk (v w)) \<longrightarrow>
        map fst (waiting e (v w')) = map fst (waiting e (v w)) @ [u] \<and> jr_position j = Some (jr_total j)) \<and>
      (\<exists>ex. jr_queue_token j = jwt_encode J (queue_claims u e (jr_position j) ex) (secret_key cfg)
          (jwt_algorithm cfg)))
    (\<lambda>x w'. is_external x \<and> queue_ok (v w') \<and> com (v w') = com (v w) \<and>
      (redis (v w') = redis (v w) \<or> (\<exists>t. redis (v w') = enqueue e u t (redis (v w))))) w"
proof (rule wp_mono [OF vcD [OF lock_services.vc_join_queue_new [OF assms]]])
  have "zlate u t (waiting e (v w))"
    if "\<forall>p \<in> set (waiting e (v w)). snd p < clk (v w)" and "clk (v w) \<le> t" for t
    using that by (fastforce simp: zlate_def zbefore_def)
  then show "queue_ok (v w') \<and> com (v w') = com (v w) \<and>
      (\<exists>t. clk (v w) \<le> t \<and> joined_at e u t (v w) j (v w')) \<and>
      ((\<forall>p \<in> set (waiting e (v w)). snd p < clk (v w)) \<longrightarrow>
        map fst (waiting e (v w')) = map fst (waiting e (v w)) @ [u] \<and> jr_position j = Some (jr_total j)) \<and>
      (\<exists>ex. jr_queue_token j = jwt_encode J (queue_claims u e (jr_position j) ex) (secret_key cfg)
          (jwt_algorithm cfg))"
    if "queue_ok (v w') \<and> com (v w') = com (v w) \<and>
      (\<exists>t. clk (v w) \<le> t \<and> joined_at e u t (v w) j (v w')) \<and>
      (\<exists>ex. jr_queue_token j = jwt_encode J (queue_claims u e (jr_position j) ex) (secret_key cfg)
          (jwt_algorithm cfg))" for j w'
    using that joined_late assms(2,3) by blast
qed

theorem join_queue_new_witness:
  "wp (join_queue mem_redis mem_runtime plain_jwt (default_settings ''db'' ''s'') ''ann'' ''ev'')
    (\<lambda>j w'. jr_position j = Some 1 \<and> jr_total j = 1 \<and> map fst (waiting ''ev'' (mview w')) = [''ann''])
    (\<lambda>x w'. is_external x) (start_mem empty_tables)"
proof -
  have ok: "queue_ok (mview (start_mem empty_tables))"
    and line: "waiting ''ev'' (start_view empty_tables) = []"
    by (simp_all add: queue_ok_def waiting_def)
  show ?thesis
    by (rule wp_mono [OF join_queue_new [OF mem_lock_services ok, where u = "''ann''" and e = "''ev''"]])
      (auto simp: line joined_at_def)
qed

text \<open>Joining again is idempotent: a user already in line gets the present position and the
  line's length, with a new token for that position, and the line, its entry times included, is
  left exactly as it was.\<close>

lemma join_queue_again:
  assumes "lock_services R T v" and "zposition u (waiting e (v w)) = Some n"
  shows "wp (join_queue R T J cfg u e)
    (\<lambda>j w'. redis (v w') = redis (v w) \<and> com (v w') = com (v w) \<and>
      jr_position j = Some (Suc n) \<and> jr_total j = length (waiting e (v w)) \<and> Suc n \<le> jr_total j \<and>
      (\<exists>ex. jr_queue_token j = jwt_encode J (queue_claims u e (Some (Suc n)) ex) (secret_key cfg)
          (jwt_algorithm cfg)))
    (\<lambda>x w'. is_external x \<and> v w' = v w) w"
proof -
  have rank: "rdb_zrank (QUEUE_KEY e) u (redis (v w)) = Some n"
    using assms(2) by (simp add: rdb_zrank_def waiting_def)
  have le: "Suc n \<le> length (waiting e (v w))"
    using zposition_Some [OF assms(2)] by simp
  note rules = lock_services.vc_get_position [OF assms(1)] lock_services.vc_get_queue_size [OF assms(1)]
    lock_services.vc_issue_queue_token [OF assms(1)]
  have "vc v (join_queue R T J cfg u e)
    (\<lambda>j s'. redis s' = redis (v w) \<and> com s' = com (v w) \<and>
      jr_position j = Some (Suc n) \<and> jr_total j = length (waiting e (v w)) \<and> Suc n \<le> jr_total j \<and>
      (\<exists>ex. jr_queue_token j = jwt_encode J (queue_claims u e (Some (Suc n)) ex) (secret_key cfg)
          (jwt_algorithm cfg)))
    (\<lambda>x s'. is_external x \<and> s' = v w) (v w)"
    unfolding join_queue_def
    by (intro vc_bnd rules vc_case_option vc_ret) (use rank le in auto)
  then show ?thesis by (rule vcD)
qed

lemma join_queue_again_witness:
  "let w = (start_mem empty_tables)\<lparr>mview := (start_view empty_tables)\<lparr>redis :=
       rdb_zadd (QUEUE_KEY ''ev'') ''ann'' 5 empty_redis\<rparr>\<rparr>
   in wp (join_queue mem_redis mem_runtime plain_jwt (default_settings ''db'' ''s'') ''ann'' ''ev'')
     (\<lambda>j w'. jr_position j = Some 1 \<and> waiting ''ev'' (mview w') = [(''ann'', 5)])
     (\<lambda>x w'. is_external x) w"
proof -
  define w where "w = (start_mem empty_tables)\<lparr>mview := (start_view empty_tables)\<lparr>redis :=
       rdb_zadd (QUEUE_KEY ''ev'') ''ann'' 5 empty_redis\<rparr>\<rparr>"
  have line: "waiting ''ev'' (mview w) = [(''ann'', 5)]"
    by (simp add: w_def waiting_def rdb_zadd_def zremove_def)
  have "wp (join_queue mem_redis mem_runtime plain_jwt (default_settings ''db'' ''s'') ''ann'' ''ev'')
     (\<lambda>j w'. jr_position j = Some 1 \<and> waiting ''ev'' (mview w') = [(''ann'', 5)])
     (\<lambda>x w'. is_external x) w"
    by (rule wp_mono [OF join_queue_again [OF mem_lock_services, where n = 0 and u = "''ann''" and e = "''ev''"]])
      (use line in \<open>auto simp: waiting_def\<close>)
  then show ?thesis by (simp add: w_def Let_def)
qed

text \<open>C17: an access token is issued to the head of the line only, who leaves it in the same atomic
  step while the others move up unchanged; anybody else gets nothing and changes nothing.\<close>

theorem consume_token_head_only:
  assumes "lock_services R T v" and "queue_ok (v w)"
  shows "wp (consume_token R T J cfg u e)
    (\<lambda>tok w'. if \<exists>t rest. waiting e (v w) = (u, t) # rest
      then waiting e (v w') = tl (waiting e (v w)) \<and> queue_ok (v w') \<and>
        (\<exists>ex. tok = Some (jwt_encode J (access_claims u e ex) (secret_key cfg) (jwt_algorithm cfg)))
      else tok = None \<and> v w' = v w)
    (\<lambda>x w'. is_external x \<and> v w' = v w) w"
proof -
  let ?q = "waiting e (v w)"
  have head: "rdb_zrank (QUEUE_KEY e) u (redis (v w)) = Some 0 \<longleftrightarrow> (\<exists>t rest. ?q = (u, t) # rest)"
    by (auto simp: rdb_zrank_def waiting_def zposition_head)
  have out: "waiting e (v w\<lparr>redis := rdb_zrem (QUEUE_KEY e) u (redis (v w)), clk := c\<rparr>) = tl ?q"
    if "?q = (u, t) # rest" for t rest c
  proof -
    have "u \<notin> fst ` set rest" using that assms(2) unfolding queue_ok_def zset_ok_def
      by (metis distinct.simps(2) fst_conv list.set_map list.simps(9))
    then have "zremove u ?q = rest" using that zremove_absent [of u rest] by (simp add: zremove_def)
    with that show ?thesis by (simp add: waiting_def)
  qed
  have ok: "queue_ok (v w\<lparr>redis := rdb_zrem (QUEUE_KEY e) u (redis (v w)), clk := c\<rparr>)" for c
    using queue_ok_zrem [OF assms(2)] by simp
  have "vc v (consume_token R T J cfg u e)
    (\<lambda>tok s'. if \<exists>t rest. ?q = (u, t) # rest
      then waiting e s' = tl ?q \<and> queue_ok s' \<and>
        (\<exists>ex. tok = Some (jwt_encode J (access_claims u e ex) (secret_key cfg) (jwt_algorithm cfg)))
      else tok = None \<and> s' = v w)
    (\<lambda>x s'. is_external x \<and> s' = v w) (v w)"
    unfolding consume_token_def consume_from_queue_atomic_def
    by (intro vc_bnd redis_laws.vc_eval [OF lock_services.axioms(1) [OF assms(1)]] vc_ret vc_if
        lock_services.vc_issue_access_token [OF assms(1)])
      (use head out ok in \<open>auto simp: consume_script_def split: if_splits\<close>)
  then show ?thesis by (rule vcD)
qed

theorem consume_token_head_only_witness:
  "let w = (start_mem empty_tables)\<lparr>mview := (start_view empty_tables)\<lparr>redis :=
       rdb_zadd (QUEUE_KEY ''ev'') ''ann'' 5 empty_redis\<rparr>\<rparr>
   in wp (consume_token mem_redis mem_runtime plain_jwt (default_settings ''db'' ''s'') ''ann'' ''ev'')
     (\<lambda>tok w'. tok \<noteq> None \<and> waiting ''ev'' (mview w') = []) (\<lambda>x w'. is_external x) w \<and>
     wp (consume_token mem_redis mem_runtime plain_jwt (default_settings ''db'' ''s'') ''bob'' ''ev'')
     (\<lambda>tok w'. tok = None) (\<lambda>x w'. is_external x) w"
proof -
  define w where "w = (start_mem empty_tables)\<lparr>mview := (start_view empty_tables)\<lparr>redis :=
       rdb_zadd (QUEUE_KEY ''ev'') ''ann'' 5 empty_redis\<rparr>\<rparr>"
  have line: "waiting ''ev'' (mview w) = [(''ann'', 5)]"
    by (simp add: w_def waiting_def rdb_zadd_def zremove_def)
  have ok: "queue_ok (mview w)"
    by (simp add: w_def queue_ok_def waiting_def rdb_zadd_def zremove_def zset_ok_def)
  note ct = consume_token_head_only [OF mem_lock_services ok, where J = plain_jwt
      and cfg = "default_settings ''db'' ''s''" and e = "''ev''"]
  have "wp (consume_token mem_redis mem_runtime plain_jwt (default_settings ''db'' ''s'') ''ann'' ''ev'')
     (\<lambda>tok w'. tok \<noteq> None \<and> waiting ''ev'' (mview w') = []) (\<lambda>x w'. is_external x) w"
    by (rule wp_mono [OF ct [where u = "''ann''"]]) (auto simp: line)
  moreover have "wp (consume_token mem_redis mem_runtime plain_jwt (default_settings ''db'' ''s'') ''bob'' ''ev'')
     (\<lambda>tok w'. tok = None) (\<lambda>x w'. is_external x) w"
    by (rule wp_mono [OF ct [where u = "''bob''"]]) (simp_all add: line)
  ultimately show ?thesis by (simp add: w_def Let_def)
qed

text \<open>C16: no overtaking: of two users in line, the one behind is never served while the one in
  front neither leaves, is served, nor re-enters, whatever everybody else does.\<close>

theorem no_overtaking:
  assumes "zset_ok (zsets d (QUEUE_KEY e))"
    and "\<exists>xs ys zs. map fst (zsets d (QUEUE_KEY e)) = xs @ a # ys @ b # zs"
    and "queue_run e d evs d'" and "\<forall>ev\<in>set evs. event_user ev \<noteq> a \<and> event_user ev \<noteq> b"
  shows "\<not> queue_step e d' (Serve b) d'' \<and> a \<in> fst ` set (zsets d' (QUEUE_KEY e))"
proof -
  from assms(2) obtain xs ys zs where l: "map fst (zsets d (QUEUE_KEY e)) = xs @ a # ys @ b # zs" by blast
  have none: "filter (\<lambda>x. x = a \<or> x = b) us = []" if "a \<notin> set us" and "b \<notin> set us" for us
    using that by (auto simp: filter_empty_conv)
  from assms(1) l have "distinct (xs @ a # ys @ b # zs)" by (metis zset_ok_def)
  then have "a \<noteq> b \<and> filter (\<lambda>x. x = a \<or> x = b) (xs @ a # ys @ b # zs) = [a, b]"
    by (auto simp: none)
  with l have "zline.ahead a b (zsets d (QUEUE_KEY e))" by (simp add: zline.ahead_def)
  with assms have *: "zline.ahead a b (zsets d' (QUEUE_KEY e))" by (blast intro: queue_run_ahead)
  have "map fst (zsets d' (QUEUE_KEY e)) \<noteq> b # rest" for rest
    using * by (rule zline.ahead_not_head)
  then have "\<not> queue_step e d' (Serve b) d''"
    by (fastforce elim!: queue_step_Serve simp: consume_script_served rdb_zrank_def zposition_head)
  with zline.ahead_there [OF *] show ?thesis by simp
qed

theorem no_overtaking_witness:
  "let d = rdb_zadd (QUEUE_KEY ''ev'') ''bob'' 7 (rdb_zadd (QUEUE_KEY ''ev'') ''ann'' 5 empty_redis)
   in queue_run ''ev'' d [Enter ''eve'' 1] (enqueue ''ev'' ''eve'' 1 d) \<and>
     (\<forall>d''. \<not> queue_step ''ev'' (enqueue ''ev'' ''eve'' 1 d) (Serve ''bob'') d'')"
proof -
  define d where "d = rdb_zadd (QUEUE_KEY ''ev'') ''bob'' 7 (rdb_zadd (QUEUE_KEY ''ev'') ''ann'' 5 empty_redis)"
  have line: "zsets d (QUEUE_KEY ''ev'') = [(''ann'', 5), (''bob'', 7)]"
    by (simp add: d_def rdb_zadd_def zremove_def zinsert_Cons zbefore_def)
  then have ok: "zset_ok (zsets d (QUEUE_KEY ''ev''))" by (simp add: zset_ok_def zbefore_def)
  have "queue_run ''ev'' d ([] @ [Enter ''eve'' 1]) (enqueue ''ev'' ''eve'' 1 d)"
    by (rule queue_run.step [OF queue_run.none queue_step.enter])
  then have run: "queue_run ''ev'' d [Enter ''eve'' 1] (enqueue ''ev'' ''eve'' 1 d)" by simp
  have "map fst (zsets d (QUEUE_KEY ''ev'')) = [] @ ''ann'' # [] @ ''bob'' # []" by (simp add: line)
  then have "\<exists>xs ys zs. map fst (zsets d (QUEUE_KEY ''ev'')) = xs @ ''ann'' # ys @ ''bob'' # zs" by blast
  from no_overtaking [OF ok this run] run show ?thesis by (simp add: d_def Let_def)
qed

end
