(* ===== verification/Queue_Api.thy ===== *)
theory Queue_Api
  imports Prediction_Service Redis_Queue
begin

text \<open>
  The endpoints of \<open>src/api/v1/queue.py\<close>: joining (which has a plan predicted in the background when
  the line opens), status, leaving, and the stream of server-sent events that ends with the access
  token. The stream runs until the client is gone or its turn has come; the model takes the answers
  to \<open>is_disconnected\<close> as a list, one for each turn of the loop.
\<close>

section \<open>queue.py\<close>

record join_response =
  jo_position :: nat
  jo_queue_token :: string
  jo_total :: nat

record status_response =
  st_position :: "nat option"
  st_total :: nat
  st_is_in_queue :: bool

text \<open>\<open>QueueJoinResponse\<close> requires a number as position.\<close>

definition to_join_response :: "join_result \<Rightarrow> exn + join_response" where
  "to_join_response j =
     (case jr_position j of
        Some p \<Rightarrow> Inr \<lparr>jo_position = p, jo_queue_token = jr_queue_token j, jo_total = jr_total j\<rparr>
      | None \<Rightarrow> Inl (ValueError ''position: Input should be a valid integer''))"

definition log_scaling_recommendation ::
  "'w redis_client \<Rightarrow> 'w db_session \<Rightarrow> 'w torch \<Rightarrow> 'g rng \<Rightarrow> string \<Rightarrow> ('w, unit) py" where
  "log_scaling_recommendation R D N G event_id =
     try_finally
       (try_except (bnd (get_resource_plan R D N G event_id) (\<lambda>_. ret ())) (\<lambda>_. ret ()))
       (close_session D)"

text \<open>The answer, and the background task that runs after it is sent; what that raises is only logged by the server.\<close>

definition join_queue_endpoint ::
  "'w redis_client \<Rightarrow> 'w runtime \<Rightarrow> jwt_lib \<Rightarrow> settings \<Rightarrow> string \<Rightarrow> string \<Rightarrow>
    ('w, join_response reply \<times> bool) py" where
  "join_queue_endpoint R T J cfg user_id event_id =
     bnd (join_queue R T J cfg user_id event_id) (\<lambda>result.
     let background = jr_total result = 1 in
     bnd (lift_res (to_join_response result)) (\<lambda>data.
     ret (Reply 200 ''success'' (Some data), background)))"

definition join_request ::
  "'w redis_client \<Rightarrow> 'w db_session \<Rightarrow> 'w runtime \<Rightarrow> 'w torch \<Rightarrow> 'g rng \<Rightarrow> jwt_lib \<Rightarrow> settings \<Rightarrow>
    string \<Rightarrow> string \<Rightarrow> ('w, join_response reply) py" where
  "join_request R D T N G J cfg user_id event_id =
     bnd (join_queue_endpoint R T J cfg user_id event_id) (\<lambda>(answer, background).
     seqn (if background
           then try_except (log_scaling_recommendation R D N G event_id) (\<lambda>_. ret ()) else ret ())
     (ret answer))"

text \<open>\<open>token_user["sub"] != user_id\<close>.\<close>

definition same_user :: "claims \<Rightarrow> string \<Rightarrow> ('w, unit) py" where
  "same_user token_user user_id =
     (case map_of token_user ''sub'' of
        None \<Rightarrow> raising (OtherError ''KeyError: sub'')
      | Some c \<Rightarrow> raise_if (c \<noteq> CStr user_id) (HTTPException 403 ''user_id mismatch with token''))"

definition queue_guard ::
  "jwt_lib \<Rightarrow> settings \<Rightarrow> 'w runtime \<Rightarrow> string option \<Rightarrow> string option \<Rightarrow> string \<Rightarrow> ('w, unit) py" where
  "queue_guard J cfg T authorization queue_token user_id =
     bnd (get_user_from_queue_token J cfg T authorization queue_token) (\<lambda>token_user.
     same_user token_user user_id)"

definition get_queue_status ::
  "'w redis_client \<Rightarrow> 'w runtime \<Rightarrow> jwt_lib \<Rightarrow> settings \<Rightarrow> string option \<Rightarrow> string option \<Rightarrow>
    string \<Rightarrow> string \<Rightarrow> ('w, status_response reply) py" where
  "get_queue_status R T J cfg authorization queue_token user_id event_id =
     seqn (queue_guard J cfg T authorization queue_token user_id)
     (bnd (service_position R user_id event_id) (\<lambda>position.
      bnd (get_total R event_id) (\<lambda>total.
      ret (Reply 200 ''success'' (Some
        \<lparr>st_position = position, st_total = total, st_is_in_queue = (position \<noteq> None)\<rparr>)))))"

definition leave_queue_endpoint ::
  "'w redis_client \<Rightarrow> 'w runtime \<Rightarrow> jwt_lib \<Rightarrow> settings \<Rightarrow> string option \<Rightarrow> string option \<Rightarrow>
    string \<Rightarrow> string \<Rightarrow> ('w, unit reply) py" where
  "leave_queue_endpoint R T J cfg authorization queue_token user_id event_id =
     seqn (queue_guard J cfg T authorization queue_token user_id)
     (bnd (leave_queue R user_id event_id) (\<lambda>removed.
      seqn (raise_if (\<not> removed) (HTTPException 404 ''user not in queue''))
      (ret (Reply 200 ''success'' None))))"

section \<open>The stream\<close>

datatype sse =
    NotInQueue nat
  | Ready nat "string option"
  | Waiting nat nat

text \<open>One turn: the event to send, and whether the loop goes on.\<close>

definition stream_turn ::
  "'w redis_client \<Rightarrow> 'w runtime \<Rightarrow> jwt_lib \<Rightarrow> settings \<Rightarrow> string \<Rightarrow> string \<Rightarrow> ('w, sse \<times> bool) py" where
  "stream_turn R T J cfg user_id event_id =
     bnd (service_position R user_id event_id) (\<lambda>position.
     bnd (get_total R event_id) (\<lambda>total.
     case position of
       None \<Rightarrow> ret (NotInQueue total, False)
     | Some p \<Rightarrow>
         if p = 1 then
           bnd (consume_token R T J cfg user_id event_id) (\<lambda>access_token.
           ret (Ready total access_token, False))
         else ret (Waiting p total, True)))"

text \<open>
  The generator: what it has sent when the given answers are used up, and whether it is still open.
  \<open>pause\<close> is \<open>asyncio.sleep(2)\<close>, during which the other requests of the process run.
\<close>

fun event_stream ::
  "'w redis_client \<Rightarrow> 'w runtime \<Rightarrow> jwt_lib \<Rightarrow> settings \<Rightarrow> ('w, unit) py \<Rightarrow> string \<Rightarrow> string \<Rightarrow>
    bool list \<Rightarrow> sse list \<Rightarrow> ('w, sse list \<times> bool) py" where
  "event_stream R T J cfg pause user_id event_id [] sent = ret (sent, True)"
| "event_stream R T J cfg pause user_id event_id (disconnected # polls) sent =
     (if disconnected then ret (sent, False)
      else
        bnd (stream_turn R T J cfg user_id event_id) (\<lambda>(item, more).
        if more then seqn pause (event_stream R T J cfg pause user_id event_id polls (sent @ [item]))
        else ret (sent @ [item], False)))"

definition queue_sse ::
  "'w redis_client \<Rightarrow> 'w runtime \<Rightarrow> jwt_lib \<Rightarrow> settings \<Rightarrow> ('w, unit) py \<Rightarrow> string option \<Rightarrow> string option \<Rightarrow>
    string \<Rightarrow> string \<Rightarrow> bool list \<Rightarrow> ('w, sse list \<times> bool) py" where
  "queue_sse R T J cfg pause authorization queue_token user_id event_id polls =
     seqn (queue_guard J cfg T authorization queue_token user_id)
     (event_stream R T J cfg pause user_id event_id polls [])"

section \<open>Rules\<close>

text \<open>Whatever the other requests do while the stream sleeps, they let it go on.\<close>

definition others :: "('w \<Rightarrow> vstate) \<Rightarrow> ('w, unit) py \<Rightarrow> bool" where
  "others v pause \<longleftrightarrow> refines v pause (\<lambda>s. {(Inr (), s') | s'. True})"

lemma vc_others: "others v pause \<Longrightarrow> (\<And>s'. Q () s') \<Longrightarrow> vc v pause Q E s"
  by (rule vc_refines [of v pause]) (auto simp: others_def)

text \<open>The events of a stream, as its client sees them: waiting, from the second place on, and at most one last event.\<close>

definition all_waiting :: "sse list \<Rightarrow> bool" where
  "all_waiting xs \<longleftrightarrow> (\<forall>x \<in> set xs. \<exists>p n. x = Waiting p n \<and> 2 \<le> p)"

definition access_token_for :: "jwt_lib \<Rightarrow> settings \<Rightarrow> string \<Rightarrow> string \<Rightarrow> string option \<Rightarrow> bool" where
  "access_token_for J cfg u e tok \<longleftrightarrow>
     (\<exists>ex. tok = Some (jwt_encode J (access_claims u e ex) (secret_key cfg) (jwt_algorithm cfg)))"

definition stream_ok :: "jwt_lib \<Rightarrow> settings \<Rightarrow> string \<Rightarrow> string \<Rightarrow> nat \<Rightarrow> sse list \<Rightarrow> bool \<Rightarrow> vstate \<Rightarrow> bool" where
  "stream_ok J cfg u e turns sent still_open s \<longleftrightarrow>
     (\<exists>ws. all_waiting ws \<and>
        (sent = ws \<and> (still_open \<longrightarrow> length ws = turns) \<or>
         \<not> still_open \<and> u \<notin> fst ` set (waiting e s) \<and>
           ((\<exists>n. sent = ws @ [NotInQueue n]) \<or>
            (\<exists>n tok. sent = ws @ [Ready n tok] \<and> 1 \<le> n \<and> access_token_for J cfg u e tok))))"

context lock_services
begin

lemma vc_consume_head:
  assumes "rdb_zrank (QUEUE_KEY e) u (redis s) = Some 0"
    and "\<And>tok t. access_token_for J cfg u e tok \<Longrightarrow>
      Q tok (s\<lparr>redis := rdb_zrem (QUEUE_KEY e) u (redis s), clk := t\<rparr>)"
    and "\<And>m. E (ExternalError m) s"
  shows "vc v (consume_token R T J cfg u e) Q E s"
  unfolding consume_token_def consume_from_queue_atomic_def bnd_assoc
  by (intro vc_bnd vc_eval vc_ret vc_if vc_issue_access_token)
    (use assms in \<open>auto simp: consume_script_def access_token_for_def\<close>)

lemma vc_stream_turn:
  assumes "\<And>n. u \<notin> fst ` set (waiting e s) \<Longrightarrow> Q (NotInQueue n, False) s"
    and "\<And>n tok s'. access_token_for J cfg u e tok \<Longrightarrow> u \<notin> fst ` set (waiting e s') \<Longrightarrow> 1 \<le> n \<Longrightarrow>
      Q (Ready n tok, False) s'"
    and "\<And>p n. 2 \<le> p \<Longrightarrow> Q (Waiting p n, True) s"
    and "\<And>m. E (ExternalError m) s"
  shows "vc v (stream_turn R T J cfg u e) Q E s"
  unfolding stream_turn_def
proof (intro vc_bnd vc_service_position vc_get_total vc_case_option vc_ret vc_if, goal_cases)
  case 1
  then show ?case by (intro assms(1)) (simp add: rdb_zrank_def waiting_def)
next
  case (2 p)
  then have head: "rdb_zrank (QUEUE_KEY e) u (redis s) = Some 0" by auto
  then have "1 \<le> length (waiting e s)"
    by (cases "waiting e s") (simp_all add: rdb_zrank_def waiting_def)
  then show ?case
    by (intro vc_consume_head [OF head] vc_ret) (auto intro!: assms(2,4))
next
  case (3 p)
  then show ?case by (intro assms(3)) auto
qed (rule assms(4))+

lemma vc_event_stream:
  assumes "others v pause" and "all_waiting sent"
  shows "vc v (event_stream R T J cfg pause u e polls sent)
    (\<lambda>(out, still_open). stream_ok J cfg u e (length sent + length polls) out still_open)
    (\<lambda>x s'. is_external x) s"
  using assms(2)
proof (induction polls arbitrary: sent s)
  case Nil
  then show ?case by (auto intro!: vc_ret simp: stream_ok_def)
next
  case (Cons gone polls)
  have more: "vc v (event_stream R T J cfg pause u e polls (sent @ [Waiting p n]))
      (\<lambda>(out, still_open). stream_ok J cfg u e (length sent + length (gone # polls)) out still_open)
      (\<lambda>x s'. is_external x) s'" if "2 \<le> p" for p n s'
    using Cons.IH [of "sent @ [Waiting p n]" s'] Cons.prems that by (simp add: all_waiting_def)
  show ?case
  proof (unfold event_stream.simps, rule vc_if, goal_cases)
    case 1
    show ?case using Cons.prems by (auto intro!: vc_ret simp: stream_ok_def)
  next
    case 2
    show ?case
    proof (rule vc_bnd, rule vc_stream_turn, goal_cases)
      case (3 p n)
      show ?case unfolding prod.case if_True by (rule vc_bnd, rule vc_others [OF assms(1)], rule more [OF 3])
    qed (use Cons.prems in \<open>auto intro!: vc_ret simp: stream_ok_def\<close>)
  qed
qed

end

lemma vc_queue_guard:
  assumes "jwt_laws J" and "runtime_laws T v"
    and "\<And>t. clk s \<le> t \<Longrightarrow> Q () (s\<lparr>clk := t\<rparr>)"
    and "\<And>x t. (\<exists>d. x = HTTPException 401 d \<or> x = HTTPException 403 d) \<or> x = OtherError ''KeyError: sub'' \<Longrightarrow>
      E x (s\<lparr>clk := t\<rparr>)"
  shows "vc v (queue_guard J cfg T authorization queue_token u) Q E s"
  unfolding queue_guard_def same_user_def
  by (intro vc_bnd vc_queue_user [OF assms(1,2)] vc_case_option vc_raising vc_raise_if) (auto intro: assms(3,4))

lemma vc_leave_queue_endpoint:
  assumes J: "jwt_laws J" and L: "lock_services R T v"
    and ok: "\<And>s'. u \<in> fst ` set (waiting e s) \<Longrightarrow> waiting e s' = zremove u (waiting e s) \<Longrightarrow>
      (\<forall>e'. e' \<noteq> e \<longrightarrow> waiting e' s' = waiting e' s) \<Longrightarrow> Q (Reply 200 ''success'' None) s'"
    and err: "\<And>x s'. \<forall>e'. waiting e' s' = waiting e' s \<Longrightarrow>
      is_external x \<or> x = OtherError ''KeyError: sub'' \<or>
       (\<exists>d. x = HTTPException 401 d \<or> x = HTTPException 403 d) \<or>
       (\<exists>d. x = HTTPException 404 d \<and> u \<notin> fst ` set (waiting e s)) \<Longrightarrow> E x s'"
  shows "vc v (leave_queue_endpoint R T J cfg authorization queue_token u e) Q E s"
proof -
  have key: "QUEUE_KEY e' \<noteq> QUEUE_KEY e" if "e' \<noteq> e" for e' using that by simp
  have leave: "vc v (leave_queue R u e)
      (\<lambda>removed. vc v (seqn (raise_if (\<not> removed) (HTTPException 404 ''user not in queue''))
        (ret (Reply 200 ''success'' None))) Q E) E (s\<lparr>clk := t\<rparr>)" for t
    unfolding leave_queue_def remove_from_queue_def
    by (intro vc_bnd redis_laws.vc_zrem [OF lock_services.axioms(1) [OF L]] vc_raise_if vc_ret)
      (auto simp: rdb_zrank_def waiting_def zremove_absent split: if_splits intro!: ok err)
  show ?thesis
    unfolding leave_queue_endpoint_def
    by (rule vc_bnd, rule vc_queue_guard [OF J lock_services.axioms(2) [OF L]], rule vc_bnd, rule leave, rule err)
      (simp, blast)
qed

section \<open>Properties\<close>


text \<open>While the stream of \<open>u2\<close> sleeps, the user ahead leaves.\<close>

definition first_leaves :: "(mem, unit) py" where
  "first_leaves = always (\<lambda>s. ((), s\<lparr>redis := rdb_zrem (QUEUE_KEY ''e'') ''u1'' (redis s)\<rparr>))"

lemma first_leaves_others: "others mview first_leaves"
  unfolding others_def first_leaves_def by (rule refines_always) simp

definition two_waiting :: mem where
  "two_waiting = (start_mem empty_tables)\<lparr>mview := (start_view empty_tables)\<lparr>redis :=
     enqueue ''e'' ''u2'' 2 (enqueue ''e'' ''u1'' 1 empty_redis)\<rparr>\<rparr>"


text \<open>Leaving takes exactly the user of the token out of the line and keeps the order of the others; the
  endpoint answers 404 only to a user who is not in the line, and refuses everybody else's token.\<close>

theorem leave_queue_outcome:
  assumes "jwt_laws J" and "lock_services R T v"
  shows "wp (leave_queue_endpoint R T J cfg authorization queue_token u e)
    (\<lambda>answer w'. answer = Reply 200 ''success'' None \<and> u \<in> fst ` set (waiting e (v w)) \<and>
      waiting e (v w') = zremove u (waiting e (v w)) \<and> (\<forall>e'. e' \<noteq> e \<longrightarrow> waiting e' (v w') = waiting e' (v w)))
    (\<lambda>x w'. (\<forall>e'. waiting e' (v w') = waiting e' (v w)) \<and>
      (is_external x \<or> x = OtherError ''KeyError: sub'' \<or>
       (\<exists>d. x = HTTPException 401 d \<or> x = HTTPException 403 d) \<or>
       (\<exists>d. x = HTTPException 404 d \<and> u \<notin> fst ` set (waiting e (v w))))) w"
proof -
  have "vc v (leave_queue_endpoint R T J cfg authorization queue_token u e)
    (\<lambda>answer s'. answer = Reply 200 ''success'' None \<and> u \<in> fst ` set (waiting e (v w)) \<and>
      waiting e s' = zremove u (waiting e (v w)) \<and> (\<forall>e'. e' \<noteq> e \<longrightarrow> waiting e' s' = waiting e' (v w)))
    (\<lambda>x s'. (\<forall>e'. waiting e' s' = waiting e' (v w)) \<and>
      (is_external x \<or> x = OtherError ''KeyError: sub'' \<or>
       (\<exists>d. x = HTTPException 401 d \<or> x = HTTPException 403 d) \<or>
       (\<exists>d. x = HTTPException 404 d \<and> u \<notin> fst ` set (waiting e (v w))))) (v w)"
    by (rule vc_leave_queue_endpoint [OF assms]) simp_all
  then show ?thesis by (rule vcD)
qed

theorem leave_queue_outcome_witness:
  "wp (leave_queue_endpoint mem_redis mem_runtime plain_jwt (default_settings ''db'' ''k'') None None ''u2'' ''e'')
    (\<lambda>answer w'. ''u2'' \<notin> fst ` set (waiting ''e'' (mview w'))) (\<lambda>x w'. True) two_waiting"
  by (rule wp_mono [OF leave_queue_outcome [OF plain_jwt_laws mem_lock_services]]) auto

end
