(* ===== verification/Scaling.thy ===== *)
theory Scaling
  imports Prediction_Service "HOL-Library.AList"
begin

text \<open>
  Scaling ahead of an opening: \<open>src/services/scaling_service.py\<close>, which a background task runs once a
  minute to raise the minimum of the autoscaler before an event opens and to restore it after, and
  \<open>src/services/scaler_service.py\<close>, which raises the replicas of a deployment itself. The dictionary
  of the events scaled up for is an association list in insertion order.
\<close>

section \<open>scaling_service.py\<close>

definition PRESCALE_WINDOW_MIN :: int where "PRESCALE_WINDOW_MIN = 15"
definition PRESCALE_LEAD_MIN :: int where "PRESCALE_LEAD_MIN = 5"
definition RESTORE_AFTER_MIN :: int where "RESTORE_AFTER_MIN = 10"
definition DEFAULT_MIN_REPLICAS :: int where "DEFAULT_MIN_REPLICAS = 2"
definition HPA_NAME :: string where "HPA_NAME = ''core-api-hpa''"
definition NAMESPACE :: string where "NAMESPACE = ''ticket-system''"

text \<open>Whether the patch went through; without a client, and on any exception, it did not.\<close>

definition patch_hpa_min_replicas :: "'w cluster \<Rightarrow> int \<Rightarrow> ('w, bool) py" where
  "patch_hpa_min_replicas K n =
     bnd (load_any_config K) (\<lambda>client.
     if \<not> client then ret False
     else try_except (seqn (patch_hpa_min K HPA_NAME NAMESPACE n) (ret True)) (\<lambda>_. ret False))"

definition prescale_event ::
  "'w redis_client \<Rightarrow> 'w db_session \<Rightarrow> 'w torch \<Rightarrow> 'w cluster \<Rightarrow> 'g rng \<Rightarrow> event \<Rightarrow> ('w, unit) py" where
  "prescale_event R D N K G e =
     (let event_id = uuid_str (ev_id e) in
      bnd (get_scaled K) (\<lambda>scaled.
      if event_id \<in> fst ` set scaled then ret ()
      else
        bnd (get_resource_plan R D N G event_id) (\<lambda>plan.
        let recommended = min (recommended_replicas plan) 30 in
        bnd (patch_hpa_min_replicas K recommended) (\<lambda>patched.
        if patched then
          bnd (get_scaled K) (\<lambda>scaled.
          seqn (put_scaled K (AList.update event_id (instant (start_at e)) scaled))
          (seqn (set_gauge K recommended)
          (inc_prescales K)))
        else ret ()))))"

definition restore_event :: "'w cluster \<Rightarrow> string \<Rightarrow> ('w, unit) py" where
  "restore_event K eid =
     seqn (patch_hpa_min_replicas K DEFAULT_MIN_REPLICAS)
     (seqn (set_gauge K DEFAULT_MIN_REPLICAS)
     (bnd (get_scaled K) (\<lambda>scaled.
      if eid \<in> fst ` set scaled then put_scaled K (AList.delete eid scaled)
      else raising (OtherError ''KeyError''))))"

definition run_prescale_check ::
  "'w redis_client \<Rightarrow> 'w db_session \<Rightarrow> 'w runtime \<Rightarrow> 'w torch \<Rightarrow> 'w cluster \<Rightarrow> 'g rng \<Rightarrow> ('w, unit) py" where
  "run_prescale_check R D T N K G =
     bnd (utcnow T) (\<lambda>now.
     let window_start = now + minutes PRESCALE_LEAD_MIN; window_end = now + minutes PRESCALE_WINDOW_MIN in
     bnd (q_events D (\<lambda>e. window_start \<le> instant (start_at e) \<and> instant (start_at e) \<le> window_end)) (\<lambda>upcoming.
     seqn (for_each (prescale_event R D N K G) upcoming)
     (bnd (get_scaled K) (\<lambda>scaled.
      let to_restore = map fst (filter (\<lambda>(eid, open_at). open_at + minutes RESTORE_AFTER_MIN \<le> now) scaled) in
      for_each (restore_event K) to_restore))))"

section \<open>scaler_service.py\<close>

definition LOOKAHEAD_MIN :: int where "LOOKAHEAD_MIN = 60"
definition SAFETY_REPLICAS :: int where "SAFETY_REPLICAS = 3"

record scaler =
  sc_namespace :: string
  sc_deployment :: string
  sc_api_client :: bool

text \<open>\<open>ScalerService()\<close>, with the two environment variables.\<close>

definition new_scaler :: "string option \<Rightarrow> string option \<Rightarrow> scaler" where
  "new_scaler namespace deployment =
     \<lparr>sc_namespace = (case namespace of Some x \<Rightarrow> x | None \<Rightarrow> ''default''),
      sc_deployment = (case deployment of Some x \<Rightarrow> x | None \<Rightarrow> ''core-api''),
      sc_api_client = False\<rparr>"

definition get_api_client :: "'w cluster \<Rightarrow> scaler \<Rightarrow> ('w, bool \<times> scaler) py" where
  "get_api_client K sc =
     (if sc_api_client sc then ret (True, sc)
      else bnd (load_in_cluster K) (\<lambda>inside.
        ret (if inside then (True, sc\<lparr>sc_api_client := True\<rparr>) else (False, sc))))"

definition get_upcoming_event_ids :: "'w db_session \<Rightarrow> 'w runtime \<Rightarrow> ('w, string list) py" where
  "get_upcoming_event_ids D T =
     bnd (utcnow T) (\<lambda>now.
     let lookahead = now + minutes LOOKAHEAD_MIN in
     bnd (q_events D (\<lambda>e. now \<le> instant (start_at e) \<and> instant (start_at e) \<le> lookahead)) (\<lambda>es.
     ret (map (\<lambda>e. uuid_str (ev_id e)) es)))"

definition predict_max_replicas ::
  "'w redis_client \<Rightarrow> 'w db_session \<Rightarrow> 'w torch \<Rightarrow> 'g rng \<Rightarrow> string list \<Rightarrow> ('w, int) py" where
  "predict_max_replicas R D N G event_ids =
     foldM (\<lambda>max_replicas event_id.
       try_except
         (bnd (get_resource_plan R D N G event_id) (\<lambda>plan.
          ret (max max_replicas (recommended_replicas plan))))
         (\<lambda>_. ret max_replicas))
       SAFETY_REPLICAS event_ids"

definition get_current_replicas :: "'w cluster \<Rightarrow> scaler \<Rightarrow> ('w, int option \<times> scaler) py" where
  "get_current_replicas K sc =
     bnd (get_api_client K sc) (\<lambda>(api, sc').
     if \<not> api then ret (None, sc')
     else try_except
       (bnd (read_scale K (sc_deployment sc') (sc_namespace sc')) (\<lambda>current. ret (Some current, sc')))
       (\<lambda>e. case e of ApiException _ \<Rightarrow> ret (None, sc') | _ \<Rightarrow> raising e))"

definition scale_if_needed :: "'w cluster \<Rightarrow> scaler \<Rightarrow> int \<Rightarrow> ('w, scaler) py" where
  "scale_if_needed K sc target_replicas =
     bnd (get_api_client K sc) (\<lambda>(api, sc1).
     if \<not> api then ret sc1
     else
       bnd (get_current_replicas K sc1) (\<lambda>(current, sc2).
       case current of
         None \<Rightarrow> ret sc2
       | Some n \<Rightarrow>
           if n < target_replicas then
             try_except
               (seqn (patch_scale K (sc_deployment sc2) (sc_namespace sc2) target_replicas) (ret sc2))
               (\<lambda>e. case e of ApiException _ \<Rightarrow> ret sc2 | _ \<Rightarrow> raising e)
           else ret sc2))"

section \<open>Rules\<close>

text \<open>The plans in the cache are plans this service made.\<close>

definition plans_ok :: "rdb \<Rightarrow> bool" where
  "plans_ok d \<longleftrightarrow> (\<forall>k n p. rdb_get k d = Some (PlanJson n p) \<longrightarrow> 2 \<le> n \<and> n \<le> 50)"

lemma plans_ok_set:
  "plans_ok d \<Longrightarrow> plan_ok p \<Longrightarrow> plans_ok (rdb_set k (PlanJson (recommended_replicas p) (peak_rps p)) ttl d)"
  by (simp add: plans_ok_def plan_ok_def)

text \<open>What a prediction leaves alone.\<close>

definition predicts :: "vstate \<Rightarrow> vstate \<Rightarrow> bool" where
  "predicts s t \<longleftrightarrow> com t = com s \<and> ses t = ses s \<and> clk t = clk s \<and> hpa_min t = hpa_min s \<and>
     replicas t = replicas s \<and> scaled_events t = scaled_events s \<and> plans_ok (redis t)"

lemma predicts_forecaster: "plans_ok (redis s) \<Longrightarrow> forecaster_only s t \<Longrightarrow> predicts s t"
  by (simp add: predicts_def forecaster_only_view)

context prediction_backend
begin

lemma vc_plan:
  assumes "plans_ok (redis s)"
    and "\<And>p s'. predicts s s' \<Longrightarrow> 2 \<le> recommended_replicas p \<Longrightarrow> recommended_replicas p \<le> 50 \<Longrightarrow> Q p s'"
    and "\<And>e. is_external e \<or> (\<exists>m. e = ValueError m) \<Longrightarrow> E e s"
  shows "vc v (get_resource_plan R D N G i) Q E s"
proof (rule vc_get_resource_plan, goal_cases)
  case (1 n p)
  with assms(1) have "2 \<le> n \<and> n \<le> 50" unfolding plans_ok_def by blast
  with assms(1) show ?case by (auto intro!: assms(2) simp: predicts_def)
next
  case (2 s')
  then show ?case by (auto intro!: assms(2) predicts_forecaster assms(1) simp: mock_plan_def)
next
  case (3 s' plan)
  with assms(1) show ?case
    by (intro assms(2)) (auto simp: predicts_def forecaster_only_view plans_ok_set plan_ok_def)
qed (auto intro: assms(3))

end

context cluster_laws
begin

lemma vc_patch_hpa_min_replicas:
  assumes "Q False s" and "Q True (s\<lparr>hpa_min := (hpa_min s)((NAMESPACE, HPA_NAME) := n)\<rparr>)"
  shows "vc v (patch_hpa_min_replicas K n) Q E s"
  unfolding patch_hpa_min_replicas_def
  by (intro vc_bnd vc_load_config vc_if vc_ret vc_try_except vc_patch_hpa_min assms)

end

text \<open>
  What a check keeps: each event is entered once, with its opening time; the minimum of the autoscaler
  is the one before the check or between 2 and 30; nothing else of the cluster and no table
  changes.
\<close>

definition scaled_ok :: "vstate \<Rightarrow> vstate \<Rightarrow> bool" where
  "scaled_ok s t \<longleftrightarrow> com t = com s \<and> ses t = ses s \<and> replicas t = replicas s \<and> plans_ok (redis t) \<and>
     distinct (map fst (scaled_events t)) \<and>
     (\<forall>(eid, open_at) \<in> set (scaled_events t). (eid, open_at) \<in> set (scaled_events s) \<or>
        (\<exists>e \<in> set (events (ses s)). eid = uuid_str (ev_id e) \<and> open_at = instant (start_at e) \<and>
           clk s + minutes 5 \<le> open_at)) \<and>
     (\<forall>x. x \<noteq> (NAMESPACE, HPA_NAME) \<longrightarrow> hpa_min t x = hpa_min s x) \<and>
     (hpa_min t (NAMESPACE, HPA_NAME) = hpa_min s (NAMESPACE, HPA_NAME) \<or>
      2 \<le> hpa_min t (NAMESPACE, HPA_NAME) \<and> hpa_min t (NAMESPACE, HPA_NAME) \<le> 30)"

lemma update_new: "k \<notin> fst ` set xs \<Longrightarrow> AList.update k x xs = xs @ [(k, x)]"
  by (induction xs) auto

lemma delete_filter: "AList.delete k xs = filter (\<lambda>p. fst p \<noteq> k) xs"
  by (auto simp: AList.delete_eq intro!: filter_cong)

text \<open>The minimum after some patches, each of which may not have gone through.\<close>

definition floor_to :: "int \<Rightarrow> vstate \<Rightarrow> vstate \<Rightarrow> bool" where
  "floor_to n s t \<longleftrightarrow> hpa_min t = hpa_min s \<or> hpa_min t = (hpa_min s)((NAMESPACE, HPA_NAME) := n)"

definition restored :: "string set \<Rightarrow> vstate \<Rightarrow> vstate \<Rightarrow> bool" where
  "restored ids s t \<longleftrightarrow> com t = com s \<and> ses t = ses s \<and> replicas t = replicas s \<and> redis t = redis s \<and>
     clk t = clk s \<and> floor_to 2 s t \<and> scaled_events t = filter (\<lambda>p. fst p \<notin> ids) (scaled_events s)"

context cluster_laws
begin

lemma vc_restore_event:
  assumes "eid \<in> fst ` set (scaled_events s)" and "\<And>t. restored {eid} s t \<Longrightarrow> Q () t"
  shows "vc v (restore_event K eid) Q E s"
  unfolding restore_event_def
  by (intro vc_bnd vc_patch_hpa_min_replicas vc_set_gauge vc_get_scaled vc_if vc_put_scaled vc_raising)
    (use assms in \<open>auto simp: restored_def floor_to_def DEFAULT_MIN_REPLICAS_def delete_filter\<close>)

text \<open>The loop over the due events deletes exactly them; no key is missing.\<close>

lemma vc_restore_events:
  assumes "distinct ids" and "set ids \<subseteq> fst ` set (scaled_events s)"
    and "\<And>t. restored (set ids) s t \<Longrightarrow> Q () t"
  shows "vc v (for_each (restore_event K) ids) Q E s"
  using assms
proof (induction ids arbitrary: s Q)
  case Nil
  then show ?case by (auto simp: for_each_def restored_def floor_to_def intro!: vc_ret)
next
  case (Cons i js)
  have "vc v (restore_event K i) (\<lambda>_ t. vc v (for_each (restore_event K) js) Q E t) E s"
  proof (rule vc_restore_event)
    fix t
    assume t: "restored {i} s t"
    show "vc v (for_each (restore_event K) js) Q E t"
    proof (rule Cons.IH)
      show "distinct js" using Cons.prems(1) by simp
      show "set js \<subseteq> fst ` set (scaled_events t)" using Cons.prems(1,2) t by (force simp: restored_def)
      fix t'
      assume "restored (set js) t t'"
      with t have "restored (set (i # js)) s t'" by (auto simp: restored_def floor_to_def intro!: filter_cong)
      then show "Q () t'" by (rule Cons.prems(3))
    qed
  qed (use Cons.prems in simp)
  then show ?case by (simp add: for_each_def vc_bnd)
qed

end

context scaling_backend
begin

text \<open>One event: nothing when it is known; else a plan, and the event is entered if the patch went through.\<close>

lemma vc_prescale_event:
  assumes ok: "plans_ok (redis s)"
    and skip: "\<And>t. predicts s t \<Longrightarrow> Q () t"
    and patched: "\<And>t n. 2 \<le> n \<Longrightarrow> n \<le> 30 \<Longrightarrow> uuid_str (ev_id e) \<notin> fst ` set (scaled_events s) \<Longrightarrow>
      predicts (s\<lparr>hpa_min := (hpa_min s)((NAMESPACE, HPA_NAME) := n),
        scaled_events := scaled_events s @ [(uuid_str (ev_id e), instant (start_at e))]\<rparr>) t \<Longrightarrow> Q () t"
    and err: "\<And>x. is_external x \<or> (\<exists>m. x = ValueError m) \<Longrightarrow> E x s"
  shows "vc v (prescale_event R D N K G e) Q E s"
  unfolding prescale_event_def Let_def
proof (rule vc_bnd, rule vc_get_scaled, rule vc_if, goal_cases)
  case 1
  show ?case by (rule vc_ret, rule skip) (simp add: predicts_def ok)
next
  case 2
  show ?case
  proof (rule vc_bnd, rule vc_plan [OF ok], goal_cases)
    case (1 p t)
    show ?case
    proof (rule vc_bnd, rule vc_patch_hpa_min_replicas, goal_cases)
      case 1
      show ?case using \<open>predicts s t\<close> by (auto intro: vc_ret skip)
    next
      case 2
      then show ?case
        unfolding if_True
        by (intro vc_bnd vc_get_scaled vc_put_scaled vc_set_gauge vc_inc_prescales
            patched [of "min (recommended_replicas p) 30"])
          (use 1 \<open>uuid_str (ev_id e) \<notin> fst ` set (scaled_events s)\<close> in \<open>auto simp: predicts_def update_new\<close>)
    qed
  qed (rule err)
qed

lemma vc_run_prescale_check:
  assumes ok: "plans_ok (redis s)" "distinct (map fst (scaled_events s))"
    and ret: "\<And>t. scaled_ok s t \<Longrightarrow> (\<forall>(eid, open_at) \<in> set (scaled_events t). clk t < open_at + minutes 10) \<Longrightarrow> Q () t"
    and err: "\<And>x t. scaled_ok s t \<Longrightarrow> is_external x \<or> (\<exists>m. x = ValueError m) \<Longrightarrow> E x t"
  shows "vc v (run_prescale_check R D T N K G) Q E s"
  unfolding run_prescale_check_def
proof (rule vc_bnd, rule vc_utcnow, unfold Let_def, rule vc_bnd, rule vc_q_events, goal_cases)
  case (1 now upcoming)
  define I where "I = (\<lambda>t. scaled_ok s t \<and> clk t = now)"
  have window: "instant (start_at e) - minutes 5 \<ge> clk s" "e \<in> set (events (ses s))" if "e \<in> set upcoming" for e
    using that 1 by (auto simp: PRESCALE_LEAD_MIN_def dest!: rows_like_set)
  show ?case
  proof (rule vc_bnd, rule vc_for_each [where I = I], goal_cases)
    case (1 e t)
    show ?case
    proof (rule vc_prescale_event, goal_cases)
      case (3 t' n)
      then show ?case using 1 window [OF 1(1)]
        by (auto simp: I_def scaled_ok_def predicts_def)
    qed (use 1 in \<open>auto simp: I_def predicts_def scaled_ok_def intro: err\<close>)
  next
    case 2
    show ?case using ok by (auto simp: I_def scaled_ok_def)
  next
    case (3 t)
    show ?case
    proof (rule vc_bnd, rule vc_get_scaled, rule vc_restore_events, goal_cases)
      case 1
      show ?case using 3 by (simp add: I_def scaled_ok_def distinct_map_filter)
    next
      case 2
      show ?case by auto
    next
      case (3 t')
      have kept: "scaled_ok s t" "clk t = now" using \<open>I t\<close> by (simp_all add: I_def)
      let ?due = "\<lambda>(eid, open_at). open_at + minutes RESTORE_AFTER_MIN \<le> now"
      have t': "restored (set (map fst (filter ?due (scaled_events t)))) t t'" by (rule 3)
      show ?case
      proof (rule ret)
        show "scaled_ok s t'"
          using kept(1) t' unfolding scaled_ok_def restored_def floor_to_def
          by (auto simp: distinct_map_filter)
        show "\<forall>(eid, open_at) \<in> set (scaled_events t'). clk t' < open_at + minutes 10"
          using kept(2) t' unfolding restored_def RESTORE_AFTER_MIN_def by force
      qed
    qed
  qed
next
  case (2 now m)
  then show ?case using ok by (intro err) (auto simp: scaled_ok_def)
qed

text \<open>Where every event in reach is known already, a check only restores.\<close>

lemma vc_known_events:
  assumes "\<forall>e \<in> set (events (ses s)). uuid_str (ev_id e) \<in> fst ` set (scaled_events s)"
    and "distinct (map fst (scaled_events s))"
    and "\<And>now t. clk s \<le> now \<Longrightarrow>
      restored (fst ` {(eid, open_at) \<in> set (scaled_events s). open_at + minutes 10 \<le> now}) (s\<lparr>clk := now\<rparr>) t \<Longrightarrow> Q () t"
    and "\<And>m now. E (ExternalError m) (s\<lparr>clk := now\<rparr>)"
  shows "vc v (run_prescale_check R D T N K G) Q E s"
  unfolding run_prescale_check_def
proof (rule vc_bnd, rule vc_utcnow, unfold Let_def, rule vc_bnd, rule vc_q_events, goal_cases)
  case (1 now upcoming)
  have "set upcoming \<subseteq> set (events (ses s))" using 1(2) by (auto dest!: rows_like_set)
  then have known: "uuid_str (ev_id e) \<in> fst ` set (scaled_events s)" if "e \<in> set upcoming" for e
    using that assms(1) by blast
  let ?due = "filter (\<lambda>(eid, open_at). open_at + minutes RESTORE_AFTER_MIN \<le> now) (scaled_events s)"
  have due: "set (map fst ?due) = fst ` {(eid, open_at) \<in> set (scaled_events s). open_at + minutes 10 \<le> now}"
    by (auto simp: RESTORE_AFTER_MIN_def)
  show ?case
  proof (rule vc_bnd, rule vc_for_each [where I = "\<lambda>t. t = s\<lparr>clk := now\<rparr>"], goal_cases)
    case (1 e t)
    then show ?case
      unfolding prescale_event_def Let_def
      by (intro vc_bnd vc_get_scaled vc_if vc_ret) (use known in auto)
  next
    case (3 t)
    show ?case
    proof (rule vc_bnd, rule vc_get_scaled, rule vc_restore_events, goal_cases)
      case 1
      show ?case using 3 assms(2) by (simp add: distinct_map_filter)
    next
      case (3 t')
      then have "restored (set (map fst ?due)) (s\<lparr>clk := now\<rparr>) t'" unfolding \<open>t = s\<lparr>clk := now\<rparr>\<close> by simp
      then show ?case unfolding due using \<open>clk s \<le> now\<close> by (intro assms(3))
    qed auto
  qed simp
qed (rule assms(4))

lemma vc_predict_max_replicas:
  assumes "plans_ok (redis s)"
    and "\<And>n t. predicts s t \<Longrightarrow> 3 \<le> n \<Longrightarrow> n \<le> 50 \<Longrightarrow> Q n t"
  shows "vc v (predict_max_replicas R D N G ids) Q E s"
  unfolding predict_max_replicas_def
proof (rule vc_foldM [where I = "\<lambda>n t. predicts s t \<and> 3 \<le> n \<and> n \<le> 50"], goal_cases)
  case (1 n i t)
  then have t: "predicts s t" "plans_ok (redis t)" "3 \<le> n" "n \<le> 50" by (simp_all add: predicts_def)
  show ?case
    by (rule vc_try_except, rule vc_bnd, rule vc_plan [OF t(2)])
      (use t in \<open>auto intro!: vc_ret simp: predicts_def\<close>)
qed (use assms in \<open>auto simp: predicts_def SAFETY_REPLICAS_def\<close>)

lemma vc_get_api_client:
  assumes "\<And>b. Q (b, sc\<lparr>sc_api_client := b\<rparr>) s"
  shows "vc v (get_api_client K sc) Q E s"
  unfolding get_api_client_def
  by (intro vc_if vc_bnd vc_ret vc_load_config) (use assms [of True] assms [of False] in \<open>cases sc; auto\<close>)+

lemma vc_scale_if_needed:
  assumes "\<And>sc'. Q sc' s"
    and "\<And>sc'. replicas s (sc_namespace sc, sc_deployment sc) < n \<Longrightarrow>
      Q sc' (s\<lparr>replicas := (replicas s)((sc_namespace sc, sc_deployment sc) := n)\<rparr>)"
    and "\<And>m. E (ExternalError m) s"
  shows "vc v (scale_if_needed K sc n) Q E s"
  unfolding scale_if_needed_def get_current_replicas_def bnd_assoc
  by (intro vc_bnd vc_get_api_client; (unfold prod.case bnd_assoc)?;
      (intro vc_if vc_ret vc_bnd vc_get_api_client)?; (unfold prod.case)?;
      (intro vc_bnd vc_if vc_ret vc_try_except vc_read_scale vc_case_option vc_patch_scale)?;
      (unfold prod.case exn.case option.case)?;
      (intro vc_bnd vc_if vc_ret vc_try_except vc_raising vc_case_option vc_patch_scale)?)
    (auto intro!: assms vc_ret vc_raising)

end

section \<open>Properties\<close>




definition two_openings :: mem where
  "two_openings = (start_mem event_tables)\<lparr>mview := (start_view event_tables)\<lparr>clk := minutes 61,
     hpa_min := (\<lambda>_. 30), scaled_events := [(uuid_str 7, minutes 50), (uuid_str 9, minutes 60)]\<rparr>\<rparr>"




end
