(* ===== verification/Background.thy ===== *)
theory Background
  imports Scaling Reservation_Closing
begin

text \<open>
  The two background tasks of \<open>src/main.py\<close>: the release of expired holds every thirty seconds and the
  scaling check every minute. Each opens a session of its own; \<open>check_db\<close> and \<open>db\<close> of the clean-up are
  used one after the other, so one session stands for both. A loop is given the number of rounds to
  watch: a task that an exception ends does not come back.
\<close>

section \<open>main.py\<close>

definition CLEANUP_INTERVAL_SECONDS :: int where "CLEANUP_INTERVAL_SECONDS = 30"
definition PRESCALE_INTERVAL_SECONDS :: int where "PRESCALE_INTERVAL_SECONDS = 60"

definition run_cleanup ::
  "'w db_session \<Rightarrow> 'w redis_client \<Rightarrow> 'w runtime \<Rightarrow> ('w, unit) py" where
  "run_cleanup D R T =
     bnd (try_finally (expired_hold_exists D) (seqn (rollback D) (close_session D))) (\<lambda>has_expired.
     if \<not> has_expired then ret ()
     else try_finally
       (try_except (bnd (release_expired_holds D R T) (\<lambda>_. ret ())) (\<lambda>_. ret ()))
       (seqn (rollback D) (close_session D)))"

fun cleanup_loop ::
  "'w db_session \<Rightarrow> 'w redis_client \<Rightarrow> 'w runtime \<Rightarrow> nat \<Rightarrow> ('w, unit) py" where
  "cleanup_loop D R T 0 = ret ()"
| "cleanup_loop D R T (Suc rounds) =
     seqn (sleep_ms T (CLEANUP_INTERVAL_SECONDS * 1000))
     (seqn (run_cleanup D R T)
     (cleanup_loop D R T rounds))"

definition run_prescale ::
  "'w redis_client \<Rightarrow> 'w db_session \<Rightarrow> 'w runtime \<Rightarrow> 'w torch \<Rightarrow> 'w cluster \<Rightarrow> 'g rng \<Rightarrow> ('w, unit) py" where
  "run_prescale R D T N K G =
     try_finally
       (try_except (run_prescale_check R D T N K G) (\<lambda>_. ret ()))
       (close_session D)"

fun prescale_rounds ::
  "'w redis_client \<Rightarrow> 'w db_session \<Rightarrow> 'w runtime \<Rightarrow> 'w torch \<Rightarrow> 'w cluster \<Rightarrow> 'g rng \<Rightarrow> nat \<Rightarrow> ('w, unit) py" where
  "prescale_rounds R D T N K G 0 = ret ()"
| "prescale_rounds R D T N K G (Suc rounds) =
     seqn (run_prescale R D T N K G)
     (seqn (sleep_ms T (PRESCALE_INTERVAL_SECONDS * 1000))
     (prescale_rounds R D T N K G rounds))"

definition prescale_loop ::
  "'w redis_client \<Rightarrow> 'w db_session \<Rightarrow> 'w runtime \<Rightarrow> 'w torch \<Rightarrow> 'w cluster \<Rightarrow> 'g rng \<Rightarrow> nat \<Rightarrow> ('w, unit) py" where
  "prescale_loop R D T N K G rounds = seqn (sleep_ms T (10 * 1000)) (prescale_rounds R D T N K G rounds)"

section \<open>Rules\<close>

lemma fresh_discard [simp]: "fresh_session (discard s)"
  by (simp add: fresh_session_def discard_def)

context backend
begin

lemma vc_run_cleanup:
  assumes "fresh_session s" and "booking_ok (com s)"
    and "\<And>n s'. cleaned s n s' \<Longrightarrow> fresh_session s' \<Longrightarrow> Q () s'"
    and "\<And>n m s'. cleaned s n s' \<Longrightarrow> fresh_session s' \<Longrightarrow> E (ExternalError m) s'"
  shows "vc v (run_cleanup D R T) Q E s"
proof -
  have close: "vc v (seqn (rollback D) (close_session D)) (\<lambda>_. P) F t"
    if "P (discard t)" and "\<And>m. F (ExternalError m) (discard t)" for P F t
    by (intro vc_bnd vc_rollback vc_close_session) (use that in \<open>auto simp: discard_def\<close>)
  have same: "cleaned s 0 (discard s)" by (simp add: cleaned_same discard_def)
  have idle: "discard s = s" using assms(1) by (cases s) (simp add: discard_def fresh_session_def)
  have kept: "cleaned s n (discard t)" if "cleaned s n t" for n t
    using that by (simp add: cleaned_def discard_def)
  have work: "vc v (try_finally (try_except (bnd (release_expired_holds D R T) (\<lambda>_. ret ())) (\<lambda>_. ret ()))
      (seqn (rollback D) (close_session D))) Q E s"
  proof (rule vc_try_finally, rule vc_try_except, rule vc_bnd,
      rule vc_conseq [OF vc_release_expired_holds [OF assms(1,2)]], goal_cases)
    case (1 n t)
    then show ?case by (intro vc_ret close) (auto intro: kept assms(3,4))
  next
    case (2 x t)
    then show ?case by (intro vc_ret close) (auto intro: kept assms(3,4))
  qed
  show ?thesis
    unfolding run_cleanup_def
    by (rule vc_bnd, rule vc_try_finally, rule vc_expired_hold_exists; rule close; (rule vc_if vc_ret)?;
        (unfold idle)?; (intro vc_ret work)?)
      (use same assms(1) in \<open>auto simp: idle intro: assms(3,4)\<close>)
qed

lemma vc_cleanup_loop:
  assumes "fresh_session s" and "booking_ok (com s)"
    and "\<And>n s'. cleaned s n s' \<Longrightarrow> clk s + int rounds * 30000000 \<le> clk s' \<Longrightarrow> Q () s'"
    and "\<And>n m s'. cleaned s n s' \<Longrightarrow> E (ExternalError m) s'"
  shows "vc v (cleanup_loop D R T rounds) Q E s"
  using assms
proof (induction rounds arbitrary: s Q E)
  case 0
  then show ?case by (auto intro!: vc_ret cleaned_same)
next
  case (Suc rounds)
  show ?case
    unfolding cleanup_loop.simps
  proof (rule vc_bnd, rule vc_sleep, rule vc_bnd, rule vc_run_cleanup, goal_cases)
    case (3 t n s')
    then have t: "cleaned s 0 (s\<lparr>clk := t\<rparr>)" "clk s + 30000000 \<le> t"
      by (simp_all add: cleaned_same CLEANUP_INTERVAL_SECONDS_def)
    have now: "cleaned s n s'" using cleaned_trans [OF t(1) 3(2)] by simp
    show ?case
    proof (rule Suc.IH, goal_cases)
      case 2
      show ?case using now Suc.prems(2) cancels_booking_ok by (auto simp: cleaned_def)
    next
      case (3 k s'')
      then show ?case using cleaned_trans [OF now 3(1)] t \<open>cleaned (s\<lparr>clk := t\<rparr>) n s'\<close>
        by (intro Suc.prems(3)) (auto simp: cleaned_def algebra_simps)
    next
      case (4 k m s'')
      show ?case using cleaned_trans [OF now 4] by (rule Suc.prems(4))
    qed (rule 3(3))
  next
    case (4 t n m s')
    then have "cleaned s 0 (s\<lparr>clk := t\<rparr>)" by (simp add: cleaned_same CLEANUP_INTERVAL_SECONDS_def)
    from cleaned_trans [OF this 4(2)] show ?case by (rule Suc.prems(4))
  qed (use Suc.prems in \<open>simp_all add: fresh_session_def\<close>)
qed

end

context scaling_backend
begin

text \<open>The scaling task survives every failure of its check.\<close>

lemma vc_run_prescale:
  assumes "plans_ok (redis s)" and "distinct (map fst (scaled_events s))"
    and "\<And>t. scaled_ok s t \<Longrightarrow> Q () (discard t)" and "\<And>m t. scaled_ok s t \<Longrightarrow> E (ExternalError m) (discard t)"
  shows "vc v (run_prescale R D T N K G) Q E s"
  unfolding run_prescale_def
  by (intro vc_try_finally vc_try_except vc_run_prescale_check [OF assms(1,2)] vc_ret vc_close_session)
    (auto intro: assms(3,4))

end

section \<open>Properties\<close>

text \<open>C36: however often the clean-up task wakes, thirty seconds apart, all it does to the tables is to
  cancel held reservations that have expired by then and to free their seats; the booking invariant
  holds after every round, and only a failure of the database ends the task.\<close>

theorem cleanup_loop_outcome:
  assumes "backend R D T v" and "fresh_session (v w)" and "booking_ok (com (v w))"
  shows "wp (cleanup_loop D R T rounds)
    (\<lambda>_ w'. clk (v w) + int rounds * 30000000 \<le> clk (v w') \<and> booking_ok (com (v w')) \<and>
      (\<exists>n. cancels (expired_by (clk (v w'))) (com (v w)) n (com (v w'))))
    (\<lambda>x w'. is_external x \<and> booking_ok (com (v w')) \<and>
      (\<exists>n. cancels (expired_by (clk (v w'))) (com (v w)) n (com (v w')))) w"
proof -
  have ok: "booking_ok (com s') \<and> (\<exists>n. cancels (expired_by (clk s')) (com (v w)) n (com s'))"
    if "cleaned (v w) n s'" for n s'
    using that assms(3) cancels_booking_ok by (auto simp: cleaned_def)
  have "vc v (cleanup_loop D R T rounds)
    (\<lambda>_ s'. clk (v w) + int rounds * 30000000 \<le> clk s' \<and> booking_ok (com s') \<and>
      (\<exists>n. cancels (expired_by (clk s')) (com (v w)) n (com s')))
    (\<lambda>x s'. is_external x \<and> booking_ok (com s') \<and>
      (\<exists>n. cancels (expired_by (clk s')) (com (v w)) n (com s'))) (v w)"
    by (rule backend.vc_cleanup_loop [OF assms]) (use ok in auto)
  then show ?thesis by (rule vcD)
qed

theorem cleanup_loop_outcome_witness:
  "booking_ok held_tables \<and>
   wp (cleanup_loop mem_db mem_redis mem_runtime 20) (\<lambda>_ w'. 600000000 \<le> clk (mview w'))
     (\<lambda>x w'. is_external x) (start_mem held_tables)"
proof -
  have ok: "booking_ok (com (mview (start_mem held_tables)))" by (simp add: sample_booking_ok)
  have "wp (cleanup_loop mem_db mem_redis mem_runtime 20) (\<lambda>_ w'. 600000000 \<le> clk (mview w'))
     (\<lambda>x w'. is_external x) (start_mem held_tables)"
    by (rule wp_mono [OF cleanup_loop_outcome [OF mem_backend _ ok]])
      (auto simp: start_mem_def start_view_def fresh_session_def)
  then show ?thesis by (simp add: sample_booking_ok)
qed

text \<open>One failure of the first query ends the task, whatever number of rounds was to come.\<close>

lemma cleanup_loop_ends_with_first_failure:
  "fst (cleanup_loop mem_db mem_redis mem_runtime (Suc rounds) ((start_mem held_tables)\<lparr>faults := [True]\<rparr>)) =
    Inl (ExternalError ''connection lost'')"
  by (simp add: run_cleanup_def bnd_def try_finally_def mem_db_def mem_runtime_def always_def attempt_def start_mem_def)

end
