(* ===== verification/Frames.thy ===== *)
theory Frames
  imports Ledger Api Queue_Api Background
begin

text \<open>
  What a method leaves alone, whatever it returns or raises: \<open>keeps f m\<close> says that \<open>m\<close> never changes
  \<open>f\<close> of the world. The rules go through the constructs of the monad; from the laws of the interfaces
  follow the operations that keep the committed tables, and those that do not use the session at all.
  With them the methods that only read are seen to only read.
\<close>

section \<open>Rules\<close>

definition keeps :: "('w \<Rightarrow> 'b) \<Rightarrow> ('w, 'a) py \<Rightarrow> bool" where
  "keeps f m \<longleftrightarrow> (\<forall>w. f (snd (m w)) = f w)"

named_theorems keeps_intro \<open>rules that show what a method keeps\<close>

lemma keepsD: "keeps f m \<Longrightarrow> f (snd (m w)) = f w"
  by (simp add: keeps_def)

lemma keeps_ret [keeps_intro]: "keeps f (ret a)"
  by (simp add: keeps_def ret_def)

lemma keeps_raising [keeps_intro]: "keeps f (raising e)"
  by (simp add: keeps_def raising_def)

lemma keeps_bnd [keeps_intro]: "keeps f m \<Longrightarrow> (\<And>a. keeps f (g a)) \<Longrightarrow> keeps f (bnd m g)"
  unfolding keeps_def bnd_def by (auto split: prod.split sum.split) (metis snd_conv)+

lemma keeps_try_except [keeps_intro]: "keeps f m \<Longrightarrow> (\<And>e. keeps f (h e)) \<Longrightarrow> keeps f (try_except m h)"
  unfolding keeps_def try_except_def by (auto split: prod.split sum.split) (metis snd_conv)+

lemma keeps_try_finally [keeps_intro]: "keeps f m \<Longrightarrow> keeps f n \<Longrightarrow> keeps f (try_finally m n)"
  unfolding keeps_def try_finally_def by (auto split: prod.split sum.split) (metis snd_conv)+

lemma keeps_if [keeps_intro]: "keeps f m \<Longrightarrow> keeps f n \<Longrightarrow> keeps f (if b then m else n)"
  by simp

lemma keeps_case_option [keeps_intro]:
  "keeps f m \<Longrightarrow> (\<And>a. keeps f (g a)) \<Longrightarrow> keeps f (case x of None \<Rightarrow> m | Some a \<Rightarrow> g a)"
  by (cases x) auto

lemma keeps_case_list [keeps_intro]:
  "keeps f m \<Longrightarrow> (\<And>a as. keeps f (g a as)) \<Longrightarrow> keeps f (case xs of [] \<Rightarrow> m | a # as \<Rightarrow> g a as)"
  by (cases xs) auto

lemma keeps_case_prod [keeps_intro]: "(\<And>a b. keeps f (g a b)) \<Longrightarrow> keeps f (case p of (a, b) \<Rightarrow> g a b)"
  by (cases p) auto

lemma keeps_Let [keeps_intro]: "keeps f (g x) \<Longrightarrow> keeps f (Let x g)"
  by simp

lemma keeps_lift_res [keeps_intro]: "keeps f (lift_res r)"
  by (cases r) (simp_all add: keeps_ret keeps_raising)

lemma keeps_raise_if [keeps_intro]: "keeps f (raise_if b e)"
  by (simp add: raise_if_def keeps_ret keeps_raising)

lemma keeps_foldM [keeps_intro]: "(\<And>acc x. keeps f (g acc x)) \<Longrightarrow> keeps f (foldM g acc xs)"
  by (induction xs arbitrary: acc) (auto intro: keeps_intro)

lemma keeps_for_each [keeps_intro]: "(\<And>x. keeps f (g x)) \<Longrightarrow> keeps f (for_each g xs)"
  unfolding for_each_def by (rule keeps_foldM)

lemma keeps_validated [keeps_intro]: "keeps f (validated r)"
  by (cases r) (simp_all add: validated_def keeps_ret keeps_raising)

lemma keeps_refines:
  "refines v m S \<Longrightarrow> (\<And>s r s'. (r, s') \<in> S s \<Longrightarrow> g s' = g s) \<Longrightarrow> keeps (\<lambda>w. g (v w)) m"
  unfolding refines_def keeps_def by blast

text \<open>The committed tables; and all that belongs to the session.\<close>

abbreviation keeps_tables :: "('w \<Rightarrow> vstate) \<Rightarrow> ('w, 'a) py \<Rightarrow> bool" where
  "keeps_tables v \<equiv> keeps (\<lambda>w. com (v w))"

abbreviation keeps_session :: "('w \<Rightarrow> vstate) \<Rightarrow> ('w, 'a) py \<Rightarrow> bool" where
  "keeps_session v \<equiv> keeps (\<lambda>w. (com (v w), ses (v w), imap (v w)))"

lemma keeps_session_tables: "keeps_session v m \<Longrightarrow> keeps_tables v m"
  by (simp add: keeps_def)

section \<open>The operations of the interfaces\<close>

context redis_laws
begin

lemma redis_keeps_session:
  "keeps_session v (r_get R k)" "keeps_session v (r_set_nx R k x ttl)" "keeps_session v (r_set_ex R k x ttl)"
  "keeps_session v (r_exists R k)" "keeps_session v (r_incr R k)" "keeps_session v (r_expire R k ttl)"
  "keeps_session v (r_zrank R k m)" "keeps_session v (r_zcard R k)" "keeps_session v (r_zrem R k m)"
  "keeps_session v (r_pipeline R cs)" "keeps_session v (r_eval R script)"
  by (rule keeps_refines [OF get] keeps_refines [OF set_nx] keeps_refines [OF set_ex] keeps_refines [OF exists]
      keeps_refines [OF incr] keeps_refines [OF expire] keeps_refines [OF zrank] keeps_refines [OF zcard]
      keeps_refines [OF zrem] keeps_refines [OF pipeline] keeps_refines [OF eval],
      auto simp: law_simps incr_outcomes_def split: if_splits option.splits rvalue.splits)+

lemmas redis_keeps_tables = redis_keeps_session [THEN keeps_session_tables]

end

context runtime_laws
begin

lemma runtime_keeps_session:
  "keeps_session v (utcnow T)" "keeps_session v (sleep_ms T ms)" "keeps_session v (uuid4 T)"
  "keeps_session v (random_unit T)" "keeps_session v (inc_duplicates T)"
  by (rule keeps_refines [OF utcnow] keeps_refines [OF sleep] keeps_refines [OF uuid4]
      keeps_refines [OF random_unit] keeps_refines [OF inc_duplicates], auto simp: law_simps)+

lemmas runtime_keeps_tables = runtime_keeps_session [THEN keeps_session_tables]

end

context cluster_laws
begin

lemma cluster_keeps_session:
  "keeps_session v (load_any_config K)" "keeps_session v (load_in_cluster K)"
  "keeps_session v (patch_hpa_min K name ns n)" "keeps_session v (read_scale K name ns)"
  "keeps_session v (patch_scale K name ns n)" "keeps_session v (get_scaled K)" "keeps_session v (put_scaled K es)"
  "keeps_session v (set_gauge K g)" "keeps_session v (inc_prescales K)"
  by (rule keeps_refines [OF load_any_config] keeps_refines [OF load_in_cluster] keeps_refines [OF patch_hpa_min]
      keeps_refines [OF read_scale] keeps_refines [OF patch_scale] keeps_refines [OF get_scaled]
      keeps_refines [OF put_scaled] keeps_refines [OF set_gauge] keeps_refines [OF inc_prescales],
      auto simp: law_simps)+

lemmas cluster_keeps_tables = cluster_keeps_session [THEN keeps_session_tables]

end

context torch_laws
begin

lemma torch_keeps_session:
  "keeps_session v (make_model_dir N)" "keeps_session v (model_exists N)" "keeps_session v (new_model N)"
  "keeps_session v (train_step N X y)" "keeps_session v (eval_loss N X y)" "keeps_session v (save_model N)"
  "keeps_session v (load_model N)" "keeps_session v (forward N feats)" "keeps_session v (get_loaded N)"
  "keeps_session v (set_loaded N)"
  by (rule keeps_refines [OF make_model_dir] keeps_refines [OF model_exists] keeps_refines [OF new_model]
      keeps_refines [OF train_step] keeps_refines [OF eval_loss] keeps_refines [OF save_model]
      keeps_refines [OF load_model] keeps_refines [OF forward] keeps_refines [OF get_loaded]
      keeps_refines [OF set_loaded], auto simp: law_simps split: if_splits)+

lemmas torch_keeps_tables = torch_keeps_session [THEN keeps_session_tables]

text \<open>Loading the forecaster, training it where it must be.\<close>

lemma get_forecaster_keeps: "keeps_session v (get_forecaster N G)"
  unfolding get_forecaster_def load_forecaster_def train_and_save_def train_on_def train_epoch_def
  by (intro keeps_intro torch_keeps_session)

lemma predict_keeps: "keeps_session v (predict N d h g sc n)"
  unfolding predict_def draw_samples_def by (intro keeps_intro torch_keeps_session)

end

context db_laws
begin

text \<open>The operations of the session other than \<open>commit\<close>.\<close>

lemma db_keeps_tables:
  "keeps_tables v (q_seats D P)" "keeps_tables v (q_seats_for_update D P)" "keeps_tables v (q_seats_ordered D P)"
  "keeps_tables v (reload_seats D xs)" "keeps_tables v (q_reservations D PR)" "keeps_tables v (q_payments D PP)"
  "keeps_tables v (q_events D PE)" "keeps_tables v (q_events_by_text D ident)" "keeps_tables v (count_events D)"
  "keeps_tables v (q_events_page D off n)" "keeps_tables v (rollback D)" "keeps_tables v (close_session D)"
  "keeps_tables v (expired_hold_exists D)"
  by (rule keeps_refines [OF q_seats] keeps_refines [OF q_seats_for_update] keeps_refines [OF q_seats_ordered]
      keeps_refines [OF reload_seats] keeps_refines [OF q_reservations] keeps_refines [OF q_payments]
      keeps_refines [OF q_events] keeps_refines [OF q_events_by_text] keeps_refines [OF count_events]
      keeps_refines [OF q_events_page] keeps_refines [OF rollback] keeps_refines [OF close_session]
      keeps_refines [OF expired_hold_exists],
      auto simp: law_simps remember_def discard_def)+

end

section \<open>The methods that only read the tables\<close>

lemma keeps_try_http [keeps_intro]: "keeps f m \<Longrightarrow> keeps f (http_exceptions m)"
  unfolding http_exceptions_def by (rule keeps_try_except) (auto split: exn.split intro: keeps_intro)

lemma keeps_error_handler [keeps_intro]: "keeps f m \<Longrightarrow> keeps f (error_handler m)"
  unfolding error_handler_def by (intro keeps_intro)

context runtime_laws
begin

lemma guards_keep:
  "keeps_session v (decode_token J cfg T token)" "keeps_session v (get_current_user J cfg T a)"
  "keeps_session v (get_user_from_queue_token J cfg T b q)" "keeps_session v (current_user J cfg T rq)"
proof -
  show decode: "keeps_session v (decode_token J cfg T token)" for token
    unfolding decode_token_def
    by (rule keeps_bnd) (auto split: sum.split exn.split intro: keeps_intro runtime_keeps_session)
  have checked: "keeps_session v (checked_claims J cfg T token wanted detail)" for token wanted detail
    unfolding checked_claims_def by (intro keeps_intro decode)
  show user: "keeps_session v (get_current_user J cfg T a)" for a
    unfolding get_current_user_def bearer_token_def by (intro keeps_intro checked)
  show "keeps_session v (get_user_from_queue_token J cfg T b q)"
    unfolding get_user_from_queue_token_def bearer_token_def by (intro keeps_intro checked)
  show "keeps_session v (current_user J cfg T rq)"
    unfolding current_user_def by (intro keeps_intro user)
qed

lemma queue_guard_keeps: "keeps_session v (queue_guard J cfg T a q u)"
  unfolding queue_guard_def same_user_def by (intro keeps_intro guards_keep)

lemma tokens_keep:
  "keeps_session v (issue_queue_token J cfg T u e p)" "keeps_session v (issue_access_token J cfg T u e)"
  unfolding issue_queue_token_def issue_access_token_def create_queue_token_def create_access_token_def by (intro keeps_intro runtime_keeps_session)+

end

context lock_services
begin

lemmas services_keep = redis_keeps_session runtime_keeps_session guards_keep queue_guard_keeps tokens_keep

lemma queue_keeps:
  "keeps_session v (join_queue_endpoint R T J cfg u e)"
  "keeps_session v (get_queue_status R T J cfg a q u e)"
  "keeps_session v (leave_queue_endpoint R T J cfg a q u e)"
  "keeps_session v (stream_turn R T J cfg u e)"
  unfolding join_queue_endpoint_def join_queue_def get_queue_status_def leave_queue_endpoint_def stream_turn_def
    get_position_def get_queue_size_def service_position_def get_total_def add_to_queue_def leave_queue_def remove_from_queue_def consume_token_def
    consume_from_queue_atomic_def
  by (intro keeps_intro services_keep)+

lemma event_stream_keeps:
  assumes "keeps_session v pause"
  shows "keeps_session v (event_stream R T J cfg pause u e polls sent)"
  by (induction polls arbitrary: sent) (auto intro!: keeps_intro queue_keeps assms)

lemma rate_limiter_keeps:
  "keeps_session v m \<Longrightarrow> keeps_session v (rate_limiter R J cfg T rq m)"
  unfolding rate_limiter_def rate_check_def extract_user_id_def by (intro keeps_intro services_keep)

end

context backend
begin

lemmas backend_keeps = redis_keeps_tables runtime_keeps_tables db_keeps_tables guards_keep [THEN keeps_session_tables]

lemma through_cache_keeps: "keeps_tables v load \<Longrightarrow> keeps_tables v (through_cache R k load)"
  unfolding through_cache_def by (intro keeps_intro backend_keeps)

lemma catalogue_reads:
  "keeps_tables v (get_events D page limit)" "keeps_tables v (get_event_by_id D i)"
  "keeps_tables v (get_seats_by_event D i)"
  unfolding get_events_def event_get_all_def get_event_by_id_def event_get_by_id_def get_seats_by_event_def
    seat_get_by_event_id_def
  by (intro keeps_intro backend_keeps)+

lemma booking_reads:
  "keeps_tables v (get_reservation D rid u)" "keeps_tables v (get_payment D pid u)"
  unfolding get_reservation_def reservation_get_by_id_def named_seats_def get_payment_def payment_get_by_id_def
  by (intro keeps_intro backend_keeps)+

end

context prediction_backend
begin

lemma prediction_reads:
  "keeps_tables v (get_resource_plan R D N G i)" "keeps_tables v (get_forecast R D N G i)"
  unfolding get_resource_plan_def get_forecast_def
  by (intro keeps_intro backend_keeps get_forecaster_keeps [THEN keeps_session_tables]
      predict_keeps [THEN keeps_session_tables])+

end

context scaling_backend
begin

lemma prescale_reads: "keeps_tables v (run_prescale_check R D T N K G)"
  unfolding run_prescale_check_def prescale_event_def restore_event_def patch_hpa_min_replicas_def
  by (intro keeps_intro backend_keeps cluster_keeps_tables prediction_reads)

end

end
