(* ===== verification/Application.thy ===== *)
theory Application
  imports Frames
begin

text \<open>
  The application of \<open>src/main.py\<close>: the routes of the seven routers of \<open>src/api/v1\<close>, the dispatch of a
  request to its endpoint through the stack of middlewares, \<open>src/api/v1/health.py\<close>, and the life of the
  process. Starlette's matching of a path against the routes is as documented: the first route whose path
  and method match; 405 where only paths match; a redirect where the path with its last slash added or taken
  away matches; else 404. The routes FastAPI and the Prometheus instrumentator add are left out.
\<close>

section \<open>Routes\<close>

datatype segment = Lit string | Param

datatype endpoint =
    Health_check
  | List_events | Get_event | Get_event_seats
  | Join_queue | Get_queue_status | Queue_sse | Leave_queue
  | Get_seats | Get_available_seats
  | Hold_seats | Get_reservation | Cancel_reservation | Release_user_holds_internal
  | Process_payment | Get_payment
  | Get_forecast | Get_resource_plan

type_synonym route = "string \<times> segment list \<times> endpoint"

definition api_v1 :: "string \<Rightarrow> segment list" where
  "api_v1 name = [Lit ''api'', Lit ''v1'', Lit name]"

definition health_routes :: "route list" where
  "health_routes = [(''GET'', [Lit ''health''], Health_check)]"

definition events_routes :: "route list" where
  "events_routes =
     [(''GET'', api_v1 ''events'', List_events),
      (''GET'', api_v1 ''events'' @ [Param], Get_event),
      (''GET'', api_v1 ''events'' @ [Param, Lit ''seats''], Get_event_seats)]"

definition queue_routes :: "route list" where
  "queue_routes =
     [(''POST'', [Lit ''api'', Lit ''queue'', Lit ''join''], Join_queue),
      (''GET'', [Lit ''api'', Lit ''queue'', Lit ''status''], Get_queue_status),
      (''GET'', [Lit ''api'', Lit ''queue'', Lit ''sse''], Queue_sse),
      (''DELETE'', [Lit ''api'', Lit ''queue'', Lit ''leave''], Leave_queue)]"

definition seats_routes :: "route list" where
  "seats_routes =
     [(''GET'', api_v1 ''seats'' @ [Param], Get_seats),
      (''GET'', api_v1 ''seats'' @ [Param, Lit ''available''], Get_available_seats)]"

definition reservations_routes :: "route list" where
  "reservations_routes =
     [(''POST'', api_v1 ''reservations'', Hold_seats),
      (''GET'', api_v1 ''reservations'' @ [Param], Get_reservation),
      (''DELETE'', api_v1 ''reservations'' @ [Param], Cancel_reservation),
      (''POST'', api_v1 ''reservations'' @ [Lit ''internal'', Lit ''release-user''], Release_user_holds_internal)]"

definition payments_routes :: "route list" where
  "payments_routes =
     [(''POST'', api_v1 ''payments'', Process_payment),
      (''GET'', api_v1 ''payments'' @ [Param], Get_payment)]"

definition prediction_routes :: "route list" where
  "prediction_routes =
     [(''POST'', api_v1 ''prediction'' @ [Lit ''forecast''], Get_forecast),
      (''GET'', api_v1 ''prediction'' @ [Lit ''resource-plan''], Get_resource_plan)]"

definition ROUTES :: "route list" where
  "ROUTES = health_routes @ events_routes @ queue_routes @ seats_routes @ reservations_routes @
     payments_routes @ prediction_routes"

section \<open>Matching\<close>

text \<open>The segments of a path, and a path of segments; \<open>{...}\<close> matches one segment that is not empty.\<close>

fun split_at :: "char \<Rightarrow> string \<Rightarrow> string \<Rightarrow> string list" where
  "split_at c acc [] = [rev acc]"
| "split_at c acc (x # xs) = (if x = c then rev acc # split_at c [] xs else split_at c (x # acc) xs)"

definition path_segments :: "string \<Rightarrow> string list" where
  "path_segments path = tl (split_at (CHR ''/'') [] path)"

fun match_path :: "segment list \<Rightarrow> string list \<Rightarrow> string list option" where
  "match_path [] [] = Some []"
| "match_path (Lit l # ts) (s # ss) = (if s = l then match_path ts ss else None)"
| "match_path (Param # ts) (s # ss) =
     (if s = [] then None else case match_path ts ss of None \<Rightarrow> None | Some ps \<Rightarrow> Some (s # ps))"
| "match_path _ _ = None"

definition matching :: "string list \<Rightarrow> (string \<times> endpoint \<times> string list) list" where
  "matching ss =
     List.map_filter (\<lambda>(m, ts, e). map_option (\<lambda>ps. (m, e, ps)) (match_path ts ss)) ROUTES"

datatype resolution = Matched endpoint "string list" | Method_not_allowed | Redirected | Not_found

definition toggle_slash :: "string list \<Rightarrow> string list" where
  "toggle_slash ss = (if ss \<noteq> [] \<and> last ss = [] then butlast ss else ss @ [[]])"

definition resolve :: "string \<Rightarrow> string \<Rightarrow> resolution" where
  "resolve meth path =
     (let found = matching (path_segments path) in
      case List.find (\<lambda>(m, e, ps). m = meth) found of
        Some (m, e, ps) \<Rightarrow> Matched e ps
      | None \<Rightarrow>
          if found \<noteq> [] then Method_not_allowed
          else if matching (toggle_slash (path_segments path)) \<noteq> [] then Redirected
          else Not_found)"

section \<open>health.py\<close>

definition health_check :: "'w runtime \<Rightarrow> ('w, (string \<times> pydt) reply) py" where
  "health_check T = bnd (utcnow T) (\<lambda>now. ret (Reply 200 [] (Some (''ok'', Naive now))))"

section \<open>The stack of middlewares\<close>

text \<open>
  The calls of \<open>add_middleware\<close> in their order; each puts its middleware around those that are there. FastAPI's
  handler of \<open>HTTPException\<close> is inside them all. Those of libraries are a parameter.
\<close>

record cors_options =
  allow_origins :: "string list"
  allow_credentials :: bool
  allow_methods :: "string list"
  allow_headers :: "string list"

definition cors_of :: "settings \<Rightarrow> cors_options" where
  "cors_of cfg =
     \<lparr>allow_origins = cors_origins cfg, allow_credentials = True, allow_methods = [''*''], allow_headers = [''*'']\<rparr>"

datatype middleware =
  Instrumentator_mw | Cors_mw cors_options | Gzip_mw nat | Rate_limiter_mw | Logger_mw | Error_handler_mw

definition MIDDLEWARES :: "settings \<Rightarrow> middleware list" where
  "MIDDLEWARES cfg =
     [Instrumentator_mw, Cors_mw (cors_of cfg), Gzip_mw 1000, Rate_limiter_mw, Logger_mw, Error_handler_mw]"

fun put_around ::
  "(middleware \<Rightarrow> ('w, 'a reply) py \<Rightarrow> ('w, 'a reply) py) \<Rightarrow> 'w redis_client \<Rightarrow> jwt_lib \<Rightarrow> settings \<Rightarrow> 'w runtime \<Rightarrow>
    request \<Rightarrow> middleware \<Rightarrow> ('w, 'a reply) py \<Rightarrow> ('w, 'a reply) py" where
  "put_around lib R J cfg T rq Error_handler_mw m = error_handler m"
| "put_around lib R J cfg T rq Logger_mw m = logger_middleware T rq m"
| "put_around lib R J cfg T rq Rate_limiter_mw m = rate_limiter R J cfg T rq m"
| "put_around lib R J cfg T rq mw m = lib mw m"

definition middleware_stack ::
  "(middleware \<Rightarrow> ('w, 'a reply) py \<Rightarrow> ('w, 'a reply) py) \<Rightarrow> 'w redis_client \<Rightarrow> jwt_lib \<Rightarrow> settings \<Rightarrow> 'w runtime \<Rightarrow>
    request \<Rightarrow> ('w, 'a reply) py \<Rightarrow> ('w, 'a reply) py" where
  "middleware_stack lib R J cfg T rq handler =
     fold (put_around lib R J cfg T rq) (MIDDLEWARES cfg) (http_exceptions handler)"

text \<open>
  \<open>serve\<close> is this stack without those of libraries, which hand on what the handler answers. A library's
  middleware sees none of the answers that the limiter and the error handler give: CORS, for one, adds no header
  to a 429, 409 or 410.
\<close>

lemma serve_is_the_stack: "middleware_stack (\<lambda>mw m. m) = serve"
  by (simp add: middleware_stack_def serve_def MIDDLEWARES_def fun_eq_iff)

lemma stack_around_libraries:
  "middleware_stack lib R J cfg T rq handler = error_handler (logger_middleware T rq (rate_limiter R J cfg T rq
     (lib (Gzip_mw 1000) (lib (Cors_mw (cors_of cfg)) (lib Instrumentator_mw (http_exceptions handler))))))"
  by (simp add: middleware_stack_def MIDDLEWARES_def)

lemma refusal_passes_libraries:
  assumes "rate_check R J cfg T rq w = (Inr (Some n), w')" and "rq_method rq \<noteq> ''OPTIONS''"
  shows "rate_limiter R J cfg T rq m w = (Inr (RetryAfter 429 n), w')"
  using assms by (simp add: rate_limiter_def bnd_def try_except_def ret_def)

section \<open>Dispatch\<close>

text \<open>
  What FastAPI reads from the query, the headers and the body: a body or a required parameter that is
  missing or of the wrong type is \<open>None\<close> here, and so 422 for the client, once the guard has passed.
  A page or limit that is left out is \<open>None\<close>; 0 stands for one that is no number.
  \<open>in_polls\<close> are the answers to \<open>is_disconnected\<close> of a stream.
\<close>

record inputs =
  in_page :: "int option"
  in_limit :: "int option"
  in_user_id :: "string option"
  in_event_id :: "string option"
  in_queue_token :: "string option"
  in_join :: "(string \<times> string) option"
  in_seat_ids :: "uuid list option"
  in_secret :: "string option"
  in_release_user :: "string option"
  in_payment :: "(uuid \<times> payment_method \<times> rat) option"
  in_polls :: "bool list"

definition unprocessable :: "('w, 'a) py" where
  "unprocessable = raising (HTTPException 422 ''Unprocessable Entity'')"

text \<open>A path parameter of type \<open>uuid.UUID\<close>.\<close>

definition uuid_param :: "string list \<Rightarrow> uuid option" where
  "uuid_param ps = (case ps of [p] \<Rightarrow> (case uuid_parse p of Inr u \<Rightarrow> Some u | Inl _ \<Rightarrow> None) | _ \<Rightarrow> None)"

text \<open>\<open>page\<close> and \<open>limit\<close> with their defaults and their range.\<close>

definition paging :: "inputs \<Rightarrow> (nat \<times> nat) option" where
  "paging inp =
     (let page = (case in_page inp of None \<Rightarrow> 1 | Some p \<Rightarrow> p);
          limit = (case in_limit inp of None \<Rightarrow> 20 | Some l \<Rightarrow> l)
      in if 1 \<le> page \<and> 1 \<le> limit \<and> limit \<le> 100 then Some (nat page, nat limit) else None)"

definition guarded_or_422 ::
  "'w db_session \<Rightarrow> ('w, 'g) py \<Rightarrow> 'x option \<Rightarrow> ('x \<Rightarrow> ('w, 'a) py) \<Rightarrow> ('w, 'a) py" where
  "guarded_or_422 D guard x f =
     (case x of Some y \<Rightarrow> f y | None \<Rightarrow> get_db D (seqn guard unprocessable))"

text \<open>
  The queue's endpoints take the user and the event from the query; a stream has sent its status before
  its first event, so a failure in it only breaks it off.
\<close>

definition queue_params :: "inputs \<Rightarrow> (string \<times> string) option" where
  "queue_params inp =
     (case (in_user_id inp, in_event_id inp) of (Some u, Some e) \<Rightarrow> Some (u, e) | _ \<Rightarrow> None)"

definition queue_or_422 ::
  "jwt_lib \<Rightarrow> settings \<Rightarrow> 'w runtime \<Rightarrow> request \<Rightarrow> inputs \<Rightarrow> (string \<Rightarrow> string \<Rightarrow> ('w, 'a) py) \<Rightarrow> ('w, 'a) py" where
  "queue_or_422 J cfg T rq inp f =
     (case queue_params inp of
        Some (u, e) \<Rightarrow> f u e
      | None \<Rightarrow> seqn (get_user_from_queue_token J cfg T (rq_authorization rq) (in_queue_token inp)) unprocessable)"

definition stream_body ::
  "'w redis_client \<Rightarrow> 'w runtime \<Rightarrow> jwt_lib \<Rightarrow> settings \<Rightarrow> inputs \<Rightarrow> ('w, unit) py" where
  "stream_body R T J cfg inp =
     (case queue_params inp of
        Some (u, e) \<Rightarrow>
          try_except (bnd (event_stream R T J cfg (sleep_ms T 2000) u e (in_polls inp) []) (\<lambda>_. ret ())) (\<lambda>_. ret ())
      | None \<Rightarrow> ret ())"

definition status_of :: "('w, 'a reply) py \<Rightarrow> ('w, nat) py" where
  "status_of m = bnd m (\<lambda>r. ret (status_code r))"

primrec call_endpoint ::
  "'w redis_client \<Rightarrow> 'w db_session \<Rightarrow> 'w runtime \<Rightarrow> 'w torch \<Rightarrow> 'g rng \<Rightarrow> jwt_lib \<Rightarrow> settings \<Rightarrow>
    request \<Rightarrow> inputs \<Rightarrow> string list \<Rightarrow> endpoint \<Rightarrow> ('w, nat) py" where
  "call_endpoint R D T N G J cfg rq inp ps Health_check = status_of (serve R J cfg T rq (health_check T))"
| "call_endpoint R D T N G J cfg rq inp ps List_events =
     status_of (serve R J cfg T rq
       (guarded_or_422 D (ret ()) (paging inp) (\<lambda>(page, limit). list_events D page limit)))"
| "call_endpoint R D T N G J cfg rq inp ps Get_event =
     status_of (serve R J cfg T rq (guarded_or_422 D (ret ()) (uuid_param ps) (get_event D)))"
| "call_endpoint R D T N G J cfg rq inp ps Get_event_seats =
     status_of (serve R J cfg T rq (guarded_or_422 D (ret ()) (uuid_param ps) (get_event_seats D R)))"
| "call_endpoint R D T N G J cfg rq inp ps Join_queue =
     status_of (serve R J cfg T rq
       (case in_join inp of
          Some (u, e) \<Rightarrow> join_request R D T N G J cfg u e
        | None \<Rightarrow> unprocessable))"
| "call_endpoint R D T N G J cfg rq inp ps Get_queue_status =
     status_of (serve R J cfg T rq
       (queue_or_422 J cfg T rq inp (get_queue_status R T J cfg (rq_authorization rq) (in_queue_token inp))))"
| "call_endpoint R D T N G J cfg rq inp ps Queue_sse =
     bnd (status_of (serve R J cfg T rq
       (queue_or_422 J cfg T rq inp (\<lambda>u e.
          seqn (queue_guard J cfg T (rq_authorization rq) (in_queue_token inp) u)
          (ret (Reply 200 [] (None :: unit option))))))) (\<lambda>code.
     seqn (if code = 200 then stream_body R T J cfg inp else ret ()) (ret code))"
| "call_endpoint R D T N G J cfg rq inp ps Leave_queue =
     status_of (serve R J cfg T rq
       (queue_or_422 J cfg T rq inp (leave_queue_endpoint R T J cfg (rq_authorization rq) (in_queue_token inp))))"
| "call_endpoint R D T N G J cfg rq inp ps Get_seats =
     status_of (serve R J cfg T rq
       (guarded_or_422 D (current_user J cfg T rq) (uuid_param ps) (get_seats D R J cfg T rq)))"
| "call_endpoint R D T N G J cfg rq inp ps Get_available_seats =
     status_of (serve R J cfg T rq
       (guarded_or_422 D (current_user J cfg T rq) (uuid_param ps) (list_available_seats D R J cfg T rq)))"
| "call_endpoint R D T N G J cfg rq inp ps Hold_seats =
     status_of (serve R J cfg T rq
       (guarded_or_422 D (current_user J cfg T rq) (in_seat_ids inp) (hold_seats_endpoint D R J cfg T rq)))"
| "call_endpoint R D T N G J cfg rq inp ps Get_reservation =
     status_of (serve R J cfg T rq
       (guarded_or_422 D (current_user J cfg T rq) (uuid_param ps) (get_reservation_endpoint D J cfg T rq)))"
| "call_endpoint R D T N G J cfg rq inp ps Cancel_reservation =
     status_of (serve R J cfg T rq
       (guarded_or_422 D (current_user J cfg T rq) (uuid_param ps) (cancel_reservation_endpoint D R J cfg T rq)))"
| "call_endpoint R D T N G J cfg rq inp ps Release_user_holds_internal =
     status_of (serve R J cfg T rq
       (guarded_or_422 D (ret ()) (in_release_user inp) (release_user_holds_internal D R cfg T (in_secret inp))))"
| "call_endpoint R D T N G J cfg rq inp ps Process_payment =
     status_of (serve R J cfg T rq
       (guarded_or_422 D (current_user J cfg T rq) (in_payment inp) (\<lambda>(rid, method, amount).
          process_payment_endpoint D R J cfg T rq rid method amount)))"
| "call_endpoint R D T N G J cfg rq inp ps Get_payment =
     status_of (serve R J cfg T rq
       (guarded_or_422 D (current_user J cfg T rq) (uuid_param ps) (get_payment_endpoint D J cfg T rq)))"
| "call_endpoint R D T N G J cfg rq inp ps Get_forecast =
     status_of (serve R J cfg T rq (forecast_endpoint D R N G (in_event_id inp)))"
| "call_endpoint R D T N G J cfg rq inp ps Get_resource_plan =
     status_of (serve R J cfg T rq (resource_plan_endpoint D R N G (in_event_id inp)))"

definition answer_only :: "nat \<Rightarrow> string \<Rightarrow> ('w, unit reply) py" where
  "answer_only code detail = ret (DetailReply code detail)"

definition app ::
  "'w redis_client \<Rightarrow> 'w db_session \<Rightarrow> 'w runtime \<Rightarrow> 'w torch \<Rightarrow> 'g rng \<Rightarrow> jwt_lib \<Rightarrow> settings \<Rightarrow>
    request \<Rightarrow> inputs \<Rightarrow> ('w, nat) py" where
  "app R D T N G J cfg rq inp =
     (case resolve (rq_method rq) (rq_path rq) of
        Matched e ps \<Rightarrow> call_endpoint R D T N G J cfg rq inp ps e
      | Method_not_allowed \<Rightarrow> status_of (serve R J cfg T rq (answer_only 405 ''Method Not Allowed''))
      | Redirected \<Rightarrow> status_of (serve R J cfg T rq (answer_only 307 []))
      | Not_found \<Rightarrow> status_of (serve R J cfg T rq (answer_only 404 ''Not Found'')))"

section \<open>Routing\<close>

lemmas all_routes = ROUTES_def health_routes_def events_routes_def queue_routes_def seats_routes_def
  reservations_routes_def payments_routes_def prediction_routes_def api_v1_def

lemma in_matching:
  "(m, e, ps) \<in> set (matching ss) \<longleftrightarrow> (\<exists>ts. (m, ts, e) \<in> set ROUTES \<and> match_path ts ss = Some ps)"
  by (force simp: matching_def map_filter_def)

text \<open>Two routes that fit the same path differ in the method.\<close>

fun overlap :: "segment list \<Rightarrow> segment list \<Rightarrow> bool" where
  "overlap [] [] = True"
| "overlap (t # ts) (u # us) = ((case (t, u) of (Lit a, Lit b) \<Rightarrow> a = b | _ \<Rightarrow> True) \<and> overlap ts us)"
| "overlap _ _ = False"

lemma match_path_Cons:
  "match_path (t # ts) ss = Some ps \<Longrightarrow>
    \<exists>s ss' ps'. ss = s # ss' \<and> (\<forall>a. t = Lit a \<longrightarrow> s = a) \<and> match_path ts ss' = Some ps'"
  by (cases t; cases ss) (auto split: if_splits option.splits)

lemma match_overlap: "match_path ts ss = Some ps \<Longrightarrow> match_path us ss = Some qs \<Longrightarrow> overlap ts us"
proof (induction ts us arbitrary: ss ps qs rule: overlap.induct)
  case (2 t ts u us)
  then show ?case by (fastforce dest!: match_path_Cons split: segment.split)
qed (auto dest!: match_path_Cons)

lemma routes_apart: "sorted_wrt (\<lambda>(m, ts, e) (m', us, e'). m = m' \<longrightarrow> \<not> overlap ts us) ROUTES"
  by code_simp

lemma route_unique:
  assumes "(m, ts, e) \<in> set ROUTES" and "(m, us, e') \<in> set ROUTES"
    and "match_path ts ss = Some ps" and "match_path us ss = Some qs"
  shows "ts = us \<and> e = e'"
proof -
  from assms(1,2) obtain i j where i: "i < length ROUTES" "ROUTES ! i = (m, ts, e)"
    and j: "j < length ROUTES" "ROUTES ! j = (m, us, e')" by (auto simp: in_set_conv_nth)
  have "\<not> i < j" "\<not> j < i"
    using sorted_wrt_nth_less [OF routes_apart, of i j] sorted_wrt_nth_less [OF routes_apart, of j i] i j
      match_overlap [OF assms(3,4)] match_overlap [OF assms(4,3)] by auto
  with i j show ?thesis by simp
qed

section \<open>Properties\<close>



end
