(* ===== verification/Histories.thy ===== *)
theory Histories
  imports Application
begin

text \<open>
  The whole service over time: requests of any clients, rounds of the two background tasks and changes
  outside the tables, one after the other in any order and with any failures. Every such history is shown to
  be a sequence of the abstract steps of \<open>Ledger\<close>, and so to keep what those keep: no seat is ever sold or
  held twice, a sale is final, and nothing is sold without a payment of its full price. That a request runs
  as a whole is the part of the lock of the event; \<open>Redis_Lock\<close>, \<open>Overlaps\<close> and the last properties of
  \<open>Reservation_Closing\<close> say how far it goes.
\<close>

section \<open>Methods that only take abstract steps\<close>

text \<open>Started with a clean session, the method leaves a clean one, and the tables went abstract steps.\<close>

definition bookkeeping :: "('w \<Rightarrow> vstate) \<Rightarrow> ('w, 'a) py \<Rightarrow> bool" where
  "bookkeeping v m \<longleftrightarrow>
     (\<forall>w. fresh_session (v w) \<longrightarrow> ledger_ok (com (v w)) \<longrightarrow>
        fresh_session (v (snd (m w))) \<and> table_steps (com (v w)) (com (v (snd (m w)))))"

lemma bookkeepingI:
  assumes "\<And>s. fresh_session s \<Longrightarrow> ledger_ok (com s) \<Longrightarrow>
    vc v m (\<lambda>_ s'. fresh_session s' \<and> table_steps (com s) (com s'))
      (\<lambda>_ s'. fresh_session s' \<and> table_steps (com s) (com s')) s"
  shows "bookkeeping v m"
  unfolding bookkeeping_def
proof (intro allI impI)
  fix w
  assume "fresh_session (v w)" "ledger_ok (com (v w))"
  from vcD [OF assms [OF this]]
  show "fresh_session (v (snd (m w))) \<and> table_steps (com (v w)) (com (v (snd (m w))))"
    by (auto simp: wp_def split: prod.splits sum.splits)
qed

lemma bookkeepingD:
  assumes "bookkeeping v m" and "fresh_session s" and "ledger_ok (com s)"
  shows "vc v m (\<lambda>_ s'. fresh_session s' \<and> table_steps (com s) (com s'))
    (\<lambda>_ s'. fresh_session s' \<and> table_steps (com s) (com s')) s"
  using assms unfolding bookkeeping_def vc_def wp_def by (fastforce split: prod.split sum.split)

lemma bookkeeping_keeps: "keeps_session v m \<Longrightarrow> bookkeeping v m"
  by (simp add: keeps_def bookkeeping_def fresh_session_def)

lemma bookkeeping_bnd:
  assumes "bookkeeping v m" and "\<And>a. bookkeeping v (f a)"
  shows "bookkeeping v (bnd m f)"
proof (rule bookkeepingI, rule vc_bnd, rule vc_conseq [OF bookkeepingD [OF assms(1)]], goal_cases)
  case (3 s a s')
  then have "ledger_ok (com s')" using table_steps_ledger_ok by blast
  with 3 show ?case by (intro vc_conseq [OF bookkeepingD [OF assms(2)]]) (auto intro: rtranclp_trans)
qed auto

lemma bookkeeping_status: "bookkeeping v m \<Longrightarrow> bookkeeping v (status_of m)"
  unfolding status_of_def by (rule bookkeeping_bnd) (auto intro: bookkeeping_keeps keeps_ret)

text \<open>The same of the tables alone, for what runs inside the session of a request.\<close>

definition stepping :: "('w \<Rightarrow> vstate) \<Rightarrow> ('w, 'a) py \<Rightarrow> bool" where
  "stepping v m \<longleftrightarrow>
     (\<forall>w. fresh_session (v w) \<longrightarrow> ledger_ok (com (v w)) \<longrightarrow> table_steps (com (v w)) (com (v (snd (m w)))))"

lemma steppingI:
  assumes "\<And>s. fresh_session s \<Longrightarrow> ledger_ok (com s) \<Longrightarrow>
    vc v m (\<lambda>_ s'. table_steps (com s) (com s')) (\<lambda>_ s'. table_steps (com s) (com s')) s"
  shows "stepping v m"
  unfolding stepping_def
proof (intro allI impI)
  fix w
  assume "fresh_session (v w)" "ledger_ok (com (v w))"
  from vcD [OF assms [OF this]] show "table_steps (com (v w)) (com (v (snd (m w))))"
    by (auto simp: wp_def split: prod.splits sum.splits)
qed

lemma steppingD:
  assumes "stepping v m" and "fresh_session s" and "ledger_ok (com s)"
  shows "vc v m (\<lambda>_ s'. table_steps (com s) (com s')) (\<lambda>_ s'. table_steps (com s) (com s')) s"
  using assms unfolding stepping_def vc_def wp_def by (fastforce split: prod.split sum.split)

named_theorems stepping_intro \<open>rules that show that a method takes abstract steps\<close>

lemma stepping_keeps: "keeps_tables v m \<Longrightarrow> stepping v m"
  by (simp add: keeps_def stepping_def)

lemma stepping_after [stepping_intro]:
  assumes "keeps_session v m" and "\<And>a. stepping v (f a)"
  shows "stepping v (bnd m f)"
  unfolding stepping_def
proof (intro allI impI)
  fix w
  assume start: "fresh_session (v w)" "ledger_ok (com (v w))"
  obtain r w' where m: "m w = (r, w')" by fastforce
  with keepsD [OF assms(1), of w] have same: "com (v w') = com (v w)" "fresh_session (v w')"
    using start(1) by (simp_all add: fresh_session_def)
  with assms(2) start(2) have "table_steps (com (v w)) (com (v (snd (f a w'))))" for a
    by (metis stepping_def)
  with same show "table_steps (com (v w)) (com (v (snd (bnd m f w))))"
    by (cases r) (simp_all add: bnd_def m)
qed

lemma stepping_if [stepping_intro]: "stepping v m \<Longrightarrow> stepping v n \<Longrightarrow> stepping v (if b then m else n)"
  by simp

lemma stepping_then_ret [stepping_intro]: "stepping v m \<Longrightarrow> stepping v (bnd m (\<lambda>a. ret (g a)))"
  unfolding stepping_def bnd_def ret_def by (fastforce split: prod.split sum.split)

lemma stepping_raising [stepping_intro]: "stepping v (raising e)"
  by (intro stepping_keeps keeps_raising)

context db_laws
begin

lemma bookkeeping_get_db: "stepping v m \<Longrightarrow> bookkeeping v (get_db D m)"
  by (rule bookkeepingI, rule vc_get_db, rule vc_conseq [OF steppingD]) (simp_all add: discard_def fresh_session_def)

lemmas reading_get_db = bookkeeping_get_db [OF stepping_keeps]

lemma reading_then_close:
  assumes "keeps_tables v m"
  shows "bookkeeping v (try_finally m (close_session D))"
  by (rule bookkeepingI, rule vc_try_finally, rule vc_conseq [OF steppingD [OF stepping_keeps [OF assms]]])
    (auto intro!: vc_close_session simp: discard_def fresh_session_def)

end

context lock_services
begin

lemma bookkeeping_serve:
  assumes "jwt_laws J" and "bookkeeping v h"
  shows "bookkeeping v (serve R J cfg T rq h)"
proof (rule bookkeepingI, rule vc_serve [OF assms(1)], goal_cases)
  case (1 s s')
  then have "fresh_session s'" "ledger_ok (com s')" by (simp_all add: as_arrived_fresh) (simp add: as_arrived_def)
  from bookkeepingD [OF assms(2) this] show ?case
    by (rule vc_conseq) (use 1 in \<open>auto simp: as_arrived_def\<close>)
next
  case (2 s w s')
  then show ?case by (simp add: as_arrived_fresh) (simp add: as_arrived_def)
qed

end

section \<open>The services\<close>

lemma cancel_steps: "r \<in> set (reservations t) \<Longrightarrow> res_status r = Held \<Longrightarrow> table_steps t (cancel_tables r t)"
  by (intro r_into_rtranclp table_step.cancel)

lemma payable_sells:
  assumes "payable rid user_id amount s r" and "payment_row u rid method amount st s p"
    and "uuid_parse user_id = Inr u" and "st \<noteq> Failed"
  shows "table_steps (com s) (with_payment p (complete_tables r (com s)))"
proof -
  have "u = res_user r" using assms(1,3) by (auto simp: payable_def)
  with assms show ?thesis
    by (intro r_into_rtranclp table_step.sell) (auto simp: payable_def payment_row_def pays_for_def)
qed

lemma payment_tries: "payment_row u rid method amount st s p \<Longrightarrow> table_steps (com s) (with_payment p (com s))"
  by (intro r_into_rtranclp table_step.try_pay) (simp add: payment_row_def)

context backend
begin

lemma hold_stepping: "stepping v (hold_seats D R T user_id event_id ids)"
  by (rule steppingI, rule vc_conseq [OF vc_hold_seats])
    (auto simp: ledger_ok_def hold_result_def hold_failed_def intro: hold_committed_step split: exn.splits)

lemma cancel_stepping: "stepping v (cancel_reservation D R T rid user_id)"
  by (rule steppingI, rule vc_conseq [OF vc_cancel_reservation])
    (auto simp: ledger_ok_def cancel_result_def cancel_failed_def intro: cancel_steps split: exn.splits)

lemma release_user_stepping: "stepping v (release_user_holds D R T user_id)"
proof (cases "uuid_parse user_id")
  case (Inl e)
  then show ?thesis unfolding release_user_holds_def by (simp add: stepping_raising)
next
  case (Inr u)
  show ?thesis
    by (rule steppingI, rule vc_conseq [OF vc_release_user_holds [OF _ _ Inr]])
      (auto simp: ledger_ok_def intro: cancels_steps)
qed

lemma pay_stepping: "stepping v (process_payment D R T user_id rid method amount)"
proof (rule steppingI, rule vc_conseq [OF vc_process_payment], goal_cases)
  case (4 s a s')
  then show ?case by (auto simp: payment_made_def intro: payable_sells)
next
  case (5 s e s')
  then show ?case
    by (auto simp: payment_failed_def payment_refused_def payment_broken_def split: exn.splits
        intro: payable_sells payment_tries)
qed (auto simp: ledger_ok_def)

lemma cleanup_bookkeeping: "bookkeeping v (run_cleanup D R T)"
  by (rule bookkeepingI, rule vc_run_cleanup) (auto simp: ledger_ok_def cleaned_def intro: cancels_steps)

end

text \<open>Everything the process stands on.\<close>

locale application = scaling_backend R D T N K v + jwt_laws J
  for R :: "'w redis_client" and D :: "'w db_session" and T :: "'w runtime" and N :: "'w torch"
    and K :: "'w cluster" and J :: jwt_lib and v :: "'w \<Rightarrow> vstate"
begin

lemmas served = bookkeeping_status [OF bookkeeping_serve [OF jwt_laws_axioms]]

lemmas served_keeps = served [OF bookkeeping_keeps]

lemma bookkeeping_guarded:
  assumes "keeps_session v guard" and "\<And>x. bookkeeping v (f x)"
  shows "bookkeeping v (guarded_or_422 D guard x f)"
  unfolding guarded_or_422_def unprocessable_def
  by (cases x) (auto intro!: assms(2) reading_get_db keeps_intro keeps_session_tables [OF assms(1)])

lemma bookkeeping_queue:
  assumes "\<And>u e. bookkeeping v (f u e)"
  shows "bookkeeping v (queue_or_422 J cfg T rq inp f)"
  unfolding queue_or_422_def unprocessable_def
  by (cases "queue_params inp") (auto intro!: assms bookkeeping_keeps keeps_intro guards_keep)

lemma join_bookkeeping: "bookkeeping v (join_request R D T N G J cfg u e)"
proof -
  have background: "bookkeeping v (log_scaling_recommendation R D N G e)"
    unfolding log_scaling_recommendation_def by (intro reading_then_close keeps_intro prediction_reads)
  have "bookkeeping v (try_except (log_scaling_recommendation R D N G e) (\<lambda>_. ret ()))"
    by (rule bookkeepingI, rule vc_try_except, rule vc_conseq [OF bookkeepingD [OF background]]) (auto intro: vc_ret)
  then show ?thesis
    unfolding join_request_def
    by (intro bookkeeping_bnd) (auto intro!: bookkeeping_bnd intro: bookkeeping_keeps queue_keeps keeps_ret split: prod.split)
qed

lemma stream_body_keeps: "keeps_session v (stream_body R T J cfg inp)"
  unfolding stream_body_def
  by (cases "queue_params inp") (auto intro!: keeps_intro event_stream_keeps runtime_keeps_session)

lemma call_endpoint_bookkeeping: "bookkeeping v (call_endpoint R D T N G J cfg rq inp ps e)"
proof (cases e)
  case Health_check
  then show ?thesis
    by (auto simp: health_check_def intro!: served_keeps keeps_intro runtime_keeps_session)
next
  case List_events
  then show ?thesis
    by (auto simp: list_events_def intro!: served bookkeeping_guarded reading_get_db keeps_intro catalogue_reads split: prod.split)
next
  case Get_event
  then show ?thesis
    by (auto simp: get_event_def intro!: served bookkeeping_guarded reading_get_db keeps_intro catalogue_reads)
next
  case Get_event_seats
  then show ?thesis
    by (auto simp: get_event_seats_def intro!: served bookkeeping_guarded reading_get_db through_cache_keeps keeps_intro catalogue_reads)
next
  case Join_queue
  then show ?thesis
    by (auto simp: unprocessable_def intro!: served split: option.split
        intro: join_bookkeeping bookkeeping_keeps keeps_raising)
next
  case Get_queue_status
  then show ?thesis by (auto intro!: served bookkeeping_queue intro: bookkeeping_keeps queue_keeps)
next
  case Queue_sse
  then show ?thesis
    by (auto intro!: bookkeeping_bnd served bookkeeping_queue intro: bookkeeping_keeps keeps_intro queue_guard_keeps stream_body_keeps)
next
  case Leave_queue
  then show ?thesis by (auto intro!: served bookkeeping_queue intro: bookkeeping_keeps queue_keeps)
next
  case Get_seats
  then show ?thesis
    by (auto simp: get_seats_def seat_get_by_event_id_def intro!: served bookkeeping_guarded reading_get_db through_cache_keeps keeps_intro
        backend_keeps guards_keep)
next
  case Get_available_seats
  then show ?thesis
    by (auto simp: list_available_seats_def get_available_seats_def intro!: served bookkeeping_guarded reading_get_db
        through_cache_keeps keeps_intro backend_keeps guards_keep)
next
  case Hold_seats
  then show ?thesis
    by (auto simp: hold_seats_endpoint_def intro!: served bookkeeping_guarded bookkeeping_get_db stepping_intro hold_stepping
        keeps_intro guards_keep)
next
  case Get_reservation
  then show ?thesis
    by (auto simp: get_reservation_endpoint_def intro!: served bookkeeping_guarded reading_get_db keeps_intro booking_reads
        backend_keeps guards_keep)
next
  case Cancel_reservation
  then show ?thesis
    by (auto simp: cancel_reservation_endpoint_def intro!: served bookkeeping_guarded bookkeeping_get_db stepping_intro
        cancel_stepping keeps_intro guards_keep)
next
  case Release_user_holds_internal
  then show ?thesis
    by (auto simp: release_user_holds_internal_def intro!: served bookkeeping_guarded bookkeeping_get_db stepping_intro
        release_user_stepping keeps_intro)
next
  case Process_payment
  then show ?thesis
    by (auto simp: process_payment_endpoint_def intro!: served bookkeeping_guarded bookkeeping_get_db stepping_intro
        pay_stepping keeps_intro guards_keep split: prod.split)
next
  case Get_payment
  then show ?thesis
    by (auto simp: get_payment_endpoint_def intro!: served bookkeeping_guarded reading_get_db keeps_intro booking_reads
        backend_keeps guards_keep)
next
  case Get_forecast
  then show ?thesis
    by (auto simp: forecast_endpoint_def intro!: served reading_get_db keeps_intro prediction_reads)
next
  case Get_resource_plan
  then show ?thesis
    by (auto simp: resource_plan_endpoint_def intro!: served reading_get_db keeps_intro prediction_reads)
qed

lemma app_bookkeeping: "bookkeeping v (app R D T N G J cfg rq inp)"
  unfolding app_def answer_only_def
  by (auto split: resolution.split intro!: call_endpoint_bookkeeping served_keeps keeps_ret)

lemma prescale_bookkeeping: "bookkeeping v (run_prescale R D T N K G)"
  unfolding run_prescale_def by (intro reading_then_close keeps_intro prescale_reads)

end

interpretation mem_app: application mem_redis mem_db mem_runtime mem_torch mem_cluster plain_jwt mview
  by (intro application.intro mem_scaling_backend plain_jwt_laws)

section \<open>Histories\<close>

text \<open>
  What may have happened after the world \<open>w\<close>: requests, rounds of the clean-up and of the scaling task,
  and anything that leaves the tables alone (time, other services at Redis, the cluster).
\<close>

inductive history for R D T N K G J cfg v w where
  start: "history R D T N K G J cfg v w w"
| request: "history R D T N K G J cfg v w w' \<Longrightarrow> history R D T N K G J cfg v w (snd (app R D T N G J cfg rq inp w'))"
| cleanup: "history R D T N K G J cfg v w w' \<Longrightarrow> history R D T N K G J cfg v w (snd (run_cleanup D R T w'))"
| prescale: "history R D T N K G J cfg v w w' \<Longrightarrow> history R D T N K G J cfg v w (snd (run_prescale R D T N K G w'))"
| elsewhere: "history R D T N K G J cfg v w w' \<Longrightarrow> com (v w'') = com (v w') \<Longrightarrow> fresh_session (v w'') \<Longrightarrow>
    history R D T N K G J cfg v w w''"

lemma history_steps:
  assumes "application R D T N K J v" and "history R D T N K G J cfg v w w'"
    and "fresh_session (v w)" and "ledger_ok (com (v w))"
  shows "fresh_session (v w') \<and> table_steps (com (v w)) (com (v w'))"
  using assms(2)
proof induction
  case start
  show ?case using assms(3) by simp
next
  case (elsewhere w' w'')
  then show ?case by simp
next
  case (request w' rq inp)
  then have "ledger_ok (com (v w'))" using assms(4) table_steps_ledger_ok by blast
  with request application.app_bookkeeping [OF assms(1)] show ?case
    unfolding bookkeeping_def by (meson rtranclp_trans)
next
  case (cleanup w')
  then have "ledger_ok (com (v w'))" using assms(4) table_steps_ledger_ok by blast
  moreover have "backend R D T v"
    using assms(1) unfolding application_def scaling_backend_def prediction_backend_def by simp
  ultimately show ?case
    using cleanup backend.cleanup_bookkeeping [of R D T v] unfolding bookkeeping_def by (meson rtranclp_trans)
next
  case (prescale w')
  then have "ledger_ok (com (v w'))" using assms(4) table_steps_ledger_ok by blast
  with prescale application.prescale_bookkeeping [OF assms(1)] show ?case
    unfolding bookkeeping_def by (meson rtranclp_trans)
qed

section \<open>Properties\<close>

text \<open>C1: whatever requests come, in whatever order and with whatever failures, no seat is ever promised
  twice: the booking invariant holds throughout, two reservations that are not cancelled never share a
  seat, and the seats on sale and their prices stay as they were.\<close>

theorem never_booked_twice:
  assumes "application R D T N K J v" and "fresh_session (v w)" and "ledger_ok (com (v w))"
    and "history R D T N K G J cfg v w w'"
  shows "booking_ok (com (v w')) \<and> price_list (com (v w')) = price_list (com (v w)) \<and>
    (\<forall>x \<in> set (seats (com (v w'))). \<forall>r \<in> set (reservations (com (v w'))). \<forall>q \<in> set (reservations (com (v w'))).
       names r x \<and> names q x \<and> res_status r \<noteq> Cancelled \<and> res_status q \<noteq> Cancelled \<longrightarrow> r = q)"
proof -
  from history_steps [OF assms(1,4,2,3)] have steps: "table_steps (com (v w)) (com (v w'))" by simp
  with assms(3) have "ledger_ok (com (v w'))" by (rule table_steps_ledger_ok [rotated])
  with table_steps_prices [OF steps] two_holders show ?thesis by (auto simp: ledger_ok_def)
qed

text \<open>C3: a sale is final: a completed reservation keeps its row and its seats keep theirs, sold, in every
  later history.\<close>

theorem sales_are_final:
  assumes "application R D T N K J v" and "fresh_session (v w)" and "ledger_ok (com (v w))"
    and "history R D T N K G J cfg v w w'" and "r \<in> set (reservations (com (v w)))" and "res_status r = Completed"
  shows "r \<in> set (reservations (com (v w'))) \<and>
    (\<forall>x \<in> set (seats (com (v w))). names r x \<longrightarrow> x \<in> set (seats (com (v w'))) \<and> seat_status x = Sold)"
proof -
  from history_steps [OF assms(1,4,2,3)] have "sales_kept (com (v w)) (com (v w'))"
    using table_steps_sales_kept assms(3) by blast
  with assms(3,5,6) sold_status show ?thesis by (auto simp: sales_kept_def ledger_ok_def)
qed

text \<open>C2: nothing is sold that was not paid for: if every sale at the start has been paid for, as it has in
  a new database, then at any later time each completed reservation has a payment row by its own user, of
  exactly the sum of the prices of its seats, that the gateway did not decline.\<close>

theorem sold_only_when_paid:
  assumes "application R D T N K J v" and "fresh_session (v w)" and "booking_ok (com (v w))"
    and "distinct (map payment_id (payments (com (v w))))"
    and "\<forall>r \<in> set (reservations (com (v w))). res_status r = Completed \<longrightarrow> (\<exists>p \<in> set (payments (com (v w))). pays_for p r (com (v w)))"
    and "history R D T N K G J cfg v w w'"
    and "r \<in> set (reservations (com (v w')))" and "res_status r = Completed"
  shows "\<exists>p \<in> set (payments (com (v w'))). pay_reservation p = reservation_id r \<and> pay_user p = res_user r \<and>
    pay_amount p = seats_total (names r) (com (v w')) \<and> pay_status p \<noteq> Failed"
proof -
  have "ledger_ok (com (v w))" using assms(3-5) by (auto simp: ledger_ok_def)
  with history_steps [OF assms(1,6,2)] have "ledger_ok (com (v w'))" using table_steps_ledger_ok by blast
  with assms(7,8) show ?thesis by (auto simp: ledger_ok_def pays_for_def)
qed

section \<open>Witnesses\<close>

text \<open>The seat 1 sold to the user 7 for the reservation 5 and paid for, and a round of the clean-up after it.\<close>

definition paid_tables :: tables where
  "paid_tables = with_payment
     \<lparr>payment_id = 3, pay_reservation = 5, pay_user = 7, pay_amount = 50000, pay_status = PaymentCompleted,
      pay_method = ''card'', pay_created_at = Naive 0\<rparr> sold_tables"

lemma paid_tables_ok: "ledger_ok paid_tables" "ledger_ok held_tables"
  using sold_tables_ok sample_booking_ok
  by (simp_all add: ledger_ok_def paid_tables_def pays_for_def seats_total_def sold_tables_def held_tables_def
      sample_tables_def sample_reservation_def names_def sample_seat_def sell_seat_def)

definition cleaned_up :: "mem \<Rightarrow> mem" where
  "cleaned_up w = snd (run_cleanup mem_db mem_redis mem_runtime w)"

lemma cleaned_up_history:
  "history mem_redis mem_db mem_runtime mem_torch mem_cluster G plain_jwt cfg mview w (cleaned_up w)"
  unfolding cleaned_up_def by (rule history.cleanup, rule history.start)

lemma start_fresh: "fresh_session (mview (start_mem t))"
  by simp

theorem never_booked_twice_witness:
  "booking_ok (com (mview (cleaned_up (start_mem held_tables)))) \<and> price_list (com (mview (cleaned_up (start_mem held_tables)))) = [(1, 9, 50000), (2, 9, 50000)]"
  using never_booked_twice [OF mem_app.application_axioms start_fresh _ cleaned_up_history, of held_tables] paid_tables_ok
  by (simp add: price_list_def held_tables_def sample_seat_def hold_seat_def)

theorem sales_are_final_witness:
  "sample_reservation 5 7 Completed \<in> set (reservations (com (mview (cleaned_up (start_mem paid_tables)))))"
  using sales_are_final [OF mem_app.application_axioms start_fresh _ cleaned_up_history, of paid_tables "sample_reservation 5 7 Completed"]
    paid_tables_ok
  by (simp add: paid_tables_def sold_tables_def sample_reservation_def)

theorem sold_only_when_paid_witness:
  "\<exists>p \<in> set (payments (com (mview (cleaned_up (start_mem paid_tables))))).
     pay_reservation p = 5 \<and> pay_user p = 7 \<and> pay_status p \<noteq> Failed"
proof -
  let ?w = "start_mem paid_tables" and ?r = "sample_reservation 5 7 Completed"
  have ok: "ledger_ok (com (mview ?w))" using paid_tables_ok by simp
  have "sales_kept (com (mview ?w)) (com (mview (cleaned_up ?w)))"
    using history_steps [OF mem_app.application_axioms cleaned_up_history start_fresh ok] ok table_steps_sales_kept by blast
  then have r: "?r \<in> set (reservations (com (mview (cleaned_up ?w))))"
    by (simp add: sales_kept_def paid_tables_def sold_tables_def sample_reservation_def)
  show ?thesis
    using sold_only_when_paid [OF mem_app.application_axioms start_fresh _ _ _ cleaned_up_history r] ok
    by (auto simp: ledger_ok_def sample_reservation_def)
qed

end
