(* ===== verification/Overlaps.thy ===== *)
theory Overlaps
  imports Ledger
begin

text \<open>
  Requests that overlap. \<open>hold_seats\<close> does all its work under the lock of the event, but the methods that
  close a reservation look at it first and take the lock afterwards. Here several requests are in flight at
  once: each has looked, in its own session, and still has to do its locked part; in between, other requests
  do theirs. A locked part runs as one step: the lock of the event and, where its key has expired, the row
  locks of \<open>SELECT ... FOR UPDATE\<close> keep the others out. What each step does is a run of the methods of
  \<open>Reservation_Service\<close> in any world with the current tables, whatever Redis and the clock are like then.
\<close>

section \<open>Looking and closing\<close>

datatype closing = Cancelling | Completing | Expiring | Dismissing

text \<open>
  The reservation a request of this kind has in hand when it goes for the lock: what the check of
  \<open>cancel_reservation\<close> and \<open>complete_reservation\<close> returned, or a member of the list of a release loop, read
  again at its turn.
\<close>

definition looks_at :: "'w db_session \<Rightarrow> 'w runtime \<Rightarrow> closing \<Rightarrow> 'w \<Rightarrow> reservation \<Rightarrow> bool" where
  "looks_at D T k w r \<longleftrightarrow>
     (case k of
        Cancelling \<Rightarrow> \<exists>rid user_id. fst (cancel_check D rid user_id w) = Inr r
      | Completing \<Rightarrow> \<exists>rid. fst (complete_check D T rid w) = Inr r
      | Expiring \<Rightarrow> (\<exists>rs. fst (get_expired_held D T w) = Inr rs \<and> r \<in> set rs) \<or>
          (\<exists>r0. fst (reload_reservation D r0 w) = Inr r)
      | Dismissing \<Rightarrow> (\<exists>u rs. fst (get_held_by_user D u w) = Inr rs \<and> r \<in> set rs) \<or>
          (\<exists>r0. fst (reload_reservation D r0 w) = Inr r))"

primrec locked_part ::
  "'w db_session \<Rightarrow> 'w redis_client \<Rightarrow> 'w runtime \<Rightarrow> reservation \<Rightarrow> closing \<Rightarrow> ('w, unit) py" where
  "locked_part D R T r Cancelling = bnd (cancel_under_lock D R T r) (\<lambda>_. ret ())"
| "locked_part D R T r Completing = complete_under_lock D R T r"
| "locked_part D R T r Expiring =
     bnd (release_expired_block D R T (uuid_str (res_event r)) r 0) (\<lambda>_. ret ())"
| "locked_part D R T r Dismissing =
     bnd (release_user_block D R T (uuid_str (res_event r)) r 0) (\<lambda>_. ret ())"

text \<open>
  The tables and the requests in flight. A locked part starts in a session without changes of its own that
  still holds the object of the look. \<open>apart\<close> is the one restriction: nobody looks at a reservation that
  another request has in hand. Steps \<open>elsewhere\<close> leave seats and reservations alone, such as a payment row.
\<close>

type_synonym in_flight = "(closing \<times> reservation) list"

definition apart :: "reservation \<Rightarrow> in_flight \<Rightarrow> bool" where
  "apart r pend \<longleftrightarrow> reservation_id r \<notin> (reservation_id \<circ> snd) ` set pend"

inductive overlap for D R T v where
  hold: "com (v w) = t \<Longrightarrow> fresh_session (v w) \<Longrightarrow> t' = com (v (snd (hold_seats D R T user_id event_id ids w))) \<Longrightarrow>
    overlap D R T v (t, pend) (t', pend)"
| look: "com (v w) = t \<Longrightarrow> fresh_session (v w) \<Longrightarrow> looks_at D T k w r \<Longrightarrow> apart r pend \<Longrightarrow>
    overlap D R T v (t, pend) (t, (k, r) # pend)"
| close: "(k, r) \<in> set pend \<Longrightarrow> com (v w) = t \<Longrightarrow> ses (v w) = t \<Longrightarrow> imap (v w) (reservation_id r) = Some r \<Longrightarrow>
    t' = com (v (snd (locked_part D R T r k w))) \<Longrightarrow> overlap D R T v (t, pend) (t', remove1 (k, r) pend)"
| give_up: "overlap D R T v (t, pend) (t, remove1 x pend)"
| elsewhere: "seats t' = seats t \<Longrightarrow> reservations t' = reservations t \<Longrightarrow> overlap D R T v (t, pend) (t', pend)"

inductive_cases overlapE: "overlap D R T v (t, pend) (t', pend')"

section \<open>What a look finds and a locked part does\<close>

text \<open>What is in hand: a row as it stands, held where the method has checked that.\<close>

definition in_hand :: "tables \<Rightarrow> closing \<times> reservation \<Rightarrow> bool" where
  "in_hand t x \<longleftrightarrow> snd x \<in> set (reservations t) \<and>
     (fst x = Cancelling \<or> fst x = Completing \<longrightarrow> res_status (snd x) = Held)"

definition closed :: "reservation \<Rightarrow> tables \<Rightarrow> tables \<Rightarrow> bool" where
  "closed r t t' \<longleftrightarrow> t' = t \<or> res_status r = Held \<and> (t' = cancel_tables r t \<or> t' = complete_tables r t)"

lemma vc_result: "vc v m Q E (v w) \<Longrightarrow> fst (m w) = Inr a \<Longrightarrow> Q a (v (snd (m w)))"
  by (drule vcD) (auto simp: wp_def split: prod.splits)

lemma vc_either: "vc v m (\<lambda>_. P) (\<lambda>_. P) (v w) \<Longrightarrow> P (v (snd (m w)))"
  by (drule vcD) (auto simp: wp_def split: prod.splits sum.splits)

context backend
begin

lemma looks_at_row:
  assumes "looks_at D T k w r" and fresh: "fresh_session (v w)" and ok: "booking_ok (com (v w))"
  shows "in_hand (com (v w)) (k, r)"
proof -
  let ?held = "\<lambda>r s'. r \<in> set (reservations (com (v w))) \<and> res_status r = Held"
  note ids = booking_okD(2) [OF ok]
  have ses: "ses (v w) = com (v w)" using fresh by (simp add: fresh_session_def)
  have rows: "set (map (as_loaded s) xs) \<subseteq> set (reservations (com (v w)))"
    if "rows_like xs (filter P (reservations (com (v w))))" "fresh_session s" for xs P s
    using rows_like_set [OF that(1)] as_loaded_fresh [OF that(2)] by auto
  have cancelling: "vc v (cancel_check D rid user_id) ?held (\<lambda>_ _. True) (v w)" for rid user_id
    unfolding cancel_check_def
    by (rule vc_find_reservation [OF fresh ids]; (intro vc_if vc_raising vc_ret)?) auto
  have completing: "vc v (complete_check D T rid) ?held (\<lambda>_ _. True) (v w)" for rid
    unfolding complete_check_def
    by (rule vc_find_reservation [OF fresh ids]; (intro vc_if vc_raising vc_ret vc_bnd vc_utcnow vc_lift_res)?) auto
  have reloading: "vc v (reload_reservation D r0) (\<lambda>r s'. r \<in> set (reservations (com (v w)))) (\<lambda>_ _. True) (v w)" for r0
    by (rule vc_reload_reservation) (simp_all add: ses as_loaded_fresh [OF fresh])
  have expired: "vc v (get_expired_held D T) (\<lambda>rs s'. set rs \<subseteq> set (reservations (com (v w)))) (\<lambda>_ _. True) (v w)"
    unfolding get_expired_held_def
    by (intro vc_bnd vc_utcnow vc_q_reservations rows) (use fresh ses in \<open>simp_all add: fresh_session_def\<close>)
  have users: "vc v (get_held_by_user D u) (\<lambda>rs s'. set rs \<subseteq> set (reservations (com (v w)))) (\<lambda>_ _. True) (v w)" for u
    unfolding get_held_by_user_def
    by (intro vc_q_reservations rows) (use fresh ses in \<open>simp_all add: fresh_session_def\<close>)
  show ?thesis
    using assms(1) vc_result [OF cancelling] vc_result [OF completing] vc_result [OF reloading]
      vc_result [OF expired] vc_result [OF users]
    by (cases k) (fastforce simp: looks_at_def in_hand_def)+
qed

lemma locked_part_closes:
  assumes ses: "ses (v w) = com (v w)" and obj: "imap (v w) (reservation_id r) = Some r"
    and ok: "booking_ok (com (v w))" and hand: "in_hand (com (v w)) (k, r)"
  shows "closed r (com (v w)) (com (v (snd (locked_part D R T r k w))))"
proof -
  let ?done = "\<lambda>s'. closed r (com (v w)) (com s')"
  have r: "r \<in> set (reservations (com (v w)))" using hand by (simp add: in_hand_def)
  note facts = ses booking_okD(3) [OF ok r] booking_okD(1,2) [OF ok]
  have row: "as_loaded (v w) r = r" using obj by (simp add: as_loaded_def)
  have "vc v (locked_part D R T r k) (\<lambda>_. ?done) (\<lambda>_. ?done) (v w)"
  proof (cases k)
    case Cancelling
    then have "res_status r = Held" using hand by (simp add: in_hand_def)
    then show ?thesis
      unfolding Cancelling locked_part.simps cancel_under_lock_def Let_def
      by (intro vc_bnd vc_close_announced [where g = "\<lambda>ys. ys"] vc_ret) (simp_all add: facts closed_def, blast?)
  next
    case Completing
    then have "res_status r = Held" using hand by (simp add: in_hand_def)
    then show ?thesis
      unfolding Completing locked_part.simps complete_under_lock_def Let_def
      by (intro vc_close_announced [where g = "\<lambda>ys. ()", unfolded seqn_unit]) (simp_all add: facts closed_def, blast?)
  next
    case Expiring
    show ?thesis
      unfolding Expiring locked_part.simps
      by (intro vc_bnd vc_release_expired_block vc_ret) (auto simp: facts row ok r closed_def turn_def intro!: vc_ret)
  next
    case Dismissing
    show ?thesis
      unfolding Dismissing locked_part.simps
      by (intro vc_bnd vc_release_user_block vc_ret) (auto simp: facts row ok r closed_def turn_def intro!: vc_ret)
  qed
  then show ?thesis by (rule vc_either)
qed

lemma hold_committed_tables:
  "hold_committed ids u ev s row s' \<Longrightarrow>
    \<exists>ids until row. may_hold ids row (com s) \<and> com s' = hold_tables ids until row (com s)"
  unfolding hold_committed_def may_hold_def by (intro exI [of _ ids] exI [of _ row]) auto

lemma hold_seats_step:
  assumes "fresh_session (v w)" and "booking_ok (com (v w))"
  shows "com (v (snd (hold_seats D R T user_id event_id ids w))) = com (v w) \<or>
    (\<exists>us until row. may_hold us row (com (v w)) \<and>
       com (v (snd (hold_seats D R T user_id event_id ids w))) = hold_tables us until row (com (v w)))"
proof -
  let ?P = "\<lambda>s'. com s' = com (v w) \<or>
    (\<exists>ids until row. may_hold ids row (com (v w)) \<and> com s' = hold_tables ids until row (com (v w)))"
  have "vc v (hold_seats D R T user_id event_id ids) (\<lambda>_. ?P) (\<lambda>_. ?P) (v w)"
    by (rule vc_conseq [OF vc_hold_seats [OF assms]])
      (auto simp: hold_result_def hold_failed_def dest: hold_committed_tables split: exn.splits)
  from vc_either [OF this] show ?thesis .
qed

end

section \<open>What the steps keep\<close>

definition flight_ok :: "tables \<times> in_flight \<Rightarrow> bool" where
  "flight_ok s \<longleftrightarrow> booking_ok (fst s) \<and> (\<forall>x \<in> set (snd s). in_hand (fst s) x) \<and>
     distinct (map (reservation_id \<circ> snd) (snd s))"

definition sales_and_prices :: "tables \<Rightarrow> tables \<Rightarrow> bool" where
  "sales_and_prices t t' \<longleftrightarrow> sales_kept t t' \<and> price_list t' = price_list t"

lemma sales_and_prices_refl [simp]: "sales_and_prices t t"
  by (simp add: sales_and_prices_def sales_kept_def)

lemma sales_and_prices_step: "table_step t t' \<Longrightarrow> booking_ok t \<Longrightarrow> sales_and_prices t t'"
  by (simp add: sales_and_prices_def table_step_sales_kept table_step_prices)

lemma booking_ok_same:
  "seats t' = seats t \<Longrightarrow> reservations t' = reservations t \<Longrightarrow> booking_ok t' = booking_ok t"
  by (simp add: booking_ok_def refers_ok_def seat_ok_def holders_def)

lemma in_hand_kept: "in_hand t x \<Longrightarrow> (snd x \<in> set (reservations t) \<Longrightarrow> snd x \<in> set (reservations t')) \<Longrightarrow> in_hand t' x"
  by (simp add: in_hand_def)

lemma others_apart:
  assumes "distinct (map (reservation_id \<circ> snd) pend)" and "x \<in> set pend" and "y \<in> set (remove1 x pend)"
  shows "reservation_id (snd y) \<noteq> reservation_id (snd x)"
  using assms distinct_map [of "reservation_id \<circ> snd" pend] unfolding inj_on_def comp_def
  by (metis in_set_remove1 set_remove1_eq singletonI DiffE)

lemma distinct_map_remove1: "distinct (map f xs) \<Longrightarrow> distinct (map f (remove1 x xs))"
  using set_remove1_subset [of x xs] by (auto simp: distinct_map inj_on_def)

lemma close_other:
  "q \<in> set (reservations t) \<Longrightarrow> reservation_id q \<noteq> reservation_id r \<Longrightarrow> q \<in> set (reservations (close_tables st f r t))"
  by (auto simp: close_tables_def image_iff)

lemma closed_keeps:
  assumes "flight_ok (t, pend)" and x: "(k, r) \<in> set pend" and "closed r t t'"
  shows "flight_ok (t', remove1 (k, r) pend) \<and> sales_and_prices t t'"
proof -
  from assms(1) have ok: "booking_ok t" and hands: "\<forall>x \<in> set pend. in_hand t x"
    and apart: "distinct (map (reservation_id \<circ> snd) pend)" by (simp_all add: flight_ok_def)
  have r: "r \<in> set (reservations t)" using hands x by (force simp: in_hand_def)
  have left: "distinct (map (reservation_id \<circ> snd) (remove1 (k, r) pend))" by (rule distinct_map_remove1 [OF apart])
  show ?thesis
  proof (cases "t' = t")
    case True
    then show ?thesis using ok hands left by (auto simp: flight_ok_def dest: notin_set_remove1)
  next
    case False
    with assms(3) obtain st f where held: "res_status r = Held" and t': "t' = close_tables st f r t"
      and change: "\<And>x. seat_id (f x) = seat_id x \<and> seat_event (f x) = seat_event x \<and> price (f x) = price x"
      and ok': "booking_ok t'"
      using booking_ok_cancel [OF ok r] booking_ok_complete [OF ok r]
      by (auto simp: closed_def)
    have "in_hand t' y" if y: "y \<in> set (remove1 (k, r) pend)" for y
    proof (rule in_hand_kept)
      show "in_hand t y" using hands notin_set_remove1 y by metis
      show "snd y \<in> set (reservations t')" if "snd y \<in> set (reservations t)"
        using others_apart [OF apart x y] that by (simp add: t' close_other)
    qed
    moreover have "price_list t' = price_list t"
      unfolding price_list_def t' close_tables_sel map_map by (rule map_cong) (simp_all add: change)
    ultimately show ?thesis
      using ok' left sales_kept_close [OF ok r held] by (simp add: flight_ok_def sales_and_prices_def t')
  qed
qed

lemma overlap_keeps:
  assumes "backend R D T v" and "overlap D R T v (t, pend) (t', pend')" and flight: "flight_ok (t, pend)"
  shows "flight_ok (t', pend') \<and> sales_and_prices t t'"
proof (rule overlapE [OF assms(2)], goal_cases)
  case (1 w user_id event_id ids)
  have ok: "booking_ok t" and same: "pend' = pend" using flight 1 by (simp_all add: flight_ok_def)
  from 1 backend.hold_seats_step [OF assms(1), of w user_id event_id ids] ok
  consider "t' = t" | ids until row where "may_hold ids row t" "t' = hold_tables ids until row t" by auto
  then show ?thesis
  proof cases
    case 2
    note step = table_step.hold [OF 2(1), of until, folded 2(2)]
    have "set (reservations t) \<subseteq> set (reservations t')" by (auto simp: 2(2) hold_tables_def)
    then show ?thesis
      using flight table_step_booking_ok [OF step ok] sales_and_prices_step [OF step ok]
      by (auto simp: same flight_ok_def intro: in_hand_kept)
  qed (use flight same in simp)
next
  case (2 w k r)
  with flight backend.looks_at_row [OF assms(1) 2(5)] show ?thesis
    by (auto simp: flight_ok_def apart_def)
next
  case (3 k r w)
  with flight have "booking_ok (com (v w))" "in_hand (com (v w)) (k, r)" by (auto simp: flight_ok_def)
  with 3 backend.locked_part_closes [OF assms(1), of w r k] have "closed r t t'" by auto
  with closed_keeps [OF flight 3(1)] 3(6) show ?thesis by simp
next
  case (4 x)
  then show ?thesis
    using flight by (auto simp: flight_ok_def distinct_map_remove1 dest: notin_set_remove1)
next
  case 5
  then show ?thesis
    using flight booking_ok_same [of t' t]
    by (auto simp: flight_ok_def sales_and_prices_def sales_kept_def price_list_def intro: in_hand_kept)
qed

lemma overlaps_keep:
  assumes "backend R D T v" and "(overlap D R T v)\<^sup>*\<^sup>* s s'" and "flight_ok s"
  shows "flight_ok s' \<and> sales_and_prices (fst s) (fst s')"
  using assms(2)
proof (induction rule: rtranclp_induct)
  case (step s' s'')
  obtain t' p' t'' p'' where s: "s' = (t', p')" "s'' = (t'', p'')" by (cases s', cases s'')
  from overlap_keeps [OF assms(1) step(2) [unfolded s]] step(3) show ?case
    by (auto simp: s sales_and_prices_def intro: sales_kept_trans)
qed (simp add: assms(3))

section \<open>Properties\<close>

text \<open>C4: requests may overlap: as long as no request takes up a reservation that another one has in
  hand, no interleaving of looks, locked parts and holds books a seat twice, undoes a sale or changes a
  price, whatever the lock keys in Redis are. (\<open>complete_does_not_recheck\<close> is what happens otherwise.)\<close>

theorem overlapping_requests:
  assumes "backend R D T v" and "booking_ok t" and "(overlap D R T v)\<^sup>*\<^sup>* (t, []) (t', pend)"
  shows "booking_ok t' \<and> price_list t' = price_list t \<and>
    (\<forall>r \<in> set (reservations t). res_status r = Completed \<longrightarrow> r \<in> set (reservations t') \<and>
       (\<forall>x \<in> set (seats t). names r x \<longrightarrow> x \<in> set (seats t'))) \<and>
    (\<forall>(k, r) \<in> set pend. r \<in> set (reservations t'))"
proof -
  have "flight_ok (t, [])" using assms(2) by (simp add: flight_ok_def)
  from overlaps_keep [OF assms(1,3) this] show ?thesis
    by (auto simp: flight_ok_def in_hand_def sales_and_prices_def sales_kept_def)
qed

text \<open>The holder cancels the sample reservation: a look, and then the locked part in a session that has the object.\<close>

definition cancelling_session :: mem where
  "cancelling_session = (start_mem held_tables)
     \<lparr>mview := (start_view held_tables)\<lparr>imap := [5 \<mapsto> sample_reservation 5 7 Held]\<rparr>\<rparr>"

definition after_cancel :: tables where
  "after_cancel = com (mview (snd (locked_part mem_db mem_redis mem_runtime (sample_reservation 5 7 Held) Cancelling
     cancelling_session)))"

lemma sample_look: "fst (cancel_check mem_db 5 (uuid_str 7) (start_mem held_tables)) = Inr (sample_reservation 5 7 Held)"
  by (simp add: cancel_check_def reservation_get_by_id_def bnd_def mem_db_def attempt_def start_mem_def
      start_view_def held_tables_def sample_reservation_def ret_def as_loaded_def remember_def sample_tables_def Let_def)

lemma sample_overlap:
  "(overlap mem_db mem_redis mem_runtime mview)\<^sup>*\<^sup>* (held_tables, []) (after_cancel, [])"
proof (rule rtranclp.rtrancl_into_rtrancl, rule r_into_rtranclp)
  show "overlap mem_db mem_redis mem_runtime mview (held_tables, []) (held_tables, [(Cancelling, sample_reservation 5 7 Held)])"
    by (rule overlap.look [where w = "start_mem held_tables"])
      (use sample_look in \<open>auto simp: looks_at_def apart_def\<close>)
  have "overlap mem_db mem_redis mem_runtime mview (held_tables, [(Cancelling, sample_reservation 5 7 Held)])
      (after_cancel, remove1 (Cancelling, sample_reservation 5 7 Held) [(Cancelling, sample_reservation 5 7 Held)])"
    by (rule overlap.close [where w = cancelling_session])
      (simp_all add: after_cancel_def cancelling_session_def, simp add: sample_reservation_def)
  then show "overlap mem_db mem_redis mem_runtime mview (held_tables, [(Cancelling, sample_reservation 5 7 Held)]) (after_cancel, [])"
    by simp
qed

theorem overlapping_requests_witness:
  "booking_ok after_cancel \<and> price_list after_cancel = [(1, 9, 50000), (2, 9, 50000)]"
  using overlapping_requests [OF mem_backend sample_booking_ok(1) sample_overlap]
  by (simp add: price_list_def held_tables_def sample_tables_def sample_seat_def hold_seat_def)

end
