(* ===== verification/Lifecycle.thy ===== *)
theory Lifecycle
  imports Background
begin

text \<open>
  The life of the process: \<open>lifespan\<close> of \<open>src/main.py\<close>. Start-up probes the database and Redis and only logs
  what fails; the two background tasks of \<open>Background\<close> are created; at the end they are cancelled and
  awaited, and the Redis client is closed. The probes and the closing are operations of the libraries.
\<close>

record 'w connections =
  select_one :: "('w, unit) py"
  ping_redis :: "('w, unit) py"
  close_redis :: "('w, unit) py"

text \<open>A task at the time it is cancelled: still running, or ended by an exception before.\<close>

datatype task = Running | Ended exn

definition CANCELLED :: exn where
  "CANCELLED = OtherError ''CancelledError''"

text \<open>\<open>await task\<close> after \<open>task.cancel()\<close>.\<close>

fun await_cancelled :: "task \<Rightarrow> ('w, unit) py" where
  "await_cancelled Running = raising CANCELLED"
| "await_cancelled (Ended e) = raising e"

definition startup :: "'w connections \<Rightarrow> 'w db_session \<Rightarrow> ('w, task list) py" where
  "startup C D =
     seqn (try_except (seqn (select_one C) (close_session D)) (\<lambda>e. ret ()))
     (seqn (try_except (ping_redis C) (\<lambda>e. ret ()))
     (ret [Running, Running]))"

definition shutdown :: "'w connections \<Rightarrow> task list \<Rightarrow> ('w, unit) py" where
  "shutdown C tasks =
     seqn (for_each (\<lambda>task. try_except (await_cancelled task) (\<lambda>e. if e = CANCELLED then ret () else raising e)) tasks)
     (try_except (close_redis C) (\<lambda>e. ret ()))"

text \<open>\<open>serving\<close> is what the process does while the generator is suspended: it ends with the tasks as they are then.\<close>

definition lifespan ::
  "'w connections \<Rightarrow> 'w db_session \<Rightarrow> (task list \<Rightarrow> ('w, task list) py) \<Rightarrow> ('w, unit) py" where
  "lifespan C D serving = bnd (startup C D) (\<lambda>tasks. bnd (serving tasks) (\<lambda>tasks'. shutdown C tasks'))"

text \<open>Whatever the probes do, start-up ends with both tasks running.\<close>

lemma startup_returns: "fst (startup C D w) = Inr [Running, Running]"
  by (auto simp: startup_def bnd_def try_except_def ret_def split: prod.split sum.split)

text \<open>How a loop of the clean-up task ended is the state of the task: it runs on, or ended with what it raised.\<close>

definition task_state :: "exn + unit \<Rightarrow> task" where
  "task_state r = (case r of Inr _ \<Rightarrow> Running | Inl e \<Rightarrow> Ended e)"

lemma external_not_cancelled [simp]: "ExternalError m \<noteq> CANCELLED"
  by (simp add: CANCELLED_def)

lemma await_running [simp]:
  "try_except (await_cancelled Running) (\<lambda>e. if e = CANCELLED then ret () else raising e) = ret ()"
  by (auto simp: try_except_def raising_def ret_def fun_eq_iff)

lemma await_ended [simp]:
  "e \<noteq> CANCELLED \<Longrightarrow>
    try_except (await_cancelled (Ended e)) (\<lambda>e. if e = CANCELLED then ret () else raising e) = raising e"
  by (auto simp: try_except_def raising_def ret_def fun_eq_iff)

text \<open>
  Shutting down closes the Redis client when both tasks still run. When a failure of the
  database has ended the clean-up task before, awaiting it raises that failure again: the shutdown stops
  there, the other task is not awaited and the Redis client is not closed.
\<close>

lemma shutdown_outcome:
  "shutdown C [Running, Running] = try_except (close_redis C) (\<lambda>e. ret ()) \<and>
   shutdown C [task_state (Inl (ExternalError m)), prescale] = raising (ExternalError m)"
  by (simp add: shutdown_def for_each_def task_state_def del: await_cancelled.simps)

end
