(* ===== verification/Migrations.thy ===== *)
theory Migrations
  imports Prelude
begin

text \<open>
  The schema of the database, twice: as \<open>alembic/versions\<close> creates it and as the classes of \<open>src/models\<close>
  declare it, and the online run of migrations of \<open>alembic/env.py\<close>. A migration script is the list of its
  \<open>op\<close> calls. What each call does to the catalogue of PostgreSQL is the interface to Alembic, the locale
  \<open>alembic_laws\<close>; the transaction around a run makes it all or nothing. The offline mode prints the script instead.
\<close>

section \<open>The catalogue\<close>

datatype sql_type =
    Uuid | Str nat | Text_type | Int_type | Timestamp bool | Numeric_type nat nat | Json_type
  | Enum_type string "string list"

record column =
  col_name :: string
  col_type :: sql_type
  col_nullable :: bool

text \<open>A unique constraint has its name, where it was given one, and its columns; a foreign key its column and its target.\<close>

record table =
  tbl_name :: string
  tbl_columns :: "column list"
  tbl_primary_key :: "string list"
  tbl_uniques :: "(string option \<times> string list) set"
  tbl_foreign_keys :: "(string \<times> string \<times> string) set"

record index =
  ix_name :: string
  ix_table :: string
  ix_columns :: "string list"

record catalog =
  cat_tables :: "table list"
  cat_indexes :: "index list"
  cat_enums :: "(string \<times> string list) list"

definition empty_catalog :: catalog where
  "empty_catalog = \<lparr>cat_tables = [], cat_indexes = [], cat_enums = []\<rparr>"

section \<open>The calls of a script\<close>

datatype ddl =
    Create_table table
  | Create_index index
  | Drop_index string string
  | Drop_table string

definition enums_of :: "table \<Rightarrow> (string \<times> string list) list" where
  "enums_of t = List.map_filter (\<lambda>c. case col_type c of Enum_type n vs \<Rightarrow> Some (n, vs) | _ \<Rightarrow> None) (tbl_columns t)"

definition targets :: "table \<Rightarrow> string set" where
  "targets t = (\<lambda>(c, tab, col). tab) ` tbl_foreign_keys t"

definition table_names :: "catalog \<Rightarrow> string set" where
  "table_names c = tbl_name ` set (cat_tables c)"

text \<open>
  \<open>op.create_table\<close> creates the enumeration types of its columns first and fails where one exists;
  \<open>op.drop_table\<close> knows nothing of the columns, so it leaves the types. A table that another one refers to
  cannot be dropped; the indexes of a dropped table go with it.
\<close>

fun run_ddl :: "ddl \<Rightarrow> catalog \<Rightarrow> catalog option" where
  "run_ddl (Create_table t) c =
     (if tbl_name t \<in> table_names c \<or> \<not> targets t \<subseteq> table_names c \<or>
         set (map fst (enums_of t)) \<inter> set (map fst (cat_enums c)) \<noteq> {} then None
      else Some (c\<lparr>cat_tables := cat_tables c @ [t], cat_enums := cat_enums c @ enums_of t\<rparr>))"
| "run_ddl (Create_index i) c =
     (if ix_table i \<notin> table_names c \<or> ix_name i \<in> ix_name ` set (cat_indexes c) then None
      else Some (c\<lparr>cat_indexes := cat_indexes c @ [i]\<rparr>))"
| "run_ddl (Drop_index n t) c =
     (if n \<notin> ix_name ` set (cat_indexes c) then None
      else Some (c\<lparr>cat_indexes := filter (\<lambda>i. ix_name i \<noteq> n) (cat_indexes c)\<rparr>))"
| "run_ddl (Drop_table n) c =
     (if n \<notin> table_names c \<or> (\<exists>t \<in> set (cat_tables c). tbl_name t \<noteq> n \<and> n \<in> targets t) then None
      else Some (c\<lparr>cat_tables := filter (\<lambda>t. tbl_name t \<noteq> n) (cat_tables c),
                   cat_indexes := filter (\<lambda>i. ix_table i \<noteq> n) (cat_indexes c)\<rparr>))"

fun run_ddls :: "ddl list \<Rightarrow> catalog \<Rightarrow> catalog option" where
  "run_ddls [] c = Some c"
| "run_ddls (d # ds) c = (case run_ddl d c of None \<Rightarrow> None | Some c' \<Rightarrow> run_ddls ds c')"

section \<open>001_initial_schema.py\<close>

definition col :: "string \<Rightarrow> sql_type \<Rightarrow> bool \<Rightarrow> column" where
  "col n ty nullable = \<lparr>col_name = n, col_type = ty, col_nullable = nullable\<rparr>"

definition seat_status_type :: sql_type where
  "seat_status_type = Enum_type ''seat_status'' [''available'', ''hold'', ''sold'']"
definition reservation_status_type :: sql_type where
  "reservation_status_type = Enum_type ''reservation_status'' [''held'', ''completed'', ''cancelled'']"
definition payment_status_type :: sql_type where
  "payment_status_type = Enum_type ''payment_status'' [''pending'', ''completed'', ''failed'']"

definition users_001 :: table where
  "users_001 =
     \<lparr>tbl_name = ''users'',
      tbl_columns =
        [col ''user_id'' Uuid False, col ''email'' (Str 255) False, col ''hashed_password'' (Str 255) False,
         col ''name'' (Str 255) False, col ''phone'' (Str 20) True, col ''created_at'' (Timestamp False) False],
      tbl_primary_key = [''user_id''], tbl_uniques = {(None, [''email''])}, tbl_foreign_keys = {}\<rparr>"

definition events_001 :: table where
  "events_001 =
     \<lparr>tbl_name = ''events'',
      tbl_columns =
        [col ''event_id'' Uuid False, col ''name'' (Str 255) False, col ''description'' Text_type True,
         col ''location'' (Str 255) False, col ''start_at'' (Timestamp False) False,
         col ''end_at'' (Timestamp False) False, col ''total_seats'' Int_type False,
         col ''available_seats'' Int_type False, col ''created_at'' (Timestamp False) False],
      tbl_primary_key = [''event_id''], tbl_uniques = {}, tbl_foreign_keys = {}\<rparr>"

definition seats_001 :: table where
  "seats_001 =
     \<lparr>tbl_name = ''seats'',
      tbl_columns =
        [col ''seat_id'' Uuid False, col ''event_id'' Uuid False, col ''section'' (Str 50) False,
         col ''row'' (Str 5) False, col ''seat_number'' Int_type False, col ''status'' seat_status_type False,
         col ''price'' (Numeric_type 10 2) False, col ''held_by'' Uuid True,
         col ''held_until'' (Timestamp False) True],
      tbl_primary_key = [''seat_id''],
      tbl_uniques = {(Some ''uq_seats_event_section_row_number'', [''event_id'', ''section'', ''row'', ''seat_number''])},
      tbl_foreign_keys = {(''event_id'', ''events'', ''event_id'')}\<rparr>"

definition reservations_001 :: table where
  "reservations_001 =
     \<lparr>tbl_name = ''reservations'',
      tbl_columns =
        [col ''reservation_id'' Uuid False, col ''user_id'' Uuid False, col ''event_id'' Uuid False,
         col ''seat_ids'' Json_type False, col ''status'' reservation_status_type False,
         col ''created_at'' (Timestamp False) False, col ''expires_at'' (Timestamp False) False],
      tbl_primary_key = [''reservation_id''], tbl_uniques = {},
      tbl_foreign_keys = {(''event_id'', ''events'', ''event_id''), (''user_id'', ''users'', ''user_id'')}\<rparr>"

definition payments_001 :: table where
  "payments_001 =
     \<lparr>tbl_name = ''payments'',
      tbl_columns =
        [col ''payment_id'' Uuid False, col ''reservation_id'' Uuid False, col ''user_id'' Uuid False,
         col ''amount'' (Numeric_type 10 2) False, col ''status'' payment_status_type False,
         col ''payment_method'' (Str 50) False, col ''created_at'' (Timestamp False) False],
      tbl_primary_key = [''payment_id''], tbl_uniques = {},
      tbl_foreign_keys = {(''reservation_id'', ''reservations'', ''reservation_id''), (''user_id'', ''users'', ''user_id'')}\<rparr>"

definition ix :: "string \<Rightarrow> string \<Rightarrow> string list \<Rightarrow> index" where
  "ix n t cs = \<lparr>ix_name = n, ix_table = t, ix_columns = cs\<rparr>"

definition upgrade_001 :: "ddl list" where
  "upgrade_001 =
     [Create_table users_001,
      Create_index (ix ''idx_users_email'' ''users'' [''email'']),
      Create_table events_001,
      Create_index (ix ''idx_events_start_at'' ''events'' [''start_at'']),
      Create_table seats_001,
      Create_index (ix ''idx_seats_event_status'' ''seats'' [''event_id'', ''status'']),
      Create_index (ix ''idx_seats_held_until'' ''seats'' [''held_until'']),
      Create_table reservations_001,
      Create_index (ix ''idx_reservations_user_created'' ''reservations'' [''user_id'', ''created_at'']),
      Create_table payments_001,
      Create_index (ix ''idx_payments_reservation'' ''payments'' [''reservation_id''])]"

definition downgrade_001 :: "ddl list" where
  "downgrade_001 =
     [Drop_index ''idx_payments_reservation'' ''payments'', Drop_table ''payments'',
      Drop_index ''idx_reservations_user_created'' ''reservations'', Drop_table ''reservations'',
      Drop_index ''idx_seats_held_until'' ''seats'', Drop_index ''idx_seats_event_status'' ''seats'',
      Drop_table ''seats'',
      Drop_index ''idx_events_start_at'' ''events'', Drop_table ''events'',
      Drop_index ''idx_users_email'' ''users'', Drop_table ''users'']"

section \<open>002_add_reservation_index.py\<close>

definition upgrade_002 :: "ddl list" where
  "upgrade_002 =
     [Create_index (ix ''idx_reservations_status_expires'' ''reservations'' [''status'', ''expires_at''])]"

definition downgrade_002 :: "ddl list" where
  "downgrade_002 = [Drop_index ''idx_reservations_status_expires'' ''reservations'']"

text \<open>The chain of revisions: each with the one it follows.\<close>

definition REVISIONS :: "(string \<times> string option) list" where
  "REVISIONS = [(''001_initial_schema'', None), (''002_add_reservation_index'', Some ''001_initial_schema'')]"

text \<open>\<open>alembic upgrade head\<close> on a database without revisions, and \<open>alembic downgrade base\<close> from the head.\<close>

definition upgrade_head :: "ddl list" where
  "upgrade_head = upgrade_001 @ upgrade_002"

definition downgrade_base :: "ddl list" where
  "downgrade_base = downgrade_002 @ downgrade_001"

section \<open>The tables of \<open>src/models\<close>\<close>

definition User_table :: table where
  "User_table =
     \<lparr>tbl_name = ''users'',
      tbl_columns =
        [col ''user_id'' Uuid False, col ''email'' (Str 255) False, col ''hashed_password'' (Str 255) False,
         col ''name'' (Str 255) False, col ''phone'' (Str 20) True, col ''created_at'' (Timestamp True) False],
      tbl_primary_key = [''user_id''], tbl_uniques = {(None, [''email''])}, tbl_foreign_keys = {}\<rparr>"

definition Event_table :: table where
  "Event_table =
     \<lparr>tbl_name = ''events'',
      tbl_columns =
        [col ''event_id'' Uuid False, col ''name'' (Str 255) False, col ''description'' Text_type True,
         col ''location'' (Str 255) False, col ''start_at'' (Timestamp True) False,
         col ''end_at'' (Timestamp True) False, col ''total_seats'' Int_type False,
         col ''available_seats'' Int_type False, col ''created_at'' (Timestamp True) False],
      tbl_primary_key = [''event_id''], tbl_uniques = {}, tbl_foreign_keys = {}\<rparr>"

definition Seat_table :: table where
  "Seat_table =
     \<lparr>tbl_name = ''seats'',
      tbl_columns =
        [col ''seat_id'' Uuid False, col ''event_id'' Uuid False, col ''section'' (Str 50) False,
         col ''row'' (Str 5) False, col ''seat_number'' Int_type False, col ''status'' seat_status_type False,
         col ''price'' (Numeric_type 10 2) False, col ''held_by'' Uuid True,
         col ''held_until'' (Timestamp True) True],
      tbl_primary_key = [''seat_id''],
      tbl_uniques = {(Some ''uq_seats_event_section_row_number'', [''event_id'', ''section'', ''row'', ''seat_number''])},
      tbl_foreign_keys = {(''event_id'', ''events'', ''event_id'')}\<rparr>"

definition Reservation_table :: table where
  "Reservation_table =
     \<lparr>tbl_name = ''reservations'',
      tbl_columns =
        [col ''reservation_id'' Uuid False, col ''user_id'' Uuid False, col ''event_id'' Uuid False,
         col ''seat_ids'' Json_type False, col ''status'' reservation_status_type False,
         col ''created_at'' (Timestamp True) False, col ''expires_at'' (Timestamp True) False],
      tbl_primary_key = [''reservation_id''], tbl_uniques = {},
      tbl_foreign_keys = {(''user_id'', ''users'', ''user_id''), (''event_id'', ''events'', ''event_id'')}\<rparr>"

definition Payment_table :: table where
  "Payment_table =
     \<lparr>tbl_name = ''payments'',
      tbl_columns =
        [col ''payment_id'' Uuid False, col ''reservation_id'' Uuid False, col ''user_id'' Uuid False,
         col ''amount'' (Numeric_type 10 2) False, col ''status'' payment_status_type False,
         col ''payment_method'' (Str 50) False, col ''created_at'' (Timestamp True) False],
      tbl_primary_key = [''payment_id''], tbl_uniques = {},
      tbl_foreign_keys = {(''reservation_id'', ''reservations'', ''reservation_id''), (''user_id'', ''users'', ''user_id'')}\<rparr>"

definition metadata_tables :: "table list" where
  "metadata_tables = [User_table, Event_table, Seat_table, Reservation_table, Payment_table]"

definition metadata_indexes :: "index list" where
  "metadata_indexes =
     [ix ''idx_users_email'' ''users'' [''email''],
      ix ''idx_events_start_at'' ''events'' [''start_at''],
      ix ''idx_seats_event_status'' ''seats'' [''event_id'', ''status''],
      ix ''idx_seats_held_until'' ''seats'' [''held_until''],
      ix ''idx_reservations_user_created'' ''reservations'' [''user_id'', ''created_at''],
      ix ''idx_reservations_status_expires'' ''reservations'' [''status'', ''expires_at''],
      ix ''idx_payments_reservation'' ''payments'' [''reservation_id'']]"

section \<open>env.py\<close>

text \<open>
  Alembic's context. \<open>configure\<close> is given a URL and \<open>literal_binds\<close> (\<open>True\<close>: calls are written out as SQL) or a
  connection; what the calls of a script and the transaction do depends on it.
\<close>

record 'w alembic =
  is_offline_mode :: "('w, bool) py"
  connect :: "('w, unit) py"
  close_connection :: "('w, unit) py"
  configure :: "bool \<Rightarrow> ('w, unit) py"
  op_execute :: "ddl \<Rightarrow> ('w, unit) py"
  begin_transaction :: "('w, unit) py"
  commit_transaction :: "('w, unit) py"
  rollback_transaction :: "('w, unit) py"

text \<open>\<open>context.run_migrations()\<close> with the scripts Alembic has chosen.\<close>

definition run_migrations :: "'w alembic \<Rightarrow> ddl list \<Rightarrow> ('w, unit) py" where
  "run_migrations A script = for_each (op_execute A) script"

text \<open>\<open>with context.begin_transaction()\<close>: committed when the block returns, rolled back when it raises.\<close>

definition in_transaction :: "'w alembic \<Rightarrow> ('w, unit) py \<Rightarrow> ('w, unit) py" where
  "in_transaction A m =
     seqn (begin_transaction A)
     (bnd (try_except (seqn m (ret None)) (\<lambda>e. ret (Some e))) (\<lambda>failed.
      case failed of
        None \<Rightarrow> commit_transaction A
      | Some e \<Rightarrow> seqn (rollback_transaction A) (raising e)))"

definition run_migrations_offline :: "'w alembic \<Rightarrow> ddl list \<Rightarrow> ('w, unit) py" where
  "run_migrations_offline A script = seqn (configure A True) (in_transaction A (run_migrations A script))"

definition run_migrations_online :: "'w alembic \<Rightarrow> ddl list \<Rightarrow> ('w, unit) py" where
  "run_migrations_online A script =
     seqn (connect A)
     (try_finally (seqn (configure A False) (in_transaction A (run_migrations A script))) (close_connection A))"

text \<open>The last lines of the module.\<close>

definition run_env :: "'w alembic \<Rightarrow> ddl list \<Rightarrow> ('w, unit) py" where
  "run_env A script =
     bnd (is_offline_mode A) (\<lambda>offline_mode.
     if offline_mode then run_migrations_offline A script else run_migrations_online A script)"

text \<open>
  The catalogue others see, the one inside the transaction, whether the command line asked for SQL, how the
  context is configured, and what was printed.
\<close>

datatype sql = Begin | Statement ddl | Commit

record migration_view =
  committed :: catalog
  current :: catalog
  offline :: bool
  as_sql :: bool
  printed :: "sql list"

definition forget :: "migration_view \<Rightarrow> migration_view" where
  "forget s = s\<lparr>current := committed s\<rparr>"

definition prints :: "sql list \<Rightarrow> migration_view \<Rightarrow> migration_view" where
  "prints xs s = s\<lparr>printed := printed s @ xs\<rparr>"

definition sql_error :: "(migration_view, 'a) outcomes" where
  "sql_error s = {(Inl (ExternalError m), s) | m. True}"

text \<open>Writing may fail half-way.\<close>

definition print_outcomes :: "sql list \<Rightarrow> (migration_view, unit) outcomes" where
  "print_outcomes xs s = insert (Inr (), prints xs s) {(Inl (ExternalError m), prints ys s) | m ys. True}"

text \<open>A script, and a transaction around it, where its calls take effect and where they are written out.\<close>

definition ran :: "ddl list \<Rightarrow> migration_view \<Rightarrow> migration_view \<Rightarrow> bool" where
  "ran ds s s' \<longleftrightarrow> as_sql s' = as_sql s \<and> committed s' = committed s \<and>
     (if as_sql s then printed s' = printed s @ map Statement ds
      else run_ddls ds (current s) = Some (current s') \<and> printed s' = printed s)"

locale alembic_laws =
  fixes A :: "'w alembic" and v :: "'w \<Rightarrow> migration_view"
  assumes is_offline_mode: "refines v (is_offline_mode A) (\<lambda>s. {(Inr (offline s), s)})"
    and connect: "refines v (connect A) (\<lambda>s. insert (Inr (), s) (sql_error s))"
    and close_connection: "refines v (close_connection A) (\<lambda>s. {(Inr (), forget s)})"
    and configure: "refines v (configure A b) (\<lambda>s. {(Inr (), s\<lparr>as_sql := b\<rparr>)})"
    and execute: "refines v (op_execute A d) (\<lambda>s.
      if as_sql s then print_outcomes [Statement d] s
      else (case run_ddl d (current s) of Some c \<Rightarrow> {(Inr (), s\<lparr>current := c\<rparr>)} | None \<Rightarrow> {}) \<union> sql_error s)"
    and begin_transaction: "refines v (begin_transaction A)
      (\<lambda>s. if as_sql s then print_outcomes [Begin] s else insert (Inr (), forget s) (sql_error s))"
    and commit_transaction: "refines v (commit_transaction A)
      (\<lambda>s. if as_sql s then print_outcomes [Commit] s
            else insert (Inr (), s\<lparr>committed := current s\<rparr>) (sql_error (forget s)))"
    and rollback_transaction: "refines v (rollback_transaction A)
      (\<lambda>s. if as_sql s then {(Inr (), s)} else insert (Inr (), forget s) (sql_error (forget s)))"
begin

lemma vc_context:
  "Q (offline s) s \<Longrightarrow> vc v (is_offline_mode A) Q E s"
  "Q' () (s\<lparr>as_sql := b\<rparr>) \<Longrightarrow> vc v (configure A b) Q' E s"
  "Q' () s \<Longrightarrow> (\<And>m. E (ExternalError m) s) \<Longrightarrow> vc v (connect A) Q' E s"
  "Q' () (forget s) \<Longrightarrow> vc v (close_connection A) Q' E s"
  by (rule vc_refines [OF is_offline_mode] vc_refines [OF configure] vc_refines [OF connect]
      vc_refines [OF close_connection], auto simp: sql_error_def)+

lemma vc_execute:
  "as_sql s \<Longrightarrow> Q () (prints [Statement d] s) \<Longrightarrow> (\<And>m ys. E (ExternalError m) (prints ys s)) \<Longrightarrow> vc v (op_execute A d) Q E s"
  "\<not> as_sql s \<Longrightarrow> (\<And>c. run_ddl d (current s) = Some c \<Longrightarrow> Q () (s\<lparr>current := c\<rparr>)) \<Longrightarrow> (\<And>m. E (ExternalError m) s) \<Longrightarrow>
    vc v (op_execute A d) Q E s"
  by (rule vc_refines [OF execute], auto simp: sql_error_def print_outcomes_def split: option.splits)+

lemma vc_run_migrations:
  "vc v (run_migrations A ds) (\<lambda>_. ran ds s)
     (\<lambda>e s'. is_external e \<and> committed s' = committed s \<and> as_sql s' = as_sql s \<and> (as_sql s \<or> printed s' = printed s)) s"
proof -
  have "vc v (foldM (\<lambda>_. op_execute A) u ds) (\<lambda>_. ran ds s)
     (\<lambda>e s'. is_external e \<and> committed s' = committed s \<and> as_sql s' = as_sql s \<and> (as_sql s \<or> printed s' = printed s)) s" for u
  proof (induction ds arbitrary: u s)
    case (Cons d ds)
    show ?case
    proof (cases "as_sql s")
      case True
      then show ?thesis
        unfolding foldM.simps
        by (intro vc_bnd vc_execute(1), simp, intro vc_conseq [OF Cons.IH]) (auto simp: ran_def prints_def)
    next
      case False
      then show ?thesis
        unfolding foldM.simps
        by (intro vc_bnd vc_execute(2), simp, intro vc_conseq [OF Cons.IH]) (auto simp: ran_def)
    qed
  qed (auto simp: ran_def intro: vc_ret)
  then show ?thesis by (simp add: run_migrations_def for_each_def)
qed

lemma vc_in_transaction:
  "vc v (in_transaction A (run_migrations A ds))
     (\<lambda>_ s'. if as_sql s then committed s' = committed s \<and> printed s' = printed s @ Begin # map Statement ds @ [Commit]
       else run_ddls ds (committed s) = Some (committed s') \<and> printed s' = printed s)
     (\<lambda>e s'. is_external e \<and> committed s' = committed s \<and> (as_sql s \<or> printed s' = printed s)) s"
  unfolding in_transaction_def
  by (rule vc_bnd, rule vc_refines [OF begin_transaction]; (rule vc_bnd, rule vc_try_except, rule vc_bnd,
      rule vc_conseq [OF vc_run_migrations])?)
    (auto simp: forget_def prints_def print_outcomes_def sql_error_def ran_def split: if_splits
      intro!: vc_ret vc_bnd vc_raising vc_refines [OF commit_transaction] vc_refines [OF rollback_transaction])

lemma vc_run_env:
  "vc v (run_env A ds)
     (\<lambda>_ s'. if offline s then committed s' = committed s \<and> printed s' = printed s @ Begin # map Statement ds @ [Commit]
       else run_ddls ds (committed s) = Some (committed s') \<and> printed s' = printed s)
     (\<lambda>e s'. is_external e \<and> committed s' = committed s) s"
  unfolding run_env_def run_migrations_offline_def run_migrations_online_def
  by (rule vc_bnd, rule vc_context(1), rule vc_if; rule vc_bnd; (rule vc_context(2) | rule vc_context(3));
      (rule vc_try_finally, rule vc_bnd, rule vc_context(2))?; (rule vc_conseq [OF vc_in_transaction])?)
    (auto simp: forget_def intro!: vc_context(4))

end

section \<open>In memory\<close>

text \<open>A world with the answers to the next calls: \<open>True\<close> where one fails for a reason of its own.\<close>

record migration_mem =
  mig_view :: migration_view
  mig_faults :: "bool list"

definition attempting ::
  "(migration_view \<Rightarrow> migration_view option) \<Rightarrow> (migration_view \<Rightarrow> migration_view) \<Rightarrow> (migration_mem, unit) py" where
  "attempting f g w =
     (let w' = w\<lparr>mig_faults := tl (mig_faults w)\<rparr> in
      case (if mig_faults w \<noteq> [] \<and> hd (mig_faults w) then None else f (mig_view w)) of
        Some s \<Rightarrow> (Inr (), w'\<lparr>mig_view := s\<rparr>)
      | None \<Rightarrow> (Inl (ExternalError ''ProgrammingError''), w'\<lparr>mig_view := g (mig_view w)\<rparr>))"

definition mem_alembic :: "migration_mem alembic" where
  "mem_alembic =
     \<lparr>is_offline_mode = (\<lambda>w. (Inr (offline (mig_view w)), w)),
      connect = attempting Some id,
      close_connection = (\<lambda>w. (Inr (), w\<lparr>mig_view := forget (mig_view w)\<rparr>)),
      configure = (\<lambda>b w. (Inr (), w\<lparr>mig_view := mig_view w\<lparr>as_sql := b\<rparr>\<rparr>)),
      op_execute = (\<lambda>d. attempting (\<lambda>s.
        if as_sql s then Some (prints [Statement d] s)
        else map_option (\<lambda>c. s\<lparr>current := c\<rparr>) (run_ddl d (current s))) (\<lambda>s. s)),
      begin_transaction = attempting (\<lambda>s. Some (if as_sql s then prints [Begin] s else forget s)) (\<lambda>s. s),
      commit_transaction = attempting
        (\<lambda>s. Some (if as_sql s then prints [Commit] s else s\<lparr>committed := current s\<rparr>)) (\<lambda>s. if as_sql s then s else forget s),
      rollback_transaction = (\<lambda>w. (Inr (), w\<lparr>mig_view := if as_sql (mig_view w) then mig_view w else forget (mig_view w)\<rparr>))\<rparr>"

lemma prints_nothing: "\<exists>ys. s = prints ys s"
  by (rule exI [where x = "[]"]) (simp add: prints_def)

interpretation mem_a: alembic_laws mem_alembic mig_view
  by unfold_locales (auto simp: refines_def mem_alembic_def attempting_def sql_error_def print_outcomes_def Let_def
      prints_nothing split: option.split)

definition migration_start :: "catalog \<Rightarrow> migration_mem" where
  "migration_start c =
     \<lparr>mig_view = \<lparr>committed = c, current = c, offline = False, as_sql = False, printed = []\<rparr>, mig_faults = []\<rparr>"

section \<open>Upgrade and downgrade\<close>

lemma run_ddls_append:
  "run_ddls (ds @ es) c = (case run_ddls ds c of None \<Rightarrow> None | Some c' \<Rightarrow> run_ddls es c')"
  by (induction ds arbitrary: c) (auto split: option.split)

lemma in_table_names: "t \<in> set (cat_tables c) \<Longrightarrow> tbl_name t \<in> table_names c"
  by (simp add: table_names_def)

text \<open>What a script of creations adds, all of it new.\<close>

fun creates :: "ddl \<Rightarrow> bool" where
  "creates (Create_table t) = True"
| "creates (Create_index i) = True"
| "creates _ = False"

fun new_tables :: "ddl list \<Rightarrow> table list" where
  "new_tables [] = []"
| "new_tables (Create_table t # ds) = t # new_tables ds"
| "new_tables (d # ds) = new_tables ds"

fun new_indexes :: "ddl list \<Rightarrow> index list" where
  "new_indexes [] = []"
| "new_indexes (Create_index i # ds) = i # new_indexes ds"
| "new_indexes (d # ds) = new_indexes ds"

definition extends :: "catalog \<Rightarrow> ddl list \<Rightarrow> catalog \<Rightarrow> bool" where
  "extends c ds c' \<longleftrightarrow>
     cat_tables c' = cat_tables c @ new_tables ds \<and> cat_indexes c' = cat_indexes c @ new_indexes ds \<and>
     cat_enums c' = cat_enums c @ concat (map enums_of (new_tables ds)) \<and>
     tbl_name ` set (new_tables ds) \<inter> table_names c = {} \<and>
     ix_name ` set (new_indexes ds) \<inter> ix_name ` set (cat_indexes c) = {} \<and>
     fst ` set (concat (map enums_of (new_tables ds))) \<inter> fst ` set (cat_enums c) = {}"

lemma creations_extend:
  "list_all creates ds \<Longrightarrow> run_ddls ds c = Some c' \<Longrightarrow> extends c ds c'"
proof (induction ds arbitrary: c)
  case Nil
  then show ?case by (simp add: extends_def)
next
  case (Cons d ds)
  then obtain c1 where c1: "run_ddl d c = Some c1" "run_ddls ds c1 = Some c'" by (auto split: option.splits)
  with Cons have later: "extends c1 ds c'" by simp
  show ?case
  proof (cases d)
    case (Create_table t)
    with c1(1) have c1': "c1 = c\<lparr>cat_tables := cat_tables c @ [t], cat_enums := cat_enums c @ enums_of t\<rparr>"
      "tbl_name t \<notin> table_names c" "fst ` set (enums_of t) \<inter> fst ` set (cat_enums c) = {}" by (auto split: if_splits)
    have "table_names c1 = insert (tbl_name t) (table_names c)" by (simp add: c1'(1) table_names_def)
    with later c1'(2,3) show ?thesis
      unfolding Create_table by (simp add: extends_def c1'(1) image_Un Int_Un_distrib Int_Un_distrib2)
  next
    case (Create_index i)
    with c1(1) have c1': "c1 = c\<lparr>cat_indexes := cat_indexes c @ [i]\<rparr>" "ix_name i \<notin> ix_name ` set (cat_indexes c)"
      by (auto split: if_splits)
    have "table_names c1 = table_names c" by (simp add: c1'(1) table_names_def)
    with later c1'(2) show ?thesis
      unfolding Create_index by (simp add: extends_def c1'(1) Int_Un_distrib Int_Un_distrib2)
  qed (use Cons.prems in auto)
qed

lemmas migration_tables = users_001_def events_001_def seats_001_def reservations_001_def payments_001_def

lemmas migration_scripts = upgrade_head_def upgrade_001_def upgrade_002_def downgrade_base_def downgrade_001_def
  downgrade_002_def ix_def

definition tables_001 :: "table list" where
  "tables_001 = [users_001, events_001, seats_001, reservations_001, payments_001]"

definition enums_001 :: "(string \<times> string list) list" where
  "enums_001 =
     [(''seat_status'', [''available'', ''hold'', ''sold'']),
      (''reservation_status'', [''held'', ''completed'', ''cancelled'']),
      (''payment_status'', [''pending'', ''completed'', ''failed''])]"

definition indexes_head :: "index list" where
  "indexes_head =
     [ix ''idx_users_email'' ''users'' [''email''], ix ''idx_events_start_at'' ''events'' [''start_at''],
      ix ''idx_seats_event_status'' ''seats'' [''event_id'', ''status''],
      ix ''idx_seats_held_until'' ''seats'' [''held_until''],
      ix ''idx_reservations_user_created'' ''reservations'' [''user_id'', ''created_at''],
      ix ''idx_payments_reservation'' ''payments'' [''reservation_id''],
      ix ''idx_reservations_status_expires'' ''reservations'' [''status'', ''expires_at'']]"

lemma upgrade_head_new: "new_tables upgrade_head = tables_001" "new_indexes upgrade_head = indexes_head"
  "list_all creates upgrade_head"
  by (simp_all add: upgrade_head_def upgrade_001_def upgrade_002_def tables_001_def indexes_head_def)

lemma enums_of_001: "concat (map enums_of tables_001) = enums_001"
  by code_simp

text \<open>What the foreign keys and the indexes of a catalogue refer to is there.\<close>

definition catalog_closed :: "catalog \<Rightarrow> bool" where
  "catalog_closed c \<longleftrightarrow> (\<forall>t \<in> set (cat_tables c). targets t \<subseteq> table_names c) \<and>
     (\<forall>i \<in> set (cat_indexes c). ix_table i \<in> table_names c)"

text \<open>The call that undoes a creation, whatever types of the database there are by then.\<close>

fun undo :: "ddl \<Rightarrow> ddl" where
  "undo (Create_table t) = Drop_table (tbl_name t)"
| "undo (Create_index i) = Drop_index (ix_name i) (ix_table i)"
| "undo d = d"

lemma undo_creation:
  assumes "creates d" and "run_ddl d c = Some c'" and "catalog_closed c"
  shows "run_ddl (undo d) (c'\<lparr>cat_enums := es\<rparr>) = Some (c\<lparr>cat_enums := es\<rparr>)" and "catalog_closed c'"
proof -
  have "run_ddl (undo d) (c'\<lparr>cat_enums := es\<rparr>) = Some (c\<lparr>cat_enums := es\<rparr>) \<and> catalog_closed c'"
  proof (cases d)
    case (Create_table t)
    with assms(2) have c': "c' = c\<lparr>cat_tables := cat_tables c @ [t], cat_enums := cat_enums c @ enums_of t\<rparr>"
      and new: "tbl_name t \<notin> table_names c" "targets t \<subseteq> table_names c" by (auto split: if_splits)
    have "\<forall>u \<in> set (cat_tables c). tbl_name u \<noteq> tbl_name t \<and> tbl_name t \<notin> targets u"
      "\<forall>i \<in> set (cat_indexes c). ix_table i \<noteq> tbl_name t"
      using new(1) assms(3) unfolding catalog_closed_def by (auto dest: in_table_names)
    then show ?thesis
      using new assms(3) by (auto simp: Create_table c' catalog_closed_def table_names_def)
  next
    case (Create_index i)
    with assms(2) have c': "c' = c\<lparr>cat_indexes := cat_indexes c @ [i]\<rparr>"
      and new: "ix_table i \<in> table_names c" "\<forall>j \<in> set (cat_indexes c). ix_name j \<noteq> ix_name i"
      by (auto simp: image_iff split: if_splits)
    then show ?thesis using assms(3) by (auto simp: Create_index catalog_closed_def table_names_def)
  qed (use assms(1) in auto)
  then show "run_ddl (undo d) (c'\<lparr>cat_enums := es\<rparr>) = Some (c\<lparr>cat_enums := es\<rparr>)" "catalog_closed c'" by auto
qed

lemma undo_creations:
  "list_all creates ds \<Longrightarrow> run_ddls ds c = Some c' \<Longrightarrow> catalog_closed c \<Longrightarrow>
    run_ddls (map undo (rev ds)) (c'\<lparr>cat_enums := es\<rparr>) = Some (c\<lparr>cat_enums := es\<rparr>)"
proof (induction ds arbitrary: c)
  case (Cons d ds)
  then obtain c1 where c1: "run_ddl d c = Some c1" "run_ddls ds c1 = Some c'" by (auto split: option.splits)
  note one = undo_creation [OF _ c1(1) Cons.prems(3)]
  from Cons c1 one have "run_ddls (map undo (rev ds)) (c'\<lparr>cat_enums := es\<rparr>) = Some (c1\<lparr>cat_enums := es\<rparr>)" by simp
  with one Cons.prems(1) show ?case by (simp add: run_ddls_append)
qed simp

lemma downgrade_undoes: "downgrade_base = map undo (rev upgrade_head)"
  by (simp add: migration_scripts migration_tables)

section \<open>Properties\<close>

text \<open>Executing a printed script; one without its \<open>Commit\<close> is rolled back when the client leaves.\<close>

fun run_printed :: "sql list \<Rightarrow> catalog \<Rightarrow> catalog \<Rightarrow> catalog option" where
  "run_printed [] done_so_far c = Some done_so_far"
| "run_printed (Begin # xs) done_so_far c = run_printed xs done_so_far done_so_far"
| "run_printed (Commit # xs) done_so_far c = run_printed xs c c"
| "run_printed (Statement d # xs) done_so_far c =
     (case run_ddl d c of None \<Rightarrow> None | Some c' \<Rightarrow> run_printed xs done_so_far c')"

lemma run_printed_statements:
  "run_printed (map Statement ds @ [Commit]) c0 c = run_ddls ds c"
  by (induction ds arbitrary: c) (simp_all split: option.split)

text \<open>
  A run of migrations is all or nothing: when it returns, every call of the scripts has taken
  effect on the committed catalogue, in order; when it raises, the committed catalogue is as it was. Asked for
  SQL it changes nothing, and what it prints does the same when it is executed.
\<close>

theorem migrations_all_or_nothing:
  assumes "alembic_laws A v"
  shows "wp (run_env A script)
    (\<lambda>_ w'. if offline (v w)
       then committed (v w') = committed (v w) \<and>
         (\<exists>xs. printed (v w') = printed (v w) @ xs \<and> (\<forall>c. run_printed xs c c = run_ddls script c))
       else run_ddls script (committed (v w)) = Some (committed (v w')) \<and> printed (v w') = printed (v w))
    (\<lambda>e w'. is_external e \<and> committed (v w') = committed (v w)) w"
  by (rule wp_mono [OF vcD [OF alembic_laws.vc_run_env [OF assms]]])
    (auto simp: run_printed_statements split: if_splits)

theorem migrations_all_or_nothing_witness:
  "wp (run_env mem_alembic upgrade_head)
    (\<lambda>_ w'. run_ddls upgrade_head empty_catalog = Some (committed (mig_view w')))
    (\<lambda>e w'. is_external e \<and> committed (mig_view w') = empty_catalog) (migration_start empty_catalog)"
  using migrations_all_or_nothing [OF mem_a.alembic_laws_axioms, of upgrade_head "migration_start empty_catalog"]
  by (simp add: migration_start_def) (auto elim!: wp_mono)

definition without_zone :: "column \<Rightarrow> column" where
  "without_zone c = (case col_type c of Timestamp z \<Rightarrow> c\<lparr>col_type := Timestamp False\<rparr> | _ \<Rightarrow> c)"

definition zoned :: "column \<Rightarrow> bool" where
  "zoned c \<longleftrightarrow> col_type c = Timestamp True"

text \<open>C39: the migrations build what the models declare, tables, columns, keys, constraints and indexes,
  except for the time columns: the models' are with a time zone, the migrated ones are not.\<close>

theorem migrations_build_the_models:
  "\<exists>c. run_ddls upgrade_head empty_catalog = Some c \<and>
     cat_tables c = map (\<lambda>t. t\<lparr>tbl_columns := map without_zone (tbl_columns t)\<rparr>) metadata_tables \<and>
     set (cat_indexes c) = set metadata_indexes \<and>
     map (\<lambda>t. filter zoned (tbl_columns t)) (cat_tables c) = [[], [], [], [], []] \<and>
     map (\<lambda>t. length (filter zoned (tbl_columns t))) metadata_tables = [1, 3, 1, 2, 1]"
proof -
  obtain c where up: "run_ddls upgrade_head empty_catalog = Some c"
    by (cases "run_ddls upgrade_head empty_catalog") (code_simp, blast)
  from creations_extend [OF upgrade_head_new(3) up] have c: "cat_tables c = tables_001" "cat_indexes c = indexes_head"
    by (simp_all add: extends_def upgrade_head_new empty_catalog_def)
  have "tables_001 = map (\<lambda>t. t\<lparr>tbl_columns := map without_zone (tbl_columns t)\<rparr>) metadata_tables"
    by (simp add: tables_001_def metadata_tables_def migration_tables User_table_def Event_table_def Seat_table_def
        Reservation_table_def Payment_table_def col_def without_zone_def seat_status_type_def
        reservation_status_type_def payment_status_type_def insert_commute)
  moreover have "set indexes_head = set metadata_indexes"
    by (auto simp: indexes_head_def metadata_indexes_def)
  moreover have "map (\<lambda>t. filter zoned (tbl_columns t)) tables_001 = [[], [], [], [], []]"
    "map (\<lambda>t. length (filter zoned (tbl_columns t))) metadata_tables = [1, 3, 1, 2, 1]"
    by code_simp+
  ultimately show ?thesis using up c by auto
qed

text \<open>C40: downgrading undoes an upgrade but for one thing: tables and indexes are as before, and the three
  enumeration types stay behind; so a second upgrade of the same database fails.\<close>

theorem downgrade_outcome:
  assumes "run_ddls upgrade_head c = Some c1" and "catalog_closed c"
  shows "run_ddls downgrade_base c1 = Some (c\<lparr>cat_enums := cat_enums c @ enums_001\<rparr>) \<and>
    run_ddls upgrade_head (c\<lparr>cat_enums := cat_enums c @ enums_001\<rparr>) = None"
proof -
  have "cat_enums c1 = cat_enums c @ enums_001"
    using creations_extend [OF upgrade_head_new(3) assms(1)] by (simp add: extends_def upgrade_head_new enums_of_001)
  then have c1: "c1\<lparr>cat_enums := cat_enums c @ enums_001\<rparr> = c1" by simp
  have down: "run_ddls downgrade_base c1 = Some (c\<lparr>cat_enums := cat_enums c @ enums_001\<rparr>)"
    using undo_creations [OF upgrade_head_new(3) assms, of "cat_enums c @ enums_001"]
    unfolding c1 downgrade_undoes .
  moreover have "run_ddls upgrade_head (c\<lparr>cat_enums := cat_enums c @ enums_001\<rparr>) \<noteq> Some c2" for c2
  proof
    assume "run_ddls upgrade_head (c\<lparr>cat_enums := cat_enums c @ enums_001\<rparr>) = Some c2"
    from creations_extend [OF upgrade_head_new(3) this] show False
      by (simp add: extends_def upgrade_head_new enums_of_001 enums_001_def)
  qed
  ultimately show ?thesis by auto
qed

text \<open>The catalogue of a new database, migrated.\<close>

definition head_catalog :: catalog where
  "head_catalog = the (run_ddls upgrade_head empty_catalog)"

theorem downgrade_outcome_witness:
  "run_ddls downgrade_base head_catalog = Some (empty_catalog\<lparr>cat_enums := enums_001\<rparr>)"
proof -
  have "run_ddls upgrade_head empty_catalog \<noteq> None" by code_simp
  then have up: "run_ddls upgrade_head empty_catalog = Some head_catalog" by (simp add: head_catalog_def)
  have "catalog_closed empty_catalog" by (simp add: catalog_closed_def empty_catalog_def)
  from downgrade_outcome [OF up this] show ?thesis by (simp add: empty_catalog_def)
qed

end
