(* ===== verification/Seed.thy ===== *)
theory Seed
  imports Reservation_Closing
begin

text \<open>
  The seeding script \<open>src/database/seed.py\<close>: the events of the seed files with the seats of every
  section, and the users of the load tests. The two files are given as what \<open>json.load\<close> makes of
  them, with the times as \<open>datetime.fromisoformat\<close> reads them.
\<close>

section \<open>seed.py\<close>

record seed_event =
  sv_name :: string
  sv_description :: "string option"
  sv_location :: string
  sv_start_at :: "exn + pydt"
  sv_end_at :: "exn + pydt"
  sv_total_seats :: int
  sv_prices :: "(string \<times> rat) list"

record seed_section =
  sn_code :: string
  sn_rows :: nat
  sn_per_row :: nat

record seed_user =
  su_id :: "string option"
  su_email :: string
  su_name :: string
  su_phone :: string

text \<open>\<open>f"{n:04d}"\<close> and its like: the digits, with zeros in front up to the width.\<close>

definition zero_pad :: "nat \<Rightarrow> nat \<Rightarrow> string" where
  "zero_pad width n = replicate (width - length (digits n)) (CHR ''0'') @ digits n"

definition test_users :: "seed_user list" where
  "test_users =
     [\<lparr>su_id = Some ''00000000-0000-0000-0000-000000000001'', su_email = ''devuser@test.com'',
       su_name = ''Dev User'', su_phone = ''010-0000-0001''\<rparr>] @
     map (\<lambda>i. \<lparr>su_id = None, su_email = ''user'' @ digits i @ ''@test.com'',
       su_name = ''Test User '' @ digits i, su_phone = ''010-1234-'' @ zero_pad 4 i\<rparr>) [1..<11] @
     map (\<lambda>i. \<lparr>su_id = Some (''10000000-0000-0000-0000-'' @ hex_digits 12 i),
       su_email = ''k6user'' @ digits i @ ''@test.com'',
       su_name = ''K6 Test User '' @ digits i, su_phone = ''010-9000-'' @ zero_pad 4 i\<rparr>) [1..<201]"

text \<open>An attribute of an object read after a commit loads its row again.\<close>

definition refresh_event :: "'w db_session \<Rightarrow> uuid \<Rightarrow> ('w, unit) py" where
  "refresh_event D i =
     bnd (q_events D (\<lambda>e. ev_id e = i)) (\<lambda>xs.
     if xs = [] then raising (OtherError ''ObjectDeletedError'') else ret ())"

definition add_row_seat ::
  "'w db_session \<Rightarrow> 'w runtime \<Rightarrow> uuid \<Rightarrow> string \<Rightarrow> rat \<Rightarrow> nat \<Rightarrow> nat \<Rightarrow> ('w, unit) py" where
  "add_row_seat D T event_id code pr row_idx seat_idx =
     bnd (uuid4 T) (\<lambda>i.
     add_seat D \<lparr>seat_id = i, seat_event = event_id, section_code = code,
       seat_row = zero_pad 2 row_idx, seat_number = int seat_idx, seat_status = Available, price = pr,
       held_by = None, held_until = None\<rparr>)"

definition add_section ::
  "'w db_session \<Rightarrow> 'w runtime \<Rightarrow> seed_event \<Rightarrow> uuid \<Rightarrow> seed_section \<Rightarrow> ('w, unit) py" where
  "add_section D T ev event_id sn =
     (case map_of (sv_prices ev) (sn_code sn) of
        None \<Rightarrow> raising (OtherError (''KeyError: '' @ sn_code sn))
      | Some pr \<Rightarrow>
          for_each (\<lambda>row_idx.
            for_each (add_row_seat D T event_id (sn_code sn) pr row_idx) [1..<Suc (sn_per_row sn)])
          [1..<Suc (sn_rows sn)])"

definition create_event ::
  "'w db_session \<Rightarrow> 'w runtime \<Rightarrow> seed_section list \<Rightarrow> seed_event \<Rightarrow> ('w, unit) py" where
  "create_event D T sections ev =
     bnd (uuid4 T) (\<lambda>i.
     bnd (lift_res (sv_start_at ev)) (\<lambda>start.
     bnd (lift_res (sv_end_at ev)) (\<lambda>finish.
     seqn (add_event D \<lparr>ev_id = i, event_name = sv_name ev, ev_description = sv_description ev,
       ev_location = sv_location ev, start_at = start, end_at = finish, total_seats = sv_total_seats ev,
       available_seats = sv_total_seats ev, event_created_at = start\<rparr>)
     (seqn (commit D)
     (seqn (refresh_event D i)
     (seqn (for_each (add_section D T ev i) sections)
     (seqn (commit D)
     (refresh_event D i))))))))"

definition seed_one_event ::
  "'w db_session \<Rightarrow> 'w runtime \<Rightarrow> seed_section list \<Rightarrow> seed_event \<Rightarrow> ('w, unit) py" where
  "seed_one_event D T sections ev =
     bnd (q_events D (\<lambda>e. event_name e = sv_name ev)) (\<lambda>existing.
     if existing \<noteq> [] then ret () else create_event D T sections ev)"

definition seed_one_user :: "'w db_session \<Rightarrow> 'w runtime \<Rightarrow> seed_user \<Rightarrow> ('w, unit) py" where
  "seed_one_user D T u =
     bnd (q_users D (\<lambda>x. usr_email x = su_email u)) (\<lambda>existing.
     if existing \<noteq> [] then ret ()
     else
       bnd (case su_id u of Some t \<Rightarrow> lift_res (uuid_parse t) | None \<Rightarrow> uuid4 T) (\<lambda>i.
       add_user D \<lparr>usr_id = i, usr_email = su_email u, hashed_password = ''$2b$12$dummy_hashed_password'',
         user_name = su_name u, usr_phone = Some (su_phone u), user_created_at = Naive 0\<rparr>))"

definition load_seed_data ::
  "'w db_session \<Rightarrow> 'w runtime \<Rightarrow> ('w, unit) py \<Rightarrow> exn + seed_event list \<Rightarrow> exn + seed_section list \<Rightarrow>
    ('w, unit) py" where
  "load_seed_data D T create_all events_json sections_json =
     seqn create_all
     (try_finally
       (try_except
         (bnd (lift_res events_json) (\<lambda>evs.
          bnd (lift_res sections_json) (\<lambda>sections.
          seqn (for_each (seed_one_event D T sections) evs)
          (seqn (for_each (seed_one_user D T) test_users)
          (commit D)))))
         (\<lambda>_. rollback D))
       (close_session D))"

section \<open>Rules\<close>

definition seats_per_event :: "seed_section list \<Rightarrow> nat" where
  "seats_per_event sections = sum_list (map (\<lambda>sn. sn_rows sn * sn_per_row sn) sections)"

text \<open>The session holds that many more seats of an event, available and with new identifiers.\<close>

definition seats_added :: "uuid \<Rightarrow> nat \<Rightarrow> vstate \<Rightarrow> vstate \<Rightarrow> bool" where
  "seats_added i k s t \<longleftrightarrow>
     (\<exists>new. t = s\<lparr>ses := (ses s)\<lparr>seats := seats (ses s) @ new\<rparr>, issued := rev (map seat_id new) @ issued s\<rparr> \<and>
        length new = k \<and> distinct (map seat_id new) \<and> set (map seat_id new) \<inter> set (issued s) = {} \<and>
        (\<forall>x \<in> set new. seat_event x = i \<and> seat_status x = Available))"

definition com_kept :: "vstate \<Rightarrow> vstate \<Rightarrow> bool" where
  "com_kept s t \<longleftrightarrow> com t = com s \<and> set (issued s) \<subseteq> set (issued t)"

lemma seats_added_none: "seats_added i 0 s s"
  by (simp add: seats_added_def)

lemma seats_added_one:
  assumes "u \<notin> set (issued s)" and "seat_id x = u" and "seat_event x = i" and "seat_status x = Available"
    and "t = s\<lparr>issued := u # issued s\<rparr>"
  shows "seats_added i 1 s (t\<lparr>ses := (ses t)\<lparr>seats := seats (ses t) @ [x]\<rparr>\<rparr>)"
  using assms unfolding seats_added_def by (intro exI [where x = "[x]"]) simp

lemma seats_added_trans:
  assumes "seats_added i k s t" and "seats_added i m t u"
  shows "seats_added i (k + m) s u"
proof -
  obtain xs where xs: "t = s\<lparr>ses := (ses s)\<lparr>seats := seats (ses s) @ xs\<rparr>, issued := rev (map seat_id xs) @ issued s\<rparr>"
    "length xs = k" "distinct (map seat_id xs)" "set (map seat_id xs) \<inter> set (issued s) = {}"
    "\<forall>x \<in> set xs. seat_event x = i \<and> seat_status x = Available"
    using assms(1) unfolding seats_added_def by blast
  obtain ys where ys: "u = t\<lparr>ses := (ses t)\<lparr>seats := seats (ses t) @ ys\<rparr>, issued := rev (map seat_id ys) @ issued t\<rparr>"
    "length ys = m" "distinct (map seat_id ys)" "set (map seat_id ys) \<inter> set (issued t) = {}"
    "\<forall>x \<in> set ys. seat_event x = i \<and> seat_status x = Available"
    using assms(2) unfolding seats_added_def by blast
  have new: "set (map seat_id ys) \<inter> set (map seat_id xs) = {}" "set (map seat_id ys) \<inter> set (issued s) = {}"
    using ys(4) xs(1) by auto
  show ?thesis
    unfolding seats_added_def
  proof (intro exI conjI)
    show "u = s\<lparr>ses := (ses s)\<lparr>seats := seats (ses s) @ (xs @ ys)\<rparr>,
        issued := rev (map seat_id (xs @ ys)) @ issued s\<rparr>"
      using xs(1) ys(1) by simp
    show "distinct (map seat_id (xs @ ys))" using xs(3) ys(3) new(1) by auto
  qed (use xs ys new in auto)
qed

lemma seats_added_kept: "seats_added i k s t \<Longrightarrow> com_kept s t"
  by (auto simp: seats_added_def com_kept_def)

lemma com_kept_trans: "com_kept s t \<Longrightarrow> com_kept t u \<Longrightarrow> com_kept s u"
  by (auto simp: com_kept_def)

lemma vc_for_each_seats:
  assumes "\<And>x s. x \<in> set xs \<Longrightarrow> vc v (f x) (\<lambda>_. seats_added i (g x) s) (\<lambda>_. com_kept s) s"
  shows "vc v (for_each f xs) (\<lambda>_. seats_added i (sum_list (map g xs)) s) (\<lambda>_. com_kept s) s"
  using assms
proof (induction xs arbitrary: s)
  case Nil
  then show ?case by (auto simp: for_each_def seats_added_none intro!: vc_ret)
next
  case (Cons x xs)
  have "vc v (f x) (\<lambda>_ t. vc v (for_each f xs) (\<lambda>_. seats_added i (sum_list (map g (x # xs))) s) (\<lambda>_. com_kept s) t)
      (\<lambda>_. com_kept s) s"
  proof (rule vc_conseq [OF Cons.prems])
    fix a t
    assume t: "seats_added i (g x) s t"
    have rest: "vc v (for_each f xs) (\<lambda>_. seats_added i (sum_list (map g xs)) t) (\<lambda>_. com_kept t) t"
      by (rule Cons.IH) (simp add: Cons.prems)
    show "vc v (for_each f xs) (\<lambda>_. seats_added i (sum_list (map g (x # xs))) s) (\<lambda>_. com_kept s) t"
      by (rule vc_conseq [OF rest])
        (use seats_added_trans [OF t] com_kept_trans [OF seats_added_kept [OF t]] in auto)
  qed simp_all
  then show ?case by (simp add: for_each_def vc_bnd)
qed

lemma vc_for_range_seats:
  assumes "\<And>x s. vc v (f x) (\<lambda>_. seats_added i k s) (\<lambda>_. com_kept s) s"
  shows "vc v (for_each f [1..<Suc n]) (\<lambda>_. seats_added i (n * k) s) (\<lambda>_. com_kept s) s"
proof -
  have "sum_list (map (\<lambda>_. k) [1..<Suc n]) = n * k" unfolding sum_list_triv by simp
  then show ?thesis using vc_for_each_seats [of "[1..<Suc n]" v f i "\<lambda>_. k" s] assms by metis
qed

text \<open>
  What seeding has done to the committed tables since \<open>s\<close>: rows were only added, none to the
  bookings; each new event has a name of its own and its \<open>n\<close> seats, or none yet.
\<close>

definition seed_rows :: "nat \<Rightarrow> vstate \<Rightarrow> uuid set \<Rightarrow> event list \<Rightarrow> seat list \<Rightarrow> bool" where
  "seed_rows n s used es xs \<longleftrightarrow>
     distinct (map ev_id es) \<and> distinct (map event_name es) \<and> distinct (map seat_id xs) \<and>
     (\<forall>e \<in> set es. ev_id e \<in> used - set (issued s) \<and> event_name e \<notin> event_name ` set (events (com s)) \<and>
        length (filter (\<lambda>x. seat_event x = ev_id e) xs) \<in> {0, n}) \<and>
     (\<forall>x \<in> set xs. seat_id x \<in> used - set (issued s) \<and> seat_event x \<in> ev_id ` set es \<and>
        seat_status x = Available)"

definition seeded :: "nat \<Rightarrow> vstate \<Rightarrow> vstate \<Rightarrow> bool" where
  "seeded n s t \<longleftrightarrow> set (issued s) \<subseteq> set (issued t) \<and>
     (\<exists>es xs us. com t = (com s)\<lparr>events := events (com s) @ es, seats := seats (com s) @ xs, users := users (com s) @ us\<rparr> \<and>
        seed_rows n s (set (issued t)) es xs)"

lemma seed_rows_mono: "seed_rows n s used es xs \<Longrightarrow> used \<subseteq> used' \<Longrightarrow> seed_rows n s used' es xs"
  unfolding seed_rows_def by blast

lemma seeded_start: "seeded n s s"
  unfolding seeded_def seed_rows_def
  by (intro conjI exI [where x = "[]"]) simp_all

lemma seeded_users:
  assumes "seeded n s t" and "com u = (com t)\<lparr>users := users (com t) @ us\<rparr>" and "set (issued t) \<subseteq> set (issued u)"
  shows "seeded n s u"
proof -
  obtain es xs us' where "com t = (com s)\<lparr>events := events (com s) @ es, seats := seats (com s) @ xs,
      users := users (com s) @ us'\<rparr>" "seed_rows n s (set (issued t)) es xs" "set (issued s) \<subseteq> set (issued t)"
    using assms(1) unfolding seeded_def by blast
  with assms(2,3) show ?thesis
    unfolding seeded_def
    by (intro conjI exI [where x = es] exI [where x = xs] exI [where x = "us' @ us"])
      (auto intro: seed_rows_mono)
qed

lemma seeded_kept: "seeded n s t \<Longrightarrow> com_kept t u \<Longrightarrow> seeded n s u"
  by (rule seeded_users [where us = "[]" and t = t]) (auto simp: com_kept_def)

text \<open>The commit of a new event, and that of its seats.\<close>

lemma seeded_event:
  assumes "seeded n s t" and "com u = (com t)\<lparr>events := events (com t) @ [e]\<rparr>"
    and "issued u = ev_id e # issued t" and "ev_id e \<notin> set (issued t)"
    and "event_name e \<notin> event_name ` set (events (com t))"
  shows "seeded n s u"
proof -
  obtain es xs us where t: "com t = (com s)\<lparr>events := events (com s) @ es, seats := seats (com s) @ xs,
      users := users (com s) @ us\<rparr>" "seed_rows n s (set (issued t)) es xs" "set (issued s) \<subseteq> set (issued t)"
    using assms(1) unfolding seeded_def by blast
  have no_seats: "filter (\<lambda>x. seat_event x = ev_id e) xs = []"
    using t(2) assms(4) by (force simp: seed_rows_def filter_empty_conv)
  have ids: "ev_id e \<notin> ev_id ` set es" "event_name e \<notin> event_name ` set es"
    using t assms(4,5) by (force simp: seed_rows_def)+
  have "seed_rows n s (set (issued u)) (es @ [e]) xs"
    using t(2,3) ids no_seats assms(3,4,5) unfolding seed_rows_def t(1) by auto
  with t(1,3) assms(2,3) show ?thesis
    unfolding seeded_def
    by (intro conjI exI [where x = "es @ [e]"] exI [where x = xs] exI [where x = us]) auto
qed

lemma seeded_seats:
  assumes "seeded n s t" and "com u = (com t)\<lparr>seats := seats (com t) @ new\<rparr>"
    and "issued u = rev (map seat_id new) @ issued t" and "set (map seat_id new) \<inter> set (issued t) = {}"
    and "distinct (map seat_id new)" and "length new = n"
    and "\<forall>x \<in> set new. seat_event x = i \<and> seat_status x = Available"
    and "i \<in> ev_id ` set (events (com t))" and "i \<notin> set (issued s)" and "i \<notin> ev_id ` set (events (com s))"
    and "i \<notin> seat_event ` set (seats (com t))"
  shows "seeded n s u"
proof -
  obtain es xs us where t: "com t = (com s)\<lparr>events := events (com s) @ es, seats := seats (com s) @ xs,
      users := users (com s) @ us\<rparr>" "seed_rows n s (set (issued t)) es xs" "set (issued s) \<subseteq> set (issued t)"
    using assms(1) unfolding seeded_def by blast
  have i: "i \<in> ev_id ` set es" using assms(8,10) t(1) by auto
  have old: "filter (\<lambda>x. seat_event x = i) xs = []" using assms(11) t(1) by (auto simp: filter_empty_conv)
  have count: "length (filter (\<lambda>x. seat_event x = k) (xs @ new)) =
      (if k = i then n else length (filter (\<lambda>x. seat_event x = k) xs))" for k
  proof (cases "k = i")
    case True
    then have "filter (\<lambda>x. seat_event x = k) new = new" using assms(7) by (simp add: filter_id_conv)
    with True old assms(6) show ?thesis by simp
  next
    case False
    then have "filter (\<lambda>x. seat_event x = k) new = []" using assms(7) by (auto simp: filter_empty_conv)
    with False show ?thesis by simp
  qed
  have apart: "set (map seat_id xs) \<inter> set (map seat_id new) = {}"
    using t(2) assms(4) unfolding seed_rows_def by fastforce
  have "seed_rows n s (set (issued u)) es (xs @ new)"
    unfolding seed_rows_def
  proof (intro conjI ballI)
    show "distinct (map seat_id (xs @ new))" using t(2) apart assms(5) by (simp add: seed_rows_def)
  next
    fix x
    assume "x \<in> set (xs @ new)"
    then show "seat_id x \<in> set (issued u) - set (issued s)" "seat_event x \<in> ev_id ` set es" "seat_status x = Available"
      using t(2,3) assms(3,4,7) i by (auto simp: seed_rows_def)
  next
    fix e
    assume "e \<in> set es"
    then show "ev_id e \<in> set (issued u) - set (issued s)" "event_name e \<notin> event_name ` set (events (com s))"
      "length (filter (\<lambda>x. seat_event x = ev_id e) (xs @ new)) \<in> {0, n}"
      using t(2) assms(3) unfolding count by (auto simp: seed_rows_def)
  qed (use t(2) in \<open>simp_all add: seed_rows_def\<close>)
  with t(1,3) assms(2,3) show ?thesis
    unfolding seeded_def
    by (intro conjI exI [where x = es] exI [where x = "xs @ new"] exI [where x = us]) auto
qed

text \<open>Everything known to the database has an identifier that was handed out.\<close>

definition ids_issued :: "vstate \<Rightarrow> bool" where
  "ids_issued s \<longleftrightarrow> ev_id ` set (events (com s)) \<union> seat_id ` set (seats (com s)) \<union>
     seat_event ` set (seats (com s)) \<subseteq> set (issued s)"

lemma ids_issued_seeded:
  assumes "ids_issued s" and "seeded n s t"
  shows "ids_issued t"
proof -
  obtain es xs us where t: "com t = (com s)\<lparr>events := events (com s) @ es, seats := seats (com s) @ xs,
      users := users (com s) @ us\<rparr>" "seed_rows n s (set (issued t)) es xs" "set (issued s) \<subseteq> set (issued t)"
    using assms(2) unfolding seeded_def by blast
  have "ev_id ` set es \<union> seat_id ` set xs \<union> seat_event ` set xs \<subseteq> set (issued t)"
    using t(2) by (auto simp: seed_rows_def)
  with assms(1) t(1,3) show ?thesis by (auto simp: ids_issued_def)
qed

text \<open>Between two steps of the script the session holds what is committed, and later new users.\<close>

definition seeding :: "nat \<Rightarrow> vstate \<Rightarrow> vstate \<Rightarrow> bool" where
  "seeding n s t \<longleftrightarrow> seeded n s t \<and> (\<exists>us. ses t = (com t)\<lparr>users := users (com t) @ us\<rparr>)"

context backend
begin

lemma vc_add_section:
  "vc v (add_section D T ev i sn) (\<lambda>_. seats_added i (sn_rows sn * sn_per_row sn) s) (\<lambda>_. com_kept s) s"
proof -
  have one: "vc v (add_row_seat D T i code pr r k) (\<lambda>_. seats_added i 1 s) (\<lambda>_. com_kept s) s" for code pr r k s
    unfolding add_row_seat_def
    by (rule vc_bnd, rule vc_uuid4, rule vc_add_seat, rule seats_added_one) (simp_all add: com_kept_def)
  have row: "vc v (for_each (add_row_seat D T i code pr r) [1..<Suc (sn_per_row sn)])
      (\<lambda>_. seats_added i (sn_per_row sn) s) (\<lambda>_. com_kept s) s" for code pr r s
    using vc_for_range_seats [OF one, where n = "sn_per_row sn"] unfolding mult_1_right .
  show ?thesis
    unfolding add_section_def
  proof (rule vc_case_option, goal_cases)
    case 1
    show ?case by (rule vc_raising) (simp add: com_kept_def)
  next
    case (2 pr)
    show ?case
      by (rule vc_for_range_seats [OF row])
  qed
qed

lemma vc_refresh_event:
  "Q () s \<Longrightarrow> (\<And>x. E x s) \<Longrightarrow> vc v (refresh_event D i) Q E s"
  unfolding refresh_event_def by (intro vc_bnd vc_q_events vc_if vc_raising vc_ret) auto

lemma vc_create_event:
  assumes "seeded (seats_per_event sections) s t" and "ses t = com t" and "ids_issued s"
    and "sv_name ev \<notin> event_name ` set (events (com t))"
  shows "vc v (create_event D T sections ev)
    (\<lambda>_ u. seeded (seats_per_event sections) s u \<and> ses u = com u)
    (\<lambda>_ u. seeded (seats_per_event sections) s u) t"
proof -
  let ?n = "seats_per_event sections"
  have loop: "vc v (for_each (add_section D T ev i) sections) (\<lambda>_. seats_added i ?n u) (\<lambda>_. com_kept u) u" for i u
    unfolding seats_per_event_def by (rule vc_for_each_seats) (rule vc_add_section)
  have keep: "seeded ?n s u" if "com_kept t u" for u by (rule seeded_kept [OF assms(1) that])
  have known: "ids_issued t" by (rule ids_issued_seeded [OF assms(3,1)])
  have old: "set (issued s) \<subseteq> set (issued t)" using assms(1) by (simp add: seeded_def)
  have created: "seeded ?n s u \<and> ses u = com u"
    if u: "u = commit_changes (r\<lparr>ses := (ses r)\<lparr>events := events (ses r) @ [stored_event r c e]\<rparr>\<rparr>)"
      and r: "r = t\<lparr>issued := ev_id e # issued t\<rparr>" and e: "ev_id e \<notin> set (issued t)" "event_name e = sv_name ev"
    for u r c e
  proof
    show "seeded ?n s u"
      by (rule seeded_event [OF assms(1), where e = "stored_event r c e"])
        (use assms(2,4) e in \<open>simp_all add: u r commit_changes_def stored_event_def\<close>)
  qed (simp add: u commit_changes_def)
  have filled: "vc v (seqn (commit D) (refresh_event D i))
      (\<lambda>_ u. seeded ?n s u \<and> ses u = com u) (\<lambda>_ u. seeded ?n s u) u2"
    if u2: "seats_added i ?n u1 u2" and u1: "seeded ?n s u1" "ses u1 = com u1" "i \<in> ev_id ` set (events (com u1))"
      and i: "i \<notin> set (issued t)" and same: "seats (com u1) = seats (com t)" for i u1 u2
  proof -
    obtain new where new: "u2 = u1\<lparr>ses := (ses u1)\<lparr>seats := seats (ses u1) @ new\<rparr>,
        issued := rev (map seat_id new) @ issued u1\<rparr>" "length new = ?n" "distinct (map seat_id new)"
        "set (map seat_id new) \<inter> set (issued u1) = {}"
        "\<forall>x \<in> set new. seat_event x = i \<and> seat_status x = Available"
      using u2 unfolding seats_added_def by blast
    have fresh: "i \<notin> set (issued s)" "i \<notin> ev_id ` set (events (com s))" "i \<notin> seat_event ` set (seats (com u1))"
      using i old known assms(3) same by (auto simp: ids_issued_def)
    have "seeded ?n s (commit_changes u2)"
      by (rule seeded_seats [OF u1(1) _ _ new(4,3,2,5) u1(3) fresh]) (simp_all add: commit_changes_def new(1) u1(2))
    moreover have "seeded ?n s (discard u2)"
      by (rule seeded_kept [OF u1(1)]) (simp add: com_kept_def discard_def new(1))
    ultimately show ?thesis
      by (intro vc_bnd vc_commit vc_refresh_event) (simp_all add: commit_changes_def)
  qed
  show ?thesis
    unfolding create_event_def
  proof (intro vc_bnd vc_uuid4 vc_lift_res vc_add_event vc_commit vc_refresh_event, goal_cases)
    case (1 i start finish c)
    let ?e = "\<lparr>ev_id = i, event_name = sv_name ev, ev_description = sv_description ev,
      ev_location = sv_location ev, start_at = start, end_at = finish, total_seats = sv_total_seats ev,
      available_seats = sv_total_seats ev, event_created_at = start\<rparr>"
    have new: "seeded ?n s u \<and> ses u = com u"
      if "u = commit_changes (t\<lparr>issued := i # issued t,
        ses := (ses (t\<lparr>issued := i # issued t\<rparr>))\<lparr>events := events (ses (t\<lparr>issued := i # issued t\<rparr>)) @
          [stored_event (t\<lparr>issued := i # issued t\<rparr>) c ?e]\<rparr>\<rparr>)" for u
      by (rule created [where r = "t\<lparr>issued := i # issued t\<rparr>" and e = ?e and c = c]) (use that 1 in simp_all)
    show ?case
      by (rule vc_conseq [OF loop], rule filled, assumption)
        (use 1 new [OF refl] in \<open>auto simp: commit_changes_def stored_event_def assms(2) intro: seeded_kept\<close>)
  next
    case (2 i start finish c x)
    then show ?case by (intro conjunct1 [OF created [OF refl]]) simp_all
  qed (auto intro!: keep simp: com_kept_def discard_def)
qed

lemma vc_seed_one_event:
  assumes "seeded (seats_per_event sections) s t" and "ses t = com t" and "ids_issued s"
  shows "vc v (seed_one_event D T sections ev)
    (\<lambda>_ u. seeded (seats_per_event sections) s u \<and> ses u = com u)
    (\<lambda>_ u. seeded (seats_per_event sections) s u) t"
  unfolding seed_one_event_def
proof (intro vc_bnd vc_q_events vc_if vc_ret, goal_cases)
  case (2 xs)
  then have "sv_name ev \<notin> event_name ` set (events (com t))"
    using rows_like_set [OF 2(1)] assms(2) by (auto simp: filter_empty_conv)
  then show ?case by (rule vc_create_event [OF assms])
qed (use assms in simp_all)

lemma vc_seed_one_user:
  assumes "seeding n s t"
  shows "vc v (seed_one_user D T u) (\<lambda>_. seeding n s) (\<lambda>_. seeded n s) t"
proof -
  have kept: "seeded n s (t\<lparr>issued := is\<rparr>)" if "set (issued t) \<subseteq> set is" for "is"
    by (rule seeded_kept [of n s t]) (use assms that in \<open>simp_all add: seeding_def com_kept_def\<close>)
  have added: "seeding n s (r\<lparr>ses := (ses r)\<lparr>users := users (ses r) @ [x]\<rparr>\<rparr>)"
    if "r = t\<lparr>issued := is\<rparr>" "set (issued t) \<subseteq> set is" for r x "is"
  proof -
    obtain us where us: "ses t = (com t)\<lparr>users := users (com t) @ us\<rparr>" using assms by (auto simp: seeding_def)
    have "seeded n s (r\<lparr>ses := (ses r)\<lparr>users := users (ses r) @ [x]\<rparr>\<rparr>)"
      by (rule seeded_kept [OF kept [OF that(2)]]) (simp add: that(1) com_kept_def)
    with us that(1) show ?thesis unfolding seeding_def by (auto intro!: exI [where x = "us @ [x]"])
  qed
  have same: "t = t\<lparr>issued := issued t\<rparr>" by simp
  show ?thesis
    unfolding seed_one_user_def
    by (intro vc_bnd vc_q_users vc_if vc_ret vc_case_option vc_uuid4 vc_lift_res vc_add_user added [OF same] added [OF refl])
      (use assms kept [of "issued t"] in \<open>auto simp: seeding_def\<close>)
qed

lemma vc_load_seed_data:
  assumes fresh: "fresh_session s" and ids: "ids_issued s"
    and create: "refines v create_all (\<lambda>s. insert (Inr (), s) (fails s))"
    and Q: "\<And>t. seeded (seats_per_event sections) s t \<Longrightarrow> Q () t"
    and E: "\<And>m t. seeded (seats_per_event sections) s t \<Longrightarrow> E (ExternalError m) t"
  shows "vc v (load_seed_data D T create_all evs (Inr sections)) Q E s"
proof -
  let ?n = "seats_per_event sections"
  have gone: "seeded ?n s (discard t)" if "seeded ?n s t" for t
    by (rule seeded_kept [OF that]) (simp add: com_kept_def discard_def)
  have committed: "seeded ?n s (commit_changes t)" if seeding: "seeding ?n s t" for t
  proof -
    obtain us where us: "ses t = (com t)\<lparr>users := users (com t) @ us\<rparr>" and t: "seeded ?n s t"
      using seeding unfolding seeding_def by blast
    show ?thesis by (rule seeded_users [OF t, where us = us]) (simp_all add: commit_changes_def us)
  qed
  have body: "vc v (bnd (lift_res evs) (\<lambda>evs. bnd (lift_res (Inr sections)) (\<lambda>sections.
      seqn (for_each (seed_one_event D T sections) evs) (seqn (for_each (seed_one_user D T) test_users) (commit D)))))
      (\<lambda>_. seeded ?n s) (\<lambda>_. seeded ?n s) s"
  proof (intro vc_bnd vc_lift_res, goal_cases)
    case (1 es ss)
    then have ss: "ss = sections" by simp
    show ?case
      unfolding ss
    proof (rule vc_for_each [where I = "\<lambda>t. seeded ?n s t \<and> ses t = com t"], goal_cases)
      case (1 ev t)
      then show ?case using vc_seed_one_event ids by blast
    next
      case 2
      show ?case using fresh by (simp add: seeded_start fresh_session_def)
    next
      case (3 t)
      show ?case
      proof (rule vc_bnd, rule vc_for_each [where I = "seeding ?n s"], goal_cases)
        case (1 u t)
        then show ?case by (intro vc_seed_one_user)
      next
        case 2
        then show ?case using 3 by (auto simp: seeding_def intro!: exI [where x = "[]"])
      next
        case (3 t)
        then show ?case by (intro vc_commit committed gone) (simp_all add: seeding_def)
      qed
    qed
  qed (simp_all add: seeded_start)
  show ?thesis
    unfolding load_seed_data_def
  proof (rule vc_bnd, rule vc_refines [OF create], goal_cases)
    case (1 a t)
    then have "t = s" by (auto simp: law_simps)
    show ?case
      unfolding \<open>t = s\<close>
    proof (rule vc_try_finally, rule vc_try_except, rule vc_conseq [OF body], goal_cases)
      case (1 a t)
      then show ?case by (cases a) (auto intro!: vc_close_session Q E gone)
    next
      case (2 e t)
      then show ?case by (intro vc_rollback vc_close_session Q E gone)
    qed
  next
    case (2 x t)
    then show ?case by (auto simp: law_simps intro: E seeded_start)
  qed
qed

end

lemma booking_ok_seeded:
  assumes "seeded n s t" and "booking_ok (com s)" and "ids_issued s"
  shows "booking_ok (com t)"
proof -
  obtain es xs us where t: "com t = (com s)\<lparr>events := events (com s) @ es, seats := seats (com s) @ xs,
      users := users (com s) @ us\<rparr>" "seed_rows n s (set (issued t)) es xs"
    using assms(1) unfolding seeded_def by blast
  note ok = booking_okD [OF assms(2)]
  have rows: "seats (com t) = seats (com s) @ xs" "reservations (com t) = reservations (com s)" using t(1) by simp_all
  have new: "seat_id x \<notin> seat_id ` set (seats (com s))" if "x \<in> set xs" for x
    using that t(2) assms(3) by (auto simp: seed_rows_def ids_issued_def)
  have holders: "holders (com t) x = holders (com s) x" for x by (simp add: holders_def rows)
  have nobody: "holders (com s) x = []" if "x \<in> set xs" for x
  proof -
    have "\<not> names r x" if "r \<in> set (reservations (com s))" for r
      using ok(3) [OF that] new [OF \<open>x \<in> set xs\<close>] by (auto simp: refers_ok_def names_def)
    then show ?thesis by (simp add: holders_def filter_empty_conv)
  qed
  have "refers_ok (com t) r" if "r \<in> set (reservations (com t))" for r
    using ok(3) [of r] that unfolding refers_ok_def rows by auto
  moreover have "seat_ok (com t) x" if "x \<in> set (seats (com t))" for x
    using that t(2) ok(4) [of x] nobody [of x] unfolding seat_ok_def holders rows
    by (auto simp: seed_rows_def)
  moreover have "distinct (map seat_id (seats (com t)))"
  proof -
    have "seat_id ` set (seats (com s)) \<inter> seat_id ` set xs = {}"
    proof (rule equals0I)
      fix i
      assume "i \<in> seat_id ` set (seats (com s)) \<inter> seat_id ` set xs"
      then have old: "i \<in> seat_id ` set (seats (com s))" and "i \<in> seat_id ` set xs" by (rule IntD1, rule IntD2)
      from this(2) show False
      proof (rule imageE)
        fix x
        assume "i = seat_id x" "x \<in> set xs"
        with new [of x] old show False by simp
      qed
    qed
    then show ?thesis using ok(1) t(2) unfolding rows by (simp add: seed_rows_def)
  qed
  ultimately show ?thesis using ok(2) by (simp add: booking_ok_def rows)
qed

section \<open>Properties\<close>

text \<open>C37: seeding adds rows only: events under names that no event had, each with as many available seats as the
  sections have, whatever the total the event states, or with none, where its creation broke off
  between the two commits; no reservation and no payment changes and the booking invariant is kept.
  A failing file, time or price ends the script without an exception; only the connection itself raises.\<close>

theorem seed_outcome:
  assumes "backend R D T v" and "fresh_session (v w)" and "booking_ok (com (v w))" and "ids_issued (v w)"
    and "refines v create_all (\<lambda>s. insert (Inr (), s) (fails s))"
    and "n = sum_list (map (\<lambda>sn. sn_rows sn * sn_per_row sn) sections)"
  shows "wp (load_seed_data D T create_all events_json (Inr sections))
    (\<lambda>_ w'. seeded n (v w) (v w') \<and> booking_ok (com (v w')))
    (\<lambda>x w'. is_external x \<and> seeded n (v w) (v w') \<and> booking_ok (com (v w'))) w"
  by (rule vcD, rule backend.vc_load_seed_data [OF assms(1,2,4,5)])
    (use booking_ok_seeded [OF _ assms(3,4)] assms(6) in \<open>auto simp: seats_per_event_def\<close>)

definition sample_seed :: seed_event where
  "sample_seed = \<lparr>sv_name = ''Concert'', sv_description = None, sv_location = ''Hall'', sv_start_at = Inr (Aware 0),
     sv_end_at = Inr (Aware 1), sv_total_seats = 500, sv_prices = [(''A'', 100)]\<rparr>"

theorem seed_outcome_witness:
  "wp (load_seed_data mem_db mem_runtime (ret ()) (Inr [sample_seed])
      (Inr [\<lparr>sn_code = ''A'', sn_rows = 2, sn_per_row = 3\<rparr>]))
    (\<lambda>_ w'. booking_ok (com (mview w'))) (\<lambda>x w'. is_external x) (start_mem empty_tables)"
  by (rule wp_mono [OF seed_outcome [OF mem_backend _ _ _ _ refl]])
    (auto simp: booking_ok_def ids_issued_def empty_tables_def refines_def ret_def)

end
