(* ===== verification/Original_Forecaster.thy ===== *)
theory Original_Forecaster
  imports Traffic_Forecaster
begin

text \<open>
  \<open>src/prediction/traffic_forecaster_original.py\<close>, the first version of the forecaster: four features
  instead of five, training curves that start at their peak, and a forecast that runs forward from the
  target time with the prediction of the network at each step. The training loop, the network's
  interface and the Monte Carlo samples are those of \<open>Traffic_Forecaster\<close>.
\<close>

section \<open>Features and training data\<close>

definition feature_row_v1 :: "nat \<Rightarrow> real \<Rightarrow> nat \<Rightarrow> real list" where
  "feature_row_v1 steps event_scale i =
     [t_fraction steps i, sin (2 * pi * t_fraction steps i), cos (2 * pi * t_fraction steps i), event_scale]"

definition build_features_v1 :: "nat \<Rightarrow> real \<Rightarrow> real list list" where
  "build_features_v1 steps event_scale = map (feature_row_v1 steps event_scale) [0..<steps]"

text \<open>A burst at the opening that decays to the baseline.\<close>

definition opening_burst_at :: "real \<Rightarrow> real \<Rightarrow> real \<Rightarrow> nat \<Rightarrow> real" where
  "opening_burst_at peak_rps decay baseline i = peak_rps * exp (- decay * real i) + baseline"

text \<open>One round of the loop: six draws, in the order of the code, give a sample.\<close>

definition append_event_v1 ::
  "'g rng \<Rightarrow> nat \<Rightarrow> (real list list \<times> real list) list \<times> 'g \<Rightarrow> (real list list \<times> real list) list \<times> 'g" where
  "append_event_v1 G seq_len sg =
     (let (event_scale, g1) = uniform G (1 / 10) 1 (snd sg);
          (u, g2) = uniform G 200 RPS_SCALE g1; peak_rps = u * event_scale;
          (decay, g3) = uniform G (3 / 100) (18 / 100) g2;
          (noise_std, g4) = uniform G (5 / 100) (20 / 100) g3;
          (baseline, g5) = uniform G 20 80 g4;
          rps = map (opening_burst_at peak_rps decay baseline) [0..<seq_len];
          (noise, g6) = normals G noise_std seq_len g5;
          clipped = map2 (\<lambda>r z. max 0 (r * (1 + z))) rps noise
      in (fst sg @ [(build_features_v1 seq_len event_scale, map (\<lambda>r. r / RPS_SCALE) clipped)], g6))"

definition generate_synthetic_data_v1 ::
  "'g rng \<Rightarrow> nat \<Rightarrow> nat \<Rightarrow> nat \<Rightarrow> (real list list \<times> real list) list" where
  "generate_synthetic_data_v1 G n_events seq_len seed =
     fst ((append_event_v1 G seq_len ^^ n_events) ([], default_rng G seed))"

section \<open>Training, loading and forecasts\<close>

definition train_and_save_v1 :: "'w torch \<Rightarrow> 'g rng \<Rightarrow> nat \<Rightarrow> ('w, unit) py" where
  "train_and_save_v1 N G epochs =
     seqn (make_model_dir N) (train_on N (generate_synthetic_data_v1 G 1000 96 42) epochs)"

definition load_forecaster_v1 :: "'w torch \<Rightarrow> 'g rng \<Rightarrow> ('w, unit) py" where
  "load_forecaster_v1 N G =
     bnd (model_exists N) (\<lambda>there.
     seqn (if there then ret () else train_and_save_v1 N G EPOCHS)
     (load_model N))"

definition forecast_at_v1 :: "pydt \<Rightarrow> int \<Rightarrow> real list list \<Rightarrow> nat \<Rightarrow> forecast_point" where
  "forecast_at_v1 target granularity samples i =
     (let rps = step_mean samples i * RPS_SCALE; margin = step_std samples i * RPS_SCALE * CI_Z in
      \<lparr>fp_timestamp = dt_plus target (minutes (int i * granularity)),
       predicted_rps = round1 (max 0 rps),
       fp_lower = round1 (max 0 (rps - margin)),
       fp_upper = round1 (rps + margin)\<rparr>)"

text \<open>
  A negative number of steps fails in \<open>np.full\<close>, before the network is asked; with no step the \<open>max\<close>
  of the log line raises \<open>ValueError\<close>.
\<close>

definition predict_v1 ::
  "'w torch \<Rightarrow> pydt \<Rightarrow> int \<Rightarrow> int \<Rightarrow> real \<Rightarrow> nat \<Rightarrow> ('w, forecast_point list) py" where
  "predict_v1 N target_datetime horizon_hours granularity_minutes event_scale mc_samples =
     (if granularity_minutes = 0 then raising (OtherError ''ZeroDivisionError'')
      else
        let steps = (horizon_hours * 60) div granularity_minutes in
        if steps < 0 then raising (ValueError ''negative dimensions are not allowed'')
        else
          bnd (draw_samples N (build_features_v1 (nat steps) event_scale) mc_samples) (\<lambda>samples.
          let points = map (forecast_at_v1 target_datetime granularity_minutes samples) [0..<nat steps] in
          if points = [] then raising (ValueError ''max() arg is an empty sequence'') else ret points))"

section \<open>The shape of the training data\<close>

definition sample_ok_v1 :: "nat \<Rightarrow> real list list \<times> real list \<Rightarrow> bool" where
  "sample_ok_v1 seq_len xy \<longleftrightarrow>
     length (fst xy) = seq_len \<and> (\<forall>row \<in> set (fst xy). length row = 4) \<and>
     length (snd xy) = seq_len \<and> (\<forall>y \<in> set (snd xy). 0 \<le> y)"

lemma append_event_v1_ok:
  assumes "draws_enough G"
  shows "\<exists>xy. fst (append_event_v1 G n sg) = fst sg @ [xy] \<and> sample_ok_v1 n xy"
proof -
  obtain scale g1 where 1: "uniform G (1 / 10) 1 (snd sg) = (scale, g1)" by fastforce
  obtain u g2 where 2: "uniform G 200 RPS_SCALE g1 = (u, g2)" by fastforce
  obtain decay g3 where 3: "uniform G (3 / 100) (18 / 100) g2 = (decay, g3)" by fastforce
  obtain sd g4 where 4: "uniform G (5 / 100) (20 / 100) g3 = (sd, g4)" by fastforce
  obtain base g5 where 5: "uniform G 20 80 g4 = (base, g5)" by fastforce
  obtain z g6 where 6: "normals G sd n g5 = (z, g6)" by fastforce
  have len: "length z = n"
    using 6 assms by (auto simp: draws_enough_def dest!: spec [where x = sd] spec [where x = n] spec [where x = g5])
  let ?xy = "(build_features_v1 n scale, map (\<lambda>r. r / RPS_SCALE)
    (map2 (\<lambda>r z. max 0 (r * (1 + z))) (map (opening_burst_at (u * scale) decay base) [0..<n]) z))"
  have "fst (append_event_v1 G n sg) = fst sg @ [?xy]"
    unfolding append_event_v1_def Let_def 1 2 3 4 5 6 prod.case fst_conv ..
  moreover have "sample_ok_v1 n ?xy"
    by (auto simp: sample_ok_v1_def len build_features_v1_def feature_row_v1_def RPS_SCALE_def)
  ultimately show ?thesis by blast
qed

lemma synthetic_data_v1_shape:
  assumes "draws_enough G"
  shows "length (generate_synthetic_data_v1 G n seq_len seed) = n \<and>
    (\<forall>xy \<in> set (generate_synthetic_data_v1 G n seq_len seed). sample_ok_v1 seq_len xy)"
  unfolding generate_synthetic_data_v1_def
proof (induction n)
  case (Suc n)
  then show ?case
    using append_event_v1_ok [OF assms, of seq_len "(append_event_v1 G seq_len ^^ n) ([], default_rng G seed)"]
    by auto
qed simp

section \<open>The shape of a forecast\<close>

lemma forecast_at_v1_bounds:
  assumes "\<forall>s \<in> set samples. length s = n \<and> (\<forall>y \<in> set s. 0 \<le> y)" and "i < n"
  shows "0 \<le> fp_lower (forecast_at_v1 d g samples i)"
    and "fp_lower (forecast_at_v1 d g samples i) \<le> predicted_rps (forecast_at_v1 d g samples i)"
    and "predicted_rps (forecast_at_v1 d g samples i) \<le> fp_upper (forecast_at_v1 d g samples i)"
proof -
  have "0 \<le> step_mean samples i * RPS_SCALE"
    using assms by (auto simp: RPS_SCALE_def intro!: step_mean_nonneg)
  moreover have "0 \<le> step_std samples i * RPS_SCALE * CI_Z"
    by (simp add: RPS_SCALE_def CI_Z_def step_std_nonneg)
  ultimately show "0 \<le> fp_lower (forecast_at_v1 d g samples i)"
    "fp_lower (forecast_at_v1 d g samples i) \<le> predicted_rps (forecast_at_v1 d g samples i)"
    "predicted_rps (forecast_at_v1 d g samples i) \<le> fp_upper (forecast_at_v1 d g samples i)"
    by (auto simp: forecast_at_v1_def Let_def intro!: round1_nonneg round1_mono)
qed

text \<open>
  The first version's points run forward from the target, one per step; the current version centres
  them on it (\<open>predict_shape\<close>), so the two are not interchangeable.
\<close>

lemma predict_v1_shape:
  assumes "torch_laws N v" and "0 < granularity" and "granularity \<le> horizon * 60" and "0 < mc_samples"
  shows "wp (predict_v1 N target horizon granularity event_scale mc_samples)
    (\<lambda>ps w'. v w' = v w \<and> int (length ps) = (horizon * 60) div granularity \<and>
      (\<forall>i < length ps. 0 \<le> fp_lower (ps ! i) \<and> fp_lower (ps ! i) \<le> predicted_rps (ps ! i) \<and>
         predicted_rps (ps ! i) \<le> fp_upper (ps ! i) \<and>
         fp_timestamp (ps ! i) = dt_plus target (minutes (int i * granularity))))
    (\<lambda>e w'. v w' = v w \<and> is_external e) w"
proof -
  define steps where "steps = (horizon * 60) div granularity"
  have steps: "0 < steps" using assms(2,3) by (simp add: steps_def pos_imp_zdiv_pos_iff)
  let ?points = "\<lambda>samples. map (forecast_at_v1 target granularity samples) [0..<nat steps]"
  have step: "predict_v1 N target horizon granularity event_scale mc_samples =
      bnd (draw_samples N (build_features_v1 (nat steps) event_scale) mc_samples) (\<lambda>samples. ret (?points samples))"
    using steps assms(2) by (simp add: predict_v1_def steps_def [symmetric] Let_def)
  show ?thesis
    unfolding step
  proof (rule vcD, rule vc_bnd, rule torch_laws.vc_draw_samples [OF assms(1)], rule vc_ret, goal_cases)
    case (1 samples)
    then have "\<forall>s \<in> set samples. length s = nat steps \<and> (\<forall>y \<in> set s. 0 \<le> y)"
      by (auto simp: build_features_v1_def less_imp_le)
    note bounds = forecast_at_v1_bounds [OF this]
    then show ?case
      using steps by (auto simp: steps_def [symmetric] forecast_at_v1_def Let_def)
  qed simp_all
qed

end
