(* ===== verification/Network.thy ===== *)
theory Network
  imports Original_Forecaster
begin

text \<open>
  The network of the forecaster: \<open>_RPSNet\<close> of \<open>src/prediction/traffic_forecaster.py\<close> and, with one feature
  less, of \<open>src/prediction/traffic_forecaster_original.py\<close>. The layers are PyTorch's, a record of operations
  with the shapes that its documentation promises; \<open>doc_layers\<close> are the formulas of that documentation. With
  such layers the network keeps what \<open>torch_laws\<close> asks of \<open>forward\<close>.
\<close>

section \<open>Layers\<close>

record lstm_shape =
  lstm_input :: nat
  lstm_hidden :: nat
  lstm_layers :: nat
  lstm_dropout :: real

text \<open>
  The modules of a \<open>Sequential\<close>; they work on the last dimension, so on one row of numbers. An LSTM takes
  the rows of a sequence and what its dropout draws. Weights are \<open>'p\<close> and \<open>'q\<close>; \<open>fits\<close> is the comparison of
  shapes that \<open>load_state_dict\<close> makes.
\<close>

datatype head_module = Linear nat nat | ReLU | Softplus

record ('p, 'q, 'm) layers =
  lstm_fits :: "lstm_shape \<Rightarrow> 'p \<Rightarrow> bool"
  lstm_rows :: "lstm_shape \<Rightarrow> 'p \<Rightarrow> 'm \<Rightarrow> real list list \<Rightarrow> exn + real list list"
  linear_fits :: "nat \<Rightarrow> nat \<Rightarrow> 'q \<Rightarrow> bool"
  linear_row :: "nat \<Rightarrow> nat \<Rightarrow> 'q \<Rightarrow> real list \<Rightarrow> exn + real list"
  relu :: "real \<Rightarrow> real"
  softplus :: "real \<Rightarrow> real"

definition rows_of :: "nat \<Rightarrow> real list list \<Rightarrow> bool" where
  "rows_of n xs \<longleftrightarrow> (\<forall>x \<in> set xs. length x = n)"

locale nn_laws =
  fixes L :: "('p, 'q, 'm) layers"
  assumes lstm_returns: "lstm_fits L c p \<Longrightarrow> xs \<noteq> [] \<Longrightarrow> rows_of (lstm_input c) xs \<Longrightarrow>
      \<exists>hs. lstm_rows L c p m xs = Inr hs \<and> length hs = length xs \<and> rows_of (lstm_hidden c) hs"
    and lstm_refuses: "lstm_fits L c p \<Longrightarrow> xs = [] \<or> \<not> rows_of (lstm_input c) xs \<Longrightarrow>
      \<exists>e. lstm_rows L c p m xs = Inl (ExternalError e)"
    and lstm_one_input: "lstm_fits L c p \<Longrightarrow> lstm_fits L c' p \<Longrightarrow> lstm_input c = lstm_input c'"
    and linear_returns: "linear_fits L i j q \<Longrightarrow> length x = i \<Longrightarrow> \<exists>y. linear_row L i j q x = Inr y \<and> length y = j"
    and softplus_positive: "0 < softplus L y"

section \<open>\<open>_RPSNet\<close>\<close>

record net =
  net_lstm :: lstm_shape
  net_head :: "head_module list"

text \<open>\<open>__init__\<close>, with the defaults of the two versions.\<close>

definition RPSNet :: "nat \<Rightarrow> nat \<Rightarrow> nat \<Rightarrow> net" where
  "RPSNet input_size hidden_size num_layers =
     \<lparr>net_lstm = \<lparr>lstm_input = input_size, lstm_hidden = hidden_size, lstm_layers = num_layers, lstm_dropout = 2 / 10\<rparr>,
      net_head = [Linear hidden_size 32, ReLU, Linear 32 1, Softplus]\<rparr>"

definition RPSNet_default :: net where "RPSNet_default = RPSNet 5 64 2"
definition RPSNet_v1_default :: net where "RPSNet_v1_default = RPSNet 4 64 2"

record ('p, 'q) weights =
  lstm_weights :: 'p
  head_weights :: "nat \<Rightarrow> 'q"

fun module_fits :: "('p, 'q, 'm) layers \<Rightarrow> 'q \<Rightarrow> head_module \<Rightarrow> bool" where
  "module_fits L q (Linear i j) = linear_fits L i j q"
| "module_fits L q _ = True"

definition net_fits :: "('p, 'q, 'm) layers \<Rightarrow> net \<Rightarrow> ('p, 'q) weights \<Rightarrow> bool" where
  "net_fits L net W \<longleftrightarrow> lstm_fits L (net_lstm net) (lstm_weights W) \<and>
     (\<forall>i < length (net_head net). module_fits L (head_weights W i) (net_head net ! i))"

fun apply_module :: "('p, 'q, 'm) layers \<Rightarrow> 'q \<Rightarrow> head_module \<Rightarrow> real list \<Rightarrow> exn + real list" where
  "apply_module L q (Linear i j) x = linear_row L i j q x"
| "apply_module L q ReLU x = Inr (map (relu L) x)"
| "apply_module L q Softplus x = Inr (map (softplus L) x)"

text \<open>\<open>self.head\<close> on one row: module \<open>k\<close> with the weights that \<open>state_dict\<close> has under its number.\<close>

fun apply_head ::
  "('p, 'q, 'm) layers \<Rightarrow> (nat \<Rightarrow> 'q) \<Rightarrow> nat \<Rightarrow> head_module list \<Rightarrow> real list \<Rightarrow> exn + real list" where
  "apply_head L qs k [] x = Inr x"
| "apply_head L qs k (m # ms) x =
     (case apply_module L (qs k) m x of Inl e \<Rightarrow> Inl e | Inr y \<Rightarrow> apply_head L qs (Suc k) ms y)"

text \<open>\<open>squeeze(-1)\<close>, which drops a last dimension of one, and the assignment of the result to a row of numbers.\<close>

fun squeeze_last :: "real list list \<Rightarrow> exn + real list" where
  "squeeze_last [] = Inr []"
| "squeeze_last ([y] # rows) = (case squeeze_last rows of Inl e \<Rightarrow> Inl e | Inr ys \<Rightarrow> Inr (y # ys))"
| "squeeze_last (_ # rows) = Inl (ValueError ''could not broadcast'')"

fun each_row :: "('a \<Rightarrow> exn + 'b) \<Rightarrow> 'a list \<Rightarrow> exn + 'b list" where
  "each_row f [] = Inr []"
| "each_row f (x # xs) =
     (case f x of
        Inl e \<Rightarrow> Inl e
      | Inr y \<Rightarrow> (case each_row f xs of Inl e \<Rightarrow> Inl e | Inr ys \<Rightarrow> Inr (y # ys)))"

definition net_forward ::
  "('p, 'q, 'm) layers \<Rightarrow> net \<Rightarrow> ('p, 'q) weights \<Rightarrow> 'm \<Rightarrow> real list list \<Rightarrow> exn + real list" where
  "net_forward L net W m x =
     (case lstm_rows L (net_lstm net) (lstm_weights W) m x of
        Inl e \<Rightarrow> Inl e
      | Inr h \<Rightarrow>
          (case each_row (apply_head L (head_weights W) 0 (net_head net)) h of
             Inl e \<Rightarrow> Inl e
           | Inr out \<Rightarrow> squeeze_last out))"

text \<open>
  The operation \<open>forward\<close> of \<open>Torch\<close> with this network: \<open>draw\<close> are the weights the process has loaded, which
  \<open>load_state_dict\<close> has checked, and what dropout draws for this call.
\<close>

definition run_net ::
  "('p, 'q, 'm) layers \<Rightarrow> net \<Rightarrow> ('w, ('p, 'q) weights \<times> 'm) py \<Rightarrow> real list list \<Rightarrow> ('w, real list) py" where
  "run_net L net draw x = bnd draw (\<lambda>(W, m). lift_res (net_forward L net W m x))"

definition draws_fitting ::
  "('w \<Rightarrow> 's) \<Rightarrow> ('p, 'q, 'm) layers \<Rightarrow> net \<Rightarrow> ('w, ('p, 'q) weights \<times> 'm) py \<Rightarrow> bool" where
  "draws_fitting v L net draw \<longleftrightarrow> refines v draw (\<lambda>s. {(Inr (W, m), s) | W m. net_fits L net W})"

definition with_net ::
  "'w torch \<Rightarrow> ('p, 'q, 'm) layers \<Rightarrow> net \<Rightarrow> ('w, ('p, 'q) weights \<times> 'm) py \<Rightarrow> 'w torch" where
  "with_net N L net draw = N\<lparr>forward := run_net L net draw\<rparr>"

section \<open>What the network returns\<close>

lemma each_row_returns:
  assumes "\<And>x. x \<in> set xs \<Longrightarrow> \<exists>y. f x = Inr y \<and> P y"
  shows "\<exists>ys. each_row f xs = Inr ys \<and> length ys = length xs \<and> (\<forall>y \<in> set ys. P y)"
  using assms
proof (induction xs)
  case (Cons x xs)
  then obtain y ys where "f x = Inr y" "P y" "each_row f xs = Inr ys" "length ys = length xs" "\<forall>y \<in> set ys. P y"
    by fastforce
  then show ?case by simp
qed simp

lemma refines_weaken: "refines v m S \<Longrightarrow> (\<And>s. S s \<subseteq> S' s) \<Longrightarrow> refines v m S'"
  by (auto simp: refines_def)

lemma squeeze_last_ones: "\<forall>r \<in> set rows. length r = 1 \<Longrightarrow> squeeze_last rows = Inr (concat rows)"
  by (induction rows rule: squeeze_last.induct) simp_all

context nn_laws
begin

lemma head_returns:
  assumes "net_fits L (RPSNet i h l) W" and "length x = h"
  shows "\<exists>y. apply_head L (head_weights W) 0 (net_head (RPSNet i h l)) x = Inr [y] \<and> 0 < y"
proof -
  have fits: "linear_fits L h 32 (head_weights W 0)" "linear_fits L 32 1 (head_weights W 2)"
    using assms(1) by (force simp: net_fits_def RPSNet_def All_less_Suc numeral_eq_Suc)+
  obtain y where y: "linear_row L h 32 (head_weights W 0) x = Inr y" "length y = 32"
    using linear_returns [OF fits(1) assms(2)] by blast
  obtain z where z: "linear_row L 32 1 (head_weights W 2) (map (relu L) y) = Inr z" "length z = 1"
    using linear_returns [OF fits(2), of "map (relu L) y"] y(2) by auto
  from z(2) obtain u where "z = [u]" by (auto simp: length_Suc_conv)
  with y z show ?thesis by (simp add: RPSNet_def softplus_positive numeral_2_eq_2)
qed

lemma net_returns:
  assumes "net_fits L (RPSNet i h l) W" and "xs \<noteq> []" and "rows_of i xs"
  shows "\<exists>ys. net_forward L (RPSNet i h l) W m xs = Inr ys \<and> length ys = length xs \<and> (\<forall>y \<in> set ys. 0 < y)"
proof -
  have fits: "lstm_fits L (net_lstm (RPSNet i h l)) (lstm_weights W)" using assms(1) by (simp add: net_fits_def)
  obtain hs where hs: "lstm_rows L (net_lstm (RPSNet i h l)) (lstm_weights W) m xs = Inr hs"
    "length hs = length xs" "rows_of h hs"
    using lstm_returns [OF fits assms(2)] assms(3) by (auto simp: RPSNet_def)
  obtain out where out: "each_row (apply_head L (head_weights W) 0 (net_head (RPSNet i h l))) hs = Inr out"
    "length out = length hs" "\<forall>r \<in> set out. \<exists>y. r = [y] \<and> 0 < y"
    using each_row_returns [of hs _ "\<lambda>r. \<exists>y. r = [y] \<and> 0 < y"] head_returns [OF assms(1)] hs(3)
    unfolding rows_of_def by meson
  have "squeeze_last out = Inr (concat out)" using out(3) by (intro squeeze_last_ones) auto
  moreover have "length (concat out) = length out" using out(3)
    by (induction out) auto
  moreover have "\<forall>y \<in> set (concat out). 0 < y" using out(3) by auto
  ultimately show ?thesis using hs out(1,2) by (simp add: net_forward_def)
qed

lemma net_refuses:
  assumes "net_fits L (RPSNet i h l) W" and "xs = [] \<or> \<not> rows_of i xs"
  shows "\<exists>e. net_forward L (RPSNet i h l) W m xs = Inl (ExternalError e)"
  using lstm_refuses [of "net_lstm (RPSNet i h l)" "lstm_weights W" xs m] assms
  by (auto simp: net_fits_def net_forward_def RPSNet_def)

lemma run_net_refines:
  assumes "draws_fitting v L (RPSNet i h l) draw"
  shows "refines v (run_net L (RPSNet i h l) draw xs)
    (\<lambda>s. if xs \<noteq> [] \<and> rows_of i xs then {(Inr ys, s) | ys. length ys = length xs \<and> (\<forall>y \<in> set ys. 0 < y)}
          else {(Inl (ExternalError e), s) | e. True})"
  unfolding refines_def
proof
  fix w
  have "(fst (draw w), v (snd (draw w))) \<in> {(Inr (W, m), v w) | W m. net_fits L (RPSNet i h l) W}"
    using assms by (simp add: draws_fitting_def refines_def)
  then obtain W m where draw: "fst (draw w) = Inr (W, m)" "v (snd (draw w)) = v w" "net_fits L (RPSNet i h l) W"
    by auto
  have run: "run_net L (RPSNet i h l) draw xs w = (net_forward L (RPSNet i h l) W m xs, snd (draw w))"
    by (cases "draw w") (use draw(1) in \<open>simp add: run_net_def bnd_def lift_res_def\<close>)
  show "(fst (run_net L (RPSNet i h l) draw xs w), v (snd (run_net L (RPSNet i h l) draw xs w)))
    \<in> (if xs \<noteq> [] \<and> rows_of i xs then {(Inr ys, v w) | ys. length ys = length xs \<and> (\<forall>y \<in> set ys. 0 < y)}
       else {(Inl (ExternalError e), v w) | e. True})"
    unfolding run using net_returns [OF draw(3), of xs m] net_refuses [OF draw(3), of xs m] draw(2) by auto
qed

text \<open>The interface the forecaster rests on holds for the network of the code.\<close>

lemma with_net_laws:
  assumes "torch_laws N v" and "draws_fitting v L (RPSNet i h l) draw"
  shows "torch_laws (with_net N L (RPSNet i h l) draw) v"
proof -
  have "refines v (run_net L (RPSNet i h l) draw xs)
      (\<lambda>s. {(Inr ys, s) | ys. length ys = length xs \<and> (\<forall>y \<in> set ys. 0 < y)} \<union> fails s)" for xs
    by (rule refines_weaken [OF run_net_refines [OF assms(2)]]) (auto simp: fails_def)
  with assms(1) show ?thesis by (simp add: torch_laws_def with_net_def)
qed

text \<open>On rows of the right width it cannot fail, so the samples of a forecast are always drawn.\<close>

lemma draw_samples_returns:
  assumes "draws_fitting v L (RPSNet i h l) draw" and "feats \<noteq> []" and "rows_of i feats"
  shows "wp (draw_samples (with_net N L (RPSNet i h l) draw) feats mc) (\<lambda>_ _. True) (\<lambda>_ _. False) w"
proof -
  have run: "wp (run_net L (RPSNet i h l) draw feats) (\<lambda>_ _. True) (\<lambda>_ _. False) w" for w
    by (rule vcD [where Q = "\<lambda>_ _. True" and E = "\<lambda>_ _. False"], rule vc_refines [OF run_net_refines [OF assms(1)]])
      (use assms(2,3) in auto)
  have "wp (foldM (\<lambda>samples j. bnd (run_net L (RPSNet i h l) draw feats) (\<lambda>ys. ret (samples @ [ys]))) acc js)
      (\<lambda>_ _. True) (\<lambda>_ _. False) w" for acc w and js :: "nat list"
  proof (induction js arbitrary: acc w)
    case (Cons j js)
    show ?case
      unfolding foldM.simps wp_bnd bnd_assoc bnd_ret by (rule wp_mono [OF run]) (auto intro: Cons.IH)
  qed (simp add: wp_def ret_def)
  then show ?thesis by (simp add: draw_samples_def with_net_def)
qed

end

lemma predict_network_returns:
  assumes "torch_laws N v" and "nn_laws L" and "draws_fitting v L RPSNet_default draw"
    and "0 < granularity" and "granularity \<le> horizon * 60"
  shows "wp (predict (with_net N L RPSNet_default draw) target horizon granularity event_scale mc_samples)
    (\<lambda>ps w'. v w' = v w \<and> forecast_ok target horizon granularity ps) (\<lambda>e w'. False) w"
proof -
  let ?N = "with_net N L RPSNet_default draw"
  have laws: "torch_laws ?N v"
    using nn_laws.with_net_laws [OF assms(2,1)] assms(3) unfolding RPSNet_default_def by blast
  have feats: "build_features SEQ_LEN event_scale \<noteq> []" "rows_of 5 (build_features SEQ_LEN event_scale)"
    by (simp_all add: build_features_def feature_row_def rows_of_def SEQ_LEN_def)
  have draws: "wp (draw_samples ?N (build_features SEQ_LEN event_scale) mc_samples)
      (\<lambda>samples w'. (length samples = mc_samples \<and> (\<forall>ys \<in> set samples. length ys = SEQ_LEN \<and> (\<forall>y \<in> set ys. 0 \<le> y)) \<and> v w' = v w) \<and> True)
      (\<lambda>e w'. (v w' = v w) \<and> False) w"
  proof (rule wp_conj)
    show "wp (draw_samples ?N (build_features SEQ_LEN event_scale) mc_samples) (\<lambda>_ _. True) (\<lambda>_ _. False) w"
      using assms(3) unfolding RPSNet_default_def by (rule nn_laws.draw_samples_returns [OF assms(2) _ feats])
    show "wp (draw_samples ?N (build_features SEQ_LEN event_scale) mc_samples)
        (\<lambda>samples w'. length samples = mc_samples \<and> (\<forall>ys \<in> set samples. length ys = SEQ_LEN \<and> (\<forall>y \<in> set ys. 0 \<le> y)) \<and> v w' = v w)
        (\<lambda>e w'. v w' = v w) w"
      by (rule vcD [where Q = "\<lambda>samples s. length samples = mc_samples \<and>
          (\<forall>ys \<in> set samples. length ys = SEQ_LEN \<and> (\<forall>y \<in> set ys. 0 \<le> y)) \<and> s = v w" and E = "\<lambda>e s. s = v w"],
          rule torch_laws.vc_draw_samples [OF laws])
        (auto simp: build_features_def less_imp_le)
  qed
  show ?thesis
    unfolding predict_def wp_bnd
  proof (rule wp_mono [OF draws], goal_cases)
    case (1 samples w')
    then have shape: "\<forall>ys \<in> set samples. length ys = SEQ_LEN \<and> (\<forall>y \<in> set ys. 0 \<le> y)" by blast
    obtain ps where "forecast_points target horizon granularity samples = Inr ps" "forecast_ok target horizon granularity ps"
      using forecast_points_shape [OF shape assms(4,5), of target] unfolding forecast_ok_def by blast
    with 1 show ?case by (simp add: wp_def ret_def)
  qed simp
qed

section \<open>The formulas of PyTorch's documentation\<close>

definition mat_vec :: "real list list \<Rightarrow> real list \<Rightarrow> real list" where
  "mat_vec A x = map (\<lambda>row. sum_list (map2 (*) row x)) A"

definition vec_plus :: "real list \<Rightarrow> real list \<Rightarrow> real list" where
  "vec_plus x y = map2 (+) x y"

definition sigmoid :: "real \<Rightarrow> real" where
  "sigmoid y = 1 / (1 + exp (- y))"

record gate =
  g_ih :: "real list list"
  g_hh :: "real list list"
  b_ih :: "real list"
  b_hh :: "real list"

record cell =
  gate_i :: gate
  gate_f :: gate
  gate_g :: gate
  gate_o :: gate

definition gate_at :: "(real \<Rightarrow> real) \<Rightarrow> gate \<Rightarrow> real list \<Rightarrow> real list \<Rightarrow> real list" where
  "gate_at act g x h =
     map act (vec_plus (vec_plus (mat_vec (g_ih g) x) (b_ih g)) (vec_plus (mat_vec (g_hh g) h) (b_hh g)))"

text \<open>One step of a layer from the hidden state \<open>h\<close> and the cell state \<open>s\<close>, and a layer over a sequence.\<close>

definition cell_step :: "cell \<Rightarrow> real list \<Rightarrow> real list \<Rightarrow> real list \<Rightarrow> real list \<times> real list" where
  "cell_step c h s x =
     (let i = gate_at sigmoid (gate_i c) x h; f = gate_at sigmoid (gate_f c) x h;
          g = gate_at tanh (gate_g c) x h; u = gate_at sigmoid (gate_o c) x h;
          s' = vec_plus (map2 (*) f s) (map2 (*) i g)
      in (map2 (*) u (map tanh s'), s'))"

fun run_cell :: "cell \<Rightarrow> real list \<Rightarrow> real list \<Rightarrow> real list list \<Rightarrow> real list list" where
  "run_cell c h s [] = []"
| "run_cell c h s (x # xs) =
     (case cell_step c h s x of (h', s') \<Rightarrow> h' # run_cell c h' s' xs)"

text \<open>Dropout multiplies what one layer hands to the next, entry by entry; after the last layer there is none.\<close>

type_synonym dropout_mask = "nat \<Rightarrow> nat \<Rightarrow> nat \<Rightarrow> real"

definition drop_out :: "(nat \<Rightarrow> nat \<Rightarrow> real) \<Rightarrow> real list list \<Rightarrow> real list list" where
  "drop_out m hs = map (\<lambda>t. map (\<lambda>j. m t j * hs ! t ! j) [0..<length (hs ! t)]) [0..<length hs]"

fun run_cells :: "nat \<Rightarrow> dropout_mask \<Rightarrow> nat \<Rightarrow> cell list \<Rightarrow> real list list \<Rightarrow> real list list" where
  "run_cells n m k [] xs = xs"
| "run_cells n m k (c # cs) xs =
     (let hs = run_cell c (replicate n 0) (replicate n 0) xs
      in if cs = [] then hs else run_cells n m (Suc k) cs (drop_out (m k) hs))"

definition gate_fits :: "nat \<Rightarrow> nat \<Rightarrow> gate \<Rightarrow> bool" where
  "gate_fits i h g \<longleftrightarrow> length (g_ih g) = h \<and> rows_of i (g_ih g) \<and> length (g_hh g) = h \<and> rows_of h (g_hh g) \<and>
     length (b_ih g) = h \<and> length (b_hh g) = h"

definition cell_fits :: "nat \<Rightarrow> nat \<Rightarrow> cell \<Rightarrow> bool" where
  "cell_fits i h c \<longleftrightarrow> 0 < h \<and> gate_fits i h (gate_i c) \<and> gate_fits i h (gate_f c) \<and> gate_fits i h (gate_g c) \<and>
     gate_fits i h (gate_o c)"

fun cells_fit :: "nat \<Rightarrow> nat \<Rightarrow> cell list \<Rightarrow> bool" where
  "cells_fit i h [] = False"
| "cells_fit i h (c # cs) = (cell_fits i h c \<and> (cs = [] \<or> cells_fit h h cs))"

definition doc_layers :: "(cell list, real list list \<times> real list, dropout_mask) layers" where
  "doc_layers =
     \<lparr>lstm_fits = (\<lambda>c p. length p = lstm_layers c \<and> cells_fit (lstm_input c) (lstm_hidden c) p),
      lstm_rows = (\<lambda>c p m xs.
        if xs = [] \<or> \<not> rows_of (lstm_input c) xs then Inl (ExternalError ''RuntimeError'')
        else Inr (run_cells (lstm_hidden c) m 0 p xs)),
      linear_fits = (\<lambda>i j q. length (fst q) = j \<and> rows_of i (fst q) \<and> length (snd q) = j),
      linear_row = (\<lambda>i j q x.
        if length x \<noteq> i then Inl (ExternalError ''RuntimeError'')
        else Inr (vec_plus (mat_vec (fst q) x) (snd q))),
      relu = (\<lambda>y. max 0 y),
      softplus = (\<lambda>y. if 20 < y then y else ln (1 + exp y))\<rparr>"

lemma gate_at_length: "gate_fits i h g \<Longrightarrow> length (gate_at act g x y) = h"
  by (simp add: gate_fits_def gate_at_def vec_plus_def mat_vec_def)

lemma gate_fits_input: "gate_fits i h g \<Longrightarrow> gate_fits i' h' g \<Longrightarrow> 0 < h \<Longrightarrow> i = i'"
  by (cases "g_ih g") (auto simp: gate_fits_def rows_of_def)

lemma cell_step_length:
  assumes "cell_fits i h c" and "length s = h"
  shows "length (fst (cell_step c y s x)) = h \<and> length (snd (cell_step c y s x)) = h"
proof -
  have "length (gate_at act (gate_i c) x y) = h" "length (gate_at act (gate_f c) x y) = h"
    "length (gate_at act (gate_g c) x y) = h" "length (gate_at act (gate_o c) x y) = h" for act
    using assms(1) by (auto simp: cell_fits_def gate_at_length)
  with assms(2) show ?thesis by (simp add: cell_step_def Let_def vec_plus_def)
qed

lemma run_cell_shape:
  "cell_fits i h c \<Longrightarrow> length s = h \<Longrightarrow> length (run_cell c y s xs) = length xs \<and> rows_of h (run_cell c y s xs)"
proof (induction xs arbitrary: y s)
  case (Cons x xs)
  obtain y' s' where step: "cell_step c y s x = (y', s')" by fastforce
  with cell_step_length [OF Cons.prems, of y x] have "length y' = h" "length s' = h" by simp_all
  then show ?case using Cons.IH [OF Cons.prems(1), of s' y'] by (simp add: step rows_of_def)
qed (simp add: rows_of_def)

lemma drop_out_shape: "rows_of h hs \<Longrightarrow> length (drop_out m hs) = length hs \<and> rows_of h (drop_out m hs)"
  by (auto simp: drop_out_def rows_of_def)

lemma run_cells_shape:
  "cells_fit i h cs \<Longrightarrow> length (run_cells h m k cs xs) = length xs \<and> rows_of h (run_cells h m k cs xs)"
proof (induction cs arbitrary: i k xs)
  case (Cons c cs)
  let ?hs = "run_cell c (replicate h 0) (replicate h 0) xs"
  have hs: "length ?hs = length xs" "rows_of h ?hs"
    using run_cell_shape [of i h c "replicate h 0"] Cons.prems by auto
  show ?case using Cons.prems Cons.IH [of h "Suc k" "drop_out (m k) ?hs"] hs drop_out_shape [OF hs(2), of "m k"]
    by (auto simp: Let_def)
qed simp

interpretation doc: nn_laws doc_layers
proof (unfold_locales, goal_cases)
  case (1 c p xs m)
  then show ?case using run_cells_shape [of "lstm_input c" "lstm_hidden c" p] by (simp add: doc_layers_def)
next
  case (3 c p c')
  then show ?case
    by (cases p) (auto simp: doc_layers_def cell_fits_def dest: gate_fits_input)
next
  case (5 y)
  have "0 < ln (1 + exp y)" by (rule ln_gt_zero) simp
  then show ?case by (simp add: doc_layers_def)
qed (auto simp: doc_layers_def vec_plus_def mat_vec_def)

section \<open>Properties\<close>

text \<open>Weights of the first version's network do not fit the current one, although both save theirs under one path.\<close>

lemma versions_do_not_share_weights:
  assumes "nn_laws L" and "net_fits L RPSNet_v1_default W"
  shows "\<not> net_fits L RPSNet_default W"
  using nn_laws.lstm_one_input [OF assms(1), of "net_lstm RPSNet_v1_default" "lstm_weights W" "net_lstm RPSNet_default"] assms(2)
  by (auto simp: net_fits_def RPSNet_default_def RPSNet_v1_default_def RPSNet_def)


text \<open>A network whose weights are all zero, without dropout.\<close>

definition zero_gate :: "nat \<Rightarrow> nat \<Rightarrow> gate" where
  "zero_gate i h = \<lparr>g_ih = replicate h (replicate i 0), g_hh = replicate h (replicate h 0),
     b_ih = replicate h 0, b_hh = replicate h 0\<rparr>"

definition zero_cell :: "nat \<Rightarrow> nat \<Rightarrow> cell" where
  "zero_cell i h = \<lparr>gate_i = zero_gate i h, gate_f = zero_gate i h, gate_g = zero_gate i h, gate_o = zero_gate i h\<rparr>"

definition zero_weights :: "(cell list, real list list \<times> real list) weights" where
  "zero_weights =
     \<lparr>lstm_weights = [zero_cell 5 64, zero_cell 64 64],
      head_weights = (\<lambda>k. if k = 0 then (replicate 32 (replicate 64 0), replicate 32 0) else ([replicate 32 0], [0]))\<rparr>"

lemma zero_weights_fit: "net_fits doc_layers RPSNet_default zero_weights"
  by (simp add: net_fits_def doc_layers_def RPSNet_default_def RPSNet_def zero_weights_def zero_cell_def zero_gate_def
      cell_fits_def gate_fits_def rows_of_def less_Suc_eq numeral_eq_Suc)

definition zero_draw :: "('w, (cell list, real list list \<times> real list) weights \<times> dropout_mask) py" where
  "zero_draw = ret (zero_weights, \<lambda>k t j. 1)"

lemma zero_draws: "draws_fitting v doc_layers RPSNet_default zero_draw"
  by (simp add: draws_fitting_def refines_def zero_draw_def ret_def zero_weights_fit)


end
