(* ===== verification/Validation.thy ===== *)
theory Validation
  imports Network
begin

text \<open>
  \<open>apps/core-api/validate_recurring.py\<close>: a script that forecasts two openings of one weekly sale and compares
  their peaks, with the part of \<open>datetime\<close> it needs: the constructor and the day of the week.
\<close>

section \<open>Dates\<close>

definition leap_year :: "int \<Rightarrow> bool" where
  "leap_year y \<longleftrightarrow> y mod 4 = 0 \<and> (y mod 100 \<noteq> 0 \<or> y mod 400 = 0)"

definition month_days :: "int \<Rightarrow> int list" where
  "month_days y = [31, if leap_year y then 29 else 28, 31, 30, 31, 30, 31, 31, 30, 31, 30, 31]"

text \<open>\<open>toordinal\<close>: 1 for the first of January of the year 1, a Monday.\<close>

definition day_ordinal :: "int \<Rightarrow> nat \<Rightarrow> int \<Rightarrow> int" where
  "day_ordinal y m d =
     (y - 1) * 365 + (y - 1) div 4 - (y - 1) div 100 + (y - 1) div 400 + sum_list (take (m - 1) (month_days y)) + d"

definition weekday :: "int \<Rightarrow> int" where
  "weekday ordinal = (ordinal + 6) mod 7"

text \<open>\<open>datetime(y, m, d, hour, minute)\<close>, in microseconds from the first of January 1970.\<close>

definition datetime :: "int \<Rightarrow> nat \<Rightarrow> int \<Rightarrow> int \<Rightarrow> int \<Rightarrow> pydt" where
  "datetime y m d hour minute =
     Naive (((day_ordinal y m d - day_ordinal 1970 1 1) * 24 * 60 + hour * 60 + minute) * 60 * 1000000)"

section \<open>The script\<close>

text \<open>What it prints: the two peaks with their times, the difference in per cent, the verdict, and a line per point.\<close>

record report =
  peak_tue :: real
  time_tue :: pydt
  peak_thu :: real
  time_thu :: pydt
  diff_pct :: real
  consistent :: bool
  curve :: "(pydt \<times> real \<times> real \<times> bool) list"

fun peak_of :: "forecast_point list \<Rightarrow> exn + real" where
  "peak_of [] = Inl (ValueError ''max() arg is an empty sequence'')"
| "peak_of (p # ps) = Inr (fold (\<lambda>q m. max m (predicted_rps q)) ps (predicted_rps p))"

definition time_of :: "real \<Rightarrow> forecast_point list \<Rightarrow> exn + pydt" where
  "time_of peak ps =
     (case List.find (\<lambda>p. predicted_rps p = peak) ps of
        Some p \<Rightarrow> Inr (fp_timestamp p)
      | None \<Rightarrow> Inl (OtherError ''IndexError''))"

definition curve_lines ::
  "real \<Rightarrow> forecast_point list \<Rightarrow> forecast_point list \<Rightarrow> exn + (pydt \<times> real \<times> real \<times> bool) list" where
  "curve_lines peak pts_tue pts_thu =
     (if length pts_thu < length pts_tue then Inl (OtherError ''IndexError'')
      else Inr (map (\<lambda>i. (fp_timestamp (pts_tue ! i), predicted_rps (pts_tue ! i), predicted_rps (pts_thu ! i),
        predicted_rps (pts_tue ! i) = peak)) [0..<length pts_tue]))"

definition TUE :: pydt where "TUE = datetime 2026 6 17 10 0"
definition THU :: pydt where "THU = datetime 2026 6 19 10 0"

definition validate_recurring :: "'w torch \<Rightarrow> 'g rng \<Rightarrow> ('w, report) py" where
  "validate_recurring N G =
     seqn (load_forecaster N G)
     (bnd (predict N TUE 6 15 (7 / 10) 40) (\<lambda>pts_tue.
      bnd (lift_res (peak_of pts_tue)) (\<lambda>peak1.
      bnd (lift_res (time_of peak1 pts_tue)) (\<lambda>time1.
      bnd (predict N THU 6 15 (7 / 10) 40) (\<lambda>pts_thu.
      bnd (lift_res (peak_of pts_thu)) (\<lambda>peak2.
      bnd (lift_res (time_of peak2 pts_thu)) (\<lambda>time2.
      seqn (raise_if (peak1 = 0) (OtherError ''ZeroDivisionError''))
      (let diff = \<bar>peak1 - peak2\<bar> / peak1 * 100 in
       bnd (lift_res (curve_lines peak1 pts_tue pts_thu)) (\<lambda>lines.
       ret \<lparr>peak_tue = peak1, time_tue = time1, peak_thu = peak2, time_thu = time2, diff_pct = diff,
         consistent = (diff < 2), curve = lines\<rparr>)))))))))"

section \<open>What it finds\<close>

lemma fold_max: "fold (\<lambda>q m. max m (f q)) ps (a::real) = Max (insert a (f ` set ps))"
proof (induction ps arbitrary: a)
  case (Cons p ps)
  have "insert (max a (f p)) (f ` set ps) \<noteq> {} \<and> Max (insert (max a (f p)) (f ` set ps)) = Max (insert a (f ` set (p # ps)))"
    by (cases "ps = []") (simp_all add: max.assoc)
  with Cons.IH show ?case by simp
qed simp

text \<open>The peak is the prediction at the target; the first point with that value is not after it.\<close>

lemma forecast_peak:
  assumes "forecast_ok target horizon granularity ps" and "ps \<noteq> []" and "0 < granularity"
  shows "peak_of ps = Inr (predicted_rps (ps ! (length ps div 2)))"
    and "\<exists>k \<le> length ps div 2. time_of (predicted_rps (ps ! (length ps div 2))) ps =
      Inr (dt_plus target (minutes ((int k - int (length ps div 2)) * granularity)))"
proof -
  let ?c = "length ps div 2"
  have c: "?c < length ps" using assms(2) by (cases ps) auto
  have le: "predicted_rps p \<le> predicted_rps (ps ! ?c)" if "p \<in> set ps" for p
    using that assms(1) by (auto simp: forecast_ok_def in_set_conv_nth)
  obtain p ps' where ps: "ps = p # ps'" using assms(2) by (cases ps) auto
  have "Max (predicted_rps ` set ps) = predicted_rps (ps ! ?c)"
    by (rule Max_eqI) (use le c in auto)
  then show "peak_of ps = Inr (predicted_rps (ps ! ?c))"
    by (simp add: ps fold_max)
  obtain q where q: "List.find (\<lambda>p. predicted_rps p = predicted_rps (ps ! ?c)) ps = Some q"
    using c by (cases "List.find (\<lambda>p. predicted_rps p = predicted_rps (ps ! ?c)) ps") (auto simp: find_None_iff dest: nth_mem)
  then obtain k where k: "k < length ps" "q = ps ! k" "\<forall>j < k. predicted_rps (ps ! j) \<noteq> predicted_rps (ps ! ?c)"
    by (auto simp: find_Some_iff)
  from k(3) have "k \<le> ?c" by (metis not_le)
  with k(1,2) assms(1) q show "\<exists>k \<le> ?c. time_of (predicted_rps (ps ! ?c)) ps =
      Inr (dt_plus target (minutes ((int k - int ?c) * granularity)))"
    by (auto simp: time_of_def forecast_ok_def)
qed

text \<open>
  A report has both peaks at the targets or, where rounding makes an earlier point equal, up to half the
  horizon before them, and a line for each of the twenty-four points. The script ends in a division by zero
  where the first peak rounds to nothing.
\<close>

definition at_or_before :: "pydt \<Rightarrow> pydt \<Rightarrow> bool" where
  "at_or_before target t \<longleftrightarrow> (\<exists>k \<le> 12. t = dt_plus target (minutes ((int k - 12) * 15)))"

lemma vc_load_forecaster:
  assumes "torch_laws N v" and "\<And>s'. forecaster_only s s' \<Longrightarrow> Q () s'"
    and "\<And>m s'. forecaster_only s s' \<Longrightarrow> E (ExternalError m) s'"
  shows "vc v (load_forecaster N G) Q E s"
  unfolding load_forecaster_def
  by (intro vc_bnd torch_laws.vc_model_exists [OF assms(1)] vc_if vc_ret torch_laws.vc_train_and_save [OF assms(1)]
      torch_laws.vc_load_model [OF assms(1)]) (auto intro: assms)

lemma validate_recurring_outcome:
  assumes "torch_laws N v"
  shows "wp (validate_recurring N G)
    (\<lambda>rep w'. forecaster_only (v w) (v w') \<and> at_or_before TUE (time_tue rep) \<and> at_or_before THU (time_thu rep) \<and>
      0 < peak_tue rep \<and> 0 \<le> peak_thu rep \<and> length (curve rep) = 24 \<and>
      (\<forall>(t, tue, thu, peak) \<in> set (curve rep). tue \<le> peak_tue rep \<and> (peak \<longleftrightarrow> tue = peak_tue rep)) \<and>
      (consistent rep \<longleftrightarrow> 100 * \<bar>peak_tue rep - peak_thu rep\<bar> < 2 * peak_tue rep))
    (\<lambda>e w'. forecaster_only (v w) (v w') \<and> (is_external e \<or> e = OtherError ''ZeroDivisionError'')) w"
proof -
  let ?Q = "\<lambda>rep s'. forecaster_only (v w) s' \<and> at_or_before TUE (time_tue rep) \<and> at_or_before THU (time_thu rep) \<and>
      0 < peak_tue rep \<and> 0 \<le> peak_thu rep \<and> length (curve rep) = 24 \<and>
      (\<forall>(t, tue, thu, peak) \<in> set (curve rep). tue \<le> peak_tue rep \<and> (peak \<longleftrightarrow> tue = peak_tue rep)) \<and>
      (consistent rep \<longleftrightarrow> 100 * \<bar>peak_tue rep - peak_thu rep\<bar> < 2 * peak_tue rep)"
  let ?E = "\<lambda>e s'. forecaster_only (v w) s' \<and> (is_external e \<or> e = OtherError ''ZeroDivisionError'')"
  have points: "\<exists>k t. length ps = 24 \<and> peak_of ps = Inr k \<and> 0 \<le> k \<and> (\<forall>p \<in> set ps. predicted_rps p \<le> k) \<and>
      time_of k ps = Inr t \<and> at_or_before target t"
    if "forecast_ok target 6 15 ps" for target ps
  proof -
    have len: "length ps = 24" using that by (simp add: forecast_ok_def)
    then have "ps \<noteq> []" by auto
    note peak = forecast_peak [OF that this, unfolded len]
    have each: "0 \<le> predicted_rps (ps ! i) \<and> predicted_rps (ps ! i) \<le> predicted_rps (ps ! 12)" if "i < 24" for i
      using \<open>forecast_ok target 6 15 ps\<close> that order_trans by (fastforce simp: forecast_ok_def len)
    then have "0 \<le> predicted_rps (ps ! 12)" "\<forall>p \<in> set ps. predicted_rps p \<le> predicted_rps (ps ! 12)"
      by (auto simp: len in_set_conv_nth)
    with peak len show ?thesis by (auto simp: at_or_before_def)
  qed
  have compare: "vc v (bnd (predict N THU 6 15 (7 / 10) 40) (\<lambda>pts_thu.
      bnd (lift_res (peak_of pts_thu)) (\<lambda>peak2.
      bnd (lift_res (time_of peak2 pts_thu)) (\<lambda>time2.
      seqn (raise_if (peak1 = 0) (OtherError ''ZeroDivisionError''))
      (let diff = \<bar>peak1 - peak2\<bar> / peak1 * 100 in
       bnd (lift_res (curve_lines peak1 pts_tue pts_thu)) (\<lambda>lines.
       ret \<lparr>peak_tue = peak1, time_tue = time1, peak_thu = peak2, time_thu = time2, diff_pct = diff,
         consistent = (diff < 2), curve = lines\<rparr>)))))) ?Q ?E s"
    if s: "forecaster_only (v w) s" and tue: "length pts_tue = 24" "0 \<le> peak1" "\<forall>p \<in> set pts_tue. predicted_rps p \<le> peak1"
      "at_or_before TUE time1" for s pts_tue peak1 time1
  proof (rule vc_bnd, rule torch_laws.vc_predict [OF assms])
    fix pts_thu
    assume "forecast_ok THU 6 15 pts_thu"
    from points [OF this] obtain peak2 time2 where thu: "length pts_thu = 24" "peak_of pts_thu = Inr peak2" "0 \<le> peak2"
      "time_of peak2 pts_thu = Inr time2" "at_or_before THU time2" by blast
    show "vc v (bnd (lift_res (peak_of pts_thu)) (\<lambda>peak2.
      bnd (lift_res (time_of peak2 pts_thu)) (\<lambda>time2.
      seqn (raise_if (peak1 = 0) (OtherError ''ZeroDivisionError''))
      (let diff = \<bar>peak1 - peak2\<bar> / peak1 * 100 in
       bnd (lift_res (curve_lines peak1 pts_tue pts_thu)) (\<lambda>lines.
       ret \<lparr>peak_tue = peak1, time_tue = time1, peak_thu = peak2, time_thu = time2, diff_pct = diff,
         consistent = (diff < 2), curve = lines\<rparr>))))) ?Q ?E s"
      unfolding thu(2,4) lift_res_simps bnd_ret Let_def curve_lines_def tue(1) thu(1) less_irrefl if_False
      by (intro vc_bnd vc_raise_if vc_ret)
        (use s tue thu in \<open>auto simp: field_simps intro!: vc_ret\<close>)
  qed (use s in simp_all)
  have "vc v (validate_recurring N G) ?Q ?E (v w)"
    unfolding validate_recurring_def
  proof (rule vc_bnd, rule vc_load_forecaster [OF assms], rule vc_bnd, rule torch_laws.vc_predict [OF assms], goal_cases)
    case (3 s pts_tue)
    from points [OF 3(2)] obtain peak1 time1 where tue: "length pts_tue = 24" "peak_of pts_tue = Inr peak1" "0 \<le> peak1"
      "\<forall>p \<in> set pts_tue. predicted_rps p \<le> peak1" "time_of peak1 pts_tue = Inr time1" "at_or_before TUE time1" by blast
    show ?case unfolding tue(2,5) lift_res_simps bnd_ret by (rule compare [OF 3(1) tue(1,3,4,6)])
  qed simp_all
  from vcD [OF this] show ?thesis .
qed

text \<open>
  The days are a Wednesday and a Friday, where the comments and the printed text say Tuesday and Thursday.
\<close>

lemma recurring_days: "weekday (day_ordinal 2026 6 17) = 2" "weekday (day_ordinal 2026 6 19) = 4"
  by code_simp+

lemma recurring_targets: "TUE = Naive 1781690400000000" "THU = dt_plus TUE (minutes (2 * 24 * 60))"
  by (simp_all add: TUE_def THU_def datetime_def day_ordinal_def month_days_def leap_year_def minutes_def numeral_eq_Suc)

text \<open>
  From the same samples, the forecasts for two dates differ in their times only; and the features of the
  samples do not name the date. What the script measures is the spread of the dropout.
\<close>

lemma forecast_ignores_date:
  assumes "forecast_points target horizon granularity samples = Inr ps"
  shows "\<exists>qs. forecast_points target' horizon granularity samples = Inr qs \<and>
    map predicted_rps qs = map predicted_rps ps \<and> map fp_lower qs = map fp_lower ps \<and> map fp_upper qs = map fp_upper ps"
  using assms by (auto simp: forecast_points_def forecast_at_def Let_def split: if_splits)

end
