(* ===== verification/Connections.thy ===== *)
theory Connections
  imports Models
begin

text \<open>
  \<open>src/database/db.py\<close> and \<open>src/redis/client.py\<close>: with which options a process makes its engine, its sessions
  and its Redis client, and what the options of the engine mean for the database. The pool is SQLAlchemy's
  \<open>QueuePool\<close>, as documented: it keeps up to \<open>pool_size\<close> connections open, opens up to \<open>max_overflow\<close> more
  while all are taken, and drops these when they come back.
\<close>

section \<open>Options\<close>

record engine_options =
  eo_url :: string
  pool_size :: nat
  max_overflow :: nat
  pool_pre_ping :: bool
  echo :: bool

definition engine_of :: "settings \<Rightarrow> engine_options" where
  "engine_of cfg =
     \<lparr>eo_url = database_url cfg, pool_size = 3, max_overflow = 1, pool_pre_ping = True, echo = debug cfg\<rparr>"

record session_options =
  autocommit :: bool
  autoflush :: bool

definition SessionLocal :: session_options where
  "SessionLocal = \<lparr>autocommit = False, autoflush = False\<rparr>"

text \<open>Times in seconds.\<close>

record redis_options =
  ro_url :: string
  decode_responses :: bool
  max_connections :: nat
  socket_connect_timeout :: nat
  socket_timeout :: nat
  socket_keepalive :: bool
  health_check_interval :: nat

definition redis_client_of :: "settings \<Rightarrow> redis_options" where
  "redis_client_of cfg =
     \<lparr>ro_url = redis_url cfg, decode_responses = True, max_connections = 100, socket_connect_timeout = 3,
      socket_timeout = 3, socket_keepalive = True, health_check_interval = 30\<rparr>"

section \<open>Pools\<close>

record pool =
  idle :: nat
  taken :: nat

definition opened :: "pool \<Rightarrow> nat" where
  "opened p = idle p + taken p"

definition new_pool :: pool where
  "new_pool = \<lparr>idle = 0, taken = 0\<rparr>"

text \<open>\<open>None\<close>: a caller waits, and gets a \<open>TimeoutError\<close> after thirty seconds.\<close>

definition checkout :: "engine_options \<Rightarrow> pool \<Rightarrow> pool option" where
  "checkout opts p =
     (if 0 < idle p then Some \<lparr>idle = idle p - 1, taken = Suc (taken p)\<rparr>
      else if opened p < pool_size opts + max_overflow opts then Some \<lparr>idle = 0, taken = Suc (taken p)\<rparr>
      else None)"

definition checkin :: "engine_options \<Rightarrow> pool \<Rightarrow> pool" where
  "checkin opts p =
     (if idle p < pool_size opts then \<lparr>idle = Suc (idle p), taken = taken p - 1\<rparr> else p\<lparr>taken := taken p - 1\<rparr>)"

text \<open>One pool per process; a pod starts with all its processes, which may stop one by one.\<close>

inductive fleet_step :: "engine_options \<Rightarrow> nat \<Rightarrow> pool list \<Rightarrow> pool list \<Rightarrow> bool" for opts workers where
  take: "i < length ps \<Longrightarrow> checkout opts (ps ! i) = Some p \<Longrightarrow> fleet_step opts workers ps (ps[i := p])"
| give: "i < length ps \<Longrightarrow> 0 < taken (ps ! i) \<Longrightarrow> fleet_step opts workers ps (ps[i := checkin opts (ps ! i)])"
| start: "fleet_step opts workers ps (ps @ replicate workers new_pool)"
| stop: "fleet_step opts workers (ps @ qs) ps"

inductive_cases fleet_stepE: "fleet_step opts workers ps qs"

inductive fleet :: "engine_options \<Rightarrow> nat \<Rightarrow> pool list \<Rightarrow> bool" for opts workers where
  empty: "fleet opts workers []"
| step: "fleet opts workers ps \<Longrightarrow> fleet_step opts workers ps qs \<Longrightarrow> fleet opts workers qs"

definition open_connections :: "pool list \<Rightarrow> nat" where
  "open_connections ps = sum_list (map opened ps)"

definition pool_ok :: "engine_options \<Rightarrow> pool \<Rightarrow> bool" where
  "pool_ok opts p \<longleftrightarrow> opened p \<le> pool_size opts + max_overflow opts"

lemma checkout_ok: "pool_ok opts p \<Longrightarrow> checkout opts p = Some q \<Longrightarrow> pool_ok opts q \<and> taken q = Suc (taken p)"
  by (auto simp: checkout_def pool_ok_def opened_def split: if_splits)

lemma checkin_ok: "pool_ok opts p \<Longrightarrow> 0 < taken p \<Longrightarrow> pool_ok opts (checkin opts p)"
  by (auto simp: checkin_def pool_ok_def opened_def)

lemma fleet_pools_ok: "fleet opts workers ps \<Longrightarrow> \<forall>p \<in> set ps. pool_ok opts p"
proof (induction rule: fleet.induct)
  case (step ps qs)
  have one: "\<forall>q \<in> set (ps[i := p]). pool_ok opts q" if "pool_ok opts p" for i p
    using step.IH that set_update_subset_insert [of ps i p] by auto
  from step.hyps(2) show ?case
  proof (rule fleet_stepE, goal_cases)
    case (1 i p)
    then show ?thesis using step.IH checkout_ok one nth_mem by blast
  next
    case (2 i)
    then show ?thesis using step.IH checkin_ok one nth_mem by blast
  qed (use step.IH in \<open>auto simp: pool_ok_def opened_def new_pool_def\<close>)
qed simp

lemma connections_bound:
  assumes "\<forall>p \<in> set ps. pool_ok opts p"
  shows "open_connections ps \<le> length ps * (pool_size opts + max_overflow opts)"
  using assms by (induction ps) (auto simp: open_connections_def pool_ok_def)

text \<open>A pool that takes as long as it can.\<close>

definition drained :: "engine_options \<Rightarrow> pool" where
  "drained opts = \<lparr>idle = 0, taken = pool_size opts + max_overflow opts\<rparr>"

lemma fleet_fills:
  assumes "fleet opts workers (ps @ new_pool # qs)"
  shows "fleet opts workers (ps @ drained opts # qs)"
proof -
  have "fleet opts workers (ps @ \<lparr>idle = 0, taken = k\<rparr> # qs)" if "k \<le> pool_size opts + max_overflow opts" for k
    using that
  proof (induction k)
    case (Suc k)
    then have "fleet opts workers (ps @ \<lparr>idle = 0, taken = k\<rparr> # qs)" by simp
    moreover have "fleet_step opts workers (ps @ \<lparr>idle = 0, taken = k\<rparr> # qs) (ps @ \<lparr>idle = 0, taken = Suc k\<rparr> # qs)"
      using fleet_step.take [of "length ps" "ps @ \<lparr>idle = 0, taken = k\<rparr> # qs" opts "\<lparr>idle = 0, taken = Suc k\<rparr>" workers] Suc.prems
      by (simp add: checkout_def opened_def)
    ultimately show ?case by (rule fleet.step)
  qed (use assms in \<open>simp add: new_pool_def\<close>)
  then show ?thesis by (simp add: drained_def)
qed

lemma fleet_fills_all:
  "fleet opts workers (ps @ replicate n new_pool) \<Longrightarrow> fleet opts workers (ps @ replicate n (drained opts))"
proof (induction n arbitrary: ps)
  case (Suc n)
  from fleet_fills [of opts workers ps "replicate n new_pool"] Suc.prems
  have "fleet opts workers ((ps @ [drained opts]) @ replicate n new_pool)" by simp
  from Suc.IH [OF this] show ?case by simp
qed simp

text \<open>
  With two workers a pod, the pods' processes never open more than eight connections each, and they
  can open all of them: forty-eight with the six pods of the comment in \<open>db.py\<close>, more than the two hundred of
  \<open>infra/k8s/base/shared/postgres.yaml\<close> from twenty-six pods on, where the autoscaler allows thirty.
\<close>

lemma fleet_connections:
  "fleet (engine_of cfg) 2 ps \<Longrightarrow> open_connections ps \<le> 4 * length ps"
  "\<exists>ps. fleet (engine_of cfg) 2 ps \<and> length ps = 2 * pods \<and> open_connections ps = 8 * pods"
proof -
  show "open_connections ps \<le> 4 * length ps" if "fleet (engine_of cfg) 2 ps"
    using connections_bound [OF fleet_pools_ok [OF that]] by (simp add: engine_of_def)
  have "fleet (engine_of cfg) 2 (replicate (2 * pods) new_pool)"
  proof (induction pods)
    case (Suc pods)
    from fleet.step [OF this fleet_step.start]
    have "fleet (engine_of cfg) 2 (replicate (2 * pods + 2) new_pool)" by (simp only: replicate_add)
    then show ?case by simp
  qed (simp add: fleet.empty)
  from fleet_fills_all [of "engine_of cfg" 2 "[]", simplified, OF this]
  show "\<exists>ps. fleet (engine_of cfg) 2 ps \<and> length ps = 2 * pods \<and> open_connections ps = 8 * pods"
    by (intro exI [where x = "replicate (2 * pods) (drained (engine_of cfg))"])
      (simp add: open_connections_def opened_def drained_def engine_of_def sum_list_replicate)
qed

end
