(* ===== verification/Accounts.thy ===== *)
theory Accounts
  imports Seed
begin

text \<open>
  \<open>src/auth/security.py\<close> and \<open>src/schemas/user_schema.py\<close>, which no endpoint uses yet. passlib's \<open>CryptContext\<close>
  with the scheme bcrypt is a parameter; its laws are passlib's documentation for passwords of up to 72
  ASCII characters, the part of a password that bcrypt looks at.
\<close>

section \<open>security.py\<close>

text \<open>\<open>crypt_hash\<close> is given the salt that \<open>hash\<close> draws.\<close>

record crypt_context =
  crypt_hash :: "string \<Rightarrow> string \<Rightarrow> exn + string"
  crypt_verify :: "string \<Rightarrow> string \<Rightarrow> exn + bool"

definition storable :: "string \<Rightarrow> bool" where
  "storable p \<longleftrightarrow> length p \<le> 72 \<and> (\<forall>c \<in> set p. 0 < char_code c \<and> char_code c < 128)"

text \<open>The forms bcrypt's texts have: the mark of the scheme, and no less than 59 characters.\<close>

definition bcrypt_text :: "string \<Rightarrow> bool" where
  "bcrypt_text h \<longleftrightarrow> starts_with ''$2'' h \<and> 59 \<le> length h"

locale crypt_laws =
  fixes C :: crypt_context
  assumes hash_returns: "storable p \<Longrightarrow> \<exists>h. crypt_hash C salt p = Inr h \<and> length h = 60"
    and verify_own: "storable p \<Longrightarrow> crypt_hash C salt p = Inr h \<Longrightarrow> crypt_verify C p h = Inr True"
    and nul_refused: "CHR 0x00 \<in> set p \<Longrightarrow> \<exists>m. crypt_hash C salt p = Inl (ValueError m)"
    and not_a_hash: "\<not> bcrypt_text h \<Longrightarrow> \<exists>m. crypt_verify C p h = Inl (ValueError m)"

definition hash_password :: "crypt_context \<Rightarrow> string \<Rightarrow> string \<Rightarrow> exn + string" where
  "hash_password C salt plain_password = crypt_hash C salt plain_password"

definition verify_password :: "crypt_context \<Rightarrow> string \<Rightarrow> string \<Rightarrow> exn + bool" where
  "verify_password C plain_password hashed = crypt_verify C plain_password hashed"

section \<open>user_schema.py\<close>

record user_base =
  ub_email :: string
  ub_name :: string
  ub_phone :: "string option"

record user_response = user_base +
  ub_user_id :: uuid

text \<open>\<open>from_attributes\<close>.\<close>

definition to_user_response :: "user \<Rightarrow> user_response" where
  "to_user_response u =
     \<lparr>ub_email = usr_email u, ub_name = user_name u, ub_phone = usr_phone u, ub_user_id = usr_id u\<rparr>"

section \<open>What holds\<close>

context crypt_laws
begin

text \<open>A password is accepted against its own hash, whatever the salt, and the hash fits its column.\<close>

lemma password_round_trip:
  assumes "storable p"
  obtains h where "hash_password C salt p = Inr h" "length h \<le> 255" "verify_password C p h = Inr True"
proof -
  obtain h where "crypt_hash C salt p = Inr h" "length h = 60" using hash_returns [OF assms] by blast
  with verify_own [OF assms] show thesis by (intro that [of h]) (simp_all add: hash_password_def verify_password_def)
qed

text \<open>
  The text that the seeding script writes is no hash: checking a password of a seeded user does not answer
  no, it raises.
\<close>

lemma seeded_hash_refused: "\<exists>m. verify_password C p ''$2b$12$dummy_hashed_password'' = Inl (ValueError m)"
  unfolding verify_password_def by (rule not_a_hash) (simp add: bcrypt_text_def)

end

text \<open>What \<open>seed_one_user\<close> writes for a new address: nothing else than that text.\<close>

lemma seeded_user_has_no_password:
  assumes "crypt_laws C" and "backend R D T v"
  shows "vc v (seed_one_user D T u) (\<lambda>_ s'. \<forall>x \<in> set (users (ses s')).
      x \<in> set (users (ses s)) \<or> (\<exists>m. verify_password C p (hashed_password x) = Inl (ValueError m))) (\<lambda>_ _. True) s"
proof -
  note rules = db_laws.vc_q_users [OF backend.axioms(2) [OF assms(2)]] db_laws.vc_add_user [OF backend.axioms(2) [OF assms(2)]]
    runtime_laws.vc_uuid4 [OF lock_services.axioms(2) [OF backend.axioms(1) [OF assms(2)]]]
  obtain m where "verify_password C p ''$2b$12$dummy_hashed_password'' = Inl (ValueError m)"
    using crypt_laws.seeded_hash_refused [OF assms(1)] by blast
  then show ?thesis
    unfolding seed_one_user_def
    by (intro vc_bnd rules vc_if vc_ret) (auto simp: stored_user_def
        intro!: rules vc_lift_res split: option.split)
qed

section \<open>An instance\<close>

text \<open>A hash that can be read, with the form of bcrypt's.\<close>

definition plain_digest :: "string \<Rightarrow> string" where
  "plain_digest p = take 60 (''$2b$12$'' @ p @ replicate 60 CHR ''.'')"

definition plain_crypt :: crypt_context where
  "plain_crypt =
     \<lparr>crypt_hash = (\<lambda>salt p. if CHR 0x00 \<in> set p then Inl (ValueError ''NUL'') else Inr (plain_digest p)),
      crypt_verify = (\<lambda>p h. if bcrypt_text h then Inr (h = plain_digest p) else Inl (ValueError ''hash could not be identified''))\<rparr>"

interpretation plain: crypt_laws plain_crypt
  by unfold_locales
    (auto simp: plain_crypt_def plain_digest_def bcrypt_text_def starts_with_def storable_def char_code_def split: if_splits)

end
