(* ===== verification/Observability.thy ===== *)
theory Observability
  imports Models
begin

text \<open>
  What the modules \<open>src/utils/logger.py\<close> and \<open>src/metrics.py\<close> do when they are loaded. \<open>logging\<close> belongs to the
  standard library; the registry is that of \<open>prometheus_client\<close>, as documented: it refuses a metric one of
  whose exposed names it has already.
\<close>

section \<open>logger.py\<close>

definition upper_char :: "char \<Rightarrow> char" where
  "upper_char c = (if 97 \<le> char_code c \<and> char_code c \<le> 122 then char_of (char_code c - 32) else c)"

definition py_upper :: "string \<Rightarrow> string" where
  "py_upper s = map upper_char s"

text \<open>The names \<open>setLevel\<close> knows.\<close>

definition LEVELS :: "(string \<times> nat) list" where
  "LEVELS =
     [(''CRITICAL'', 50), (''FATAL'', 50), (''ERROR'', 40), (''WARN'', 30), (''WARNING'', 30), (''INFO'', 20),
      (''DEBUG'', 10), (''NOTSET'', 0)]"

definition check_level :: "string \<Rightarrow> exn + nat" where
  "check_level name = (case map_of LEVELS name of Some n \<Rightarrow> Inr n | None \<Rightarrow> Inl (ValueError (''Unknown level: '' @ name)))"

record handler =
  handler_level :: nat
  handler_format :: string

record logger =
  logger_name :: string
  logger_level :: nat
  handlers :: "handler list"

text \<open>The logger \<open>getLogger(''core-api'')\<close> makes the first time; later it returns the same one.\<close>

definition new_logger :: logger where
  "new_logger = \<lparr>logger_name = ''core-api'', logger_level = 0, handlers = []\<rparr>"

text \<open>Loading the module: the level of the logger is set before that of the handler.\<close>

definition load_logger :: "settings \<Rightarrow> logger \<Rightarrow> exn + logger" where
  "load_logger cfg l =
     (case check_level (py_upper (log_level cfg)) of
        Inl e \<Rightarrow> Inl e
      | Inr n \<Rightarrow>
          let l = l\<lparr>logger_level := n\<rparr>;
              h = \<lparr>handler_level = n, handler_format = ''%(asctime)s - %(name)s - %(levelname)s - %(message)s''\<rparr>
          in Inr (if handlers l = [] then l\<lparr>handlers := [h]\<rparr> else l))"

text \<open>With the defaults lines from INFO on are written, each once, however often the module is loaded.\<close>

lemma default_level: "\<exists>l. load_logger (default_settings db_url secret) new_logger = Inr l \<and> logger_level l = 20"
proof -
  have "py_upper ''info'' = ''INFO''" by code_simp
  then show ?thesis
    by (simp add: load_logger_def default_settings_def check_level_def LEVELS_def new_logger_def Let_def)
qed

lemma load_logger_idempotent: "load_logger cfg l = Inr l' \<Longrightarrow> load_logger cfg l' = Inr l'"
  by (auto simp: load_logger_def Let_def split: sum.splits if_splits)

lemma one_handler: "load_logger cfg new_logger = Inr l \<Longrightarrow> length (handlers l) = 1"
  by (auto simp: load_logger_def new_logger_def Let_def split: sum.splits)

text \<open>A level that is spelled in any mix of cases will do; one that is not known stops the process.\<close>

lemma upper_lower: "upper_char (lower_char c) = upper_char c"
  by (auto simp: upper_char_def lower_char_def char_code_def)

lemma any_case:
  assumes "py_lower (log_level cfg) = py_lower (log_level cfg')"
  shows "load_logger cfg l = load_logger cfg' l"
proof -
  have upper: "py_upper s = py_upper (py_lower s)" for s by (simp add: py_upper_def py_lower_def upper_lower)
  have "py_upper (log_level cfg) = py_upper (log_level cfg')"
    using upper [of "log_level cfg"] upper [of "log_level cfg'"] assms by simp
  then show ?thesis by (simp add: load_logger_def)
qed

lemma unknown_level_stops:
  assumes "py_upper (log_level cfg) \<notin> fst ` set LEVELS"
  shows "\<exists>m. load_logger cfg l = Inl (ValueError m)"
proof -
  have "map_of LEVELS (py_upper (log_level cfg)) = None" using assms by (simp add: map_of_eq_None_iff)
  then show ?thesis by (simp add: load_logger_def check_level_def)
qed

section \<open>metrics.py\<close>

datatype metric_kind = Counter | Gauge | Histogram "real list"

record metric =
  metric_name :: string
  metric_doc :: string
  metric_kind :: metric_kind

definition duplicate_reservation_total :: metric where
  "duplicate_reservation_total =
     \<lparr>metric_name = ''duplicate_reservation_total'', metric_doc = ''Total duplicate reservation attempts blocked'',
      metric_kind = Counter\<rparr>"

definition reservation_duration_seconds :: metric where
  "reservation_duration_seconds =
     \<lparr>metric_name = ''reservation_duration_seconds'', metric_doc = ''Time spent processing reservations'',
      metric_kind = Histogram [1 / 100, 5 / 100, 1 / 10, 25 / 100, 5 / 10, 1, 25 / 10]\<rparr>"

definition predicted_replicas_gauge :: metric where
  "predicted_replicas_gauge =
     \<lparr>metric_name = ''predicted_replicas'', metric_doc = ''LSTM predicted required Pod count for upcoming event'',
      metric_kind = Gauge\<rparr>"

definition prescale_events_total :: metric where
  "prescale_events_total =
     \<lparr>metric_name = ''prescale_events_total'', metric_doc = ''Number of predictive pre-scale-up events triggered'',
      metric_kind = Counter\<rparr>"

definition METRICS :: "metric list" where
  "METRICS = [duplicate_reservation_total, reservation_duration_seconds, predicted_replicas_gauge, prescale_events_total]"

text \<open>The names under which a metric is exposed; a counter is declared with or without its \<open>_total\<close>.\<close>

definition base_name :: "string \<Rightarrow> string" where
  "base_name n = (let k = length n - 6 in if drop k n = ''_total'' then take k n else n)"

fun exposed_names :: "metric_kind \<Rightarrow> string \<Rightarrow> string list" where
  "exposed_names Counter n = (let b = base_name n in [b @ ''_total'', b @ ''_created'', b])"
| "exposed_names Gauge n = [n]"
| "exposed_names (Histogram _) n = [n @ ''_bucket'', n @ ''_sum'', n @ ''_count'', n @ ''_created'', n]"

definition names_of :: "metric \<Rightarrow> string list" where
  "names_of m = exposed_names (metric_kind m) (metric_name m)"

definition register :: "metric \<Rightarrow> string list \<Rightarrow> exn + string list" where
  "register m reg =
     (if set (names_of m) \<inter> set reg \<noteq> {} then Inl (ValueError ''Duplicated timeseries in CollectorRegistry'')
      else Inr (reg @ names_of m))"

fun register_all :: "metric list \<Rightarrow> string list \<Rightarrow> exn + string list" where
  "register_all [] reg = Inr reg"
| "register_all (m # ms) reg = (case register m reg of Inl e \<Rightarrow> Inl e | Inr reg' \<Rightarrow> register_all ms reg')"

text \<open>The buckets of a histogram go up; the last one, without a bound, is added by the library.\<close>

lemma buckets_ascend: "metric_kind m = Histogram bs \<Longrightarrow> m \<in> set METRICS \<Longrightarrow> sorted_wrt (<) bs \<and> 2 \<le> length bs"
  by (auto simp: METRICS_def duplicate_reservation_total_def reservation_duration_seconds_def predicted_replicas_gauge_def
      prescale_events_total_def)

lemmas metric_defs = METRICS_def names_of_def base_name_def duplicate_reservation_total_def
  reservation_duration_seconds_def predicted_replicas_gauge_def prescale_events_total_def

text \<open>The module can be loaded once: its names are all different, and a second load is refused.\<close>

lemma metrics_register: "register_all METRICS [] = Inr (concat (map names_of METRICS))"
  by (simp add: metric_defs register_def)

lemma registered_stay: "register_all ms reg = Inr reg' \<Longrightarrow> set reg \<subseteq> set reg'"
  by (induction ms arbitrary: reg) (fastforce simp: register_def split: sum.splits if_splits)+

lemma second_load_refused:
  assumes "register_all METRICS reg = Inr reg'"
  shows "\<exists>m. register_all METRICS reg' = Inl (ValueError m)"
proof -
  have "register_all METRICS reg = (case register duplicate_reservation_total reg of
      Inl e \<Rightarrow> Inl e | Inr r \<Rightarrow> register_all (tl METRICS) r)"
    by (simp add: METRICS_def cong: sum.case_cong)
  with assms obtain r where r: "register duplicate_reservation_total reg = Inr r" "register_all (tl METRICS) r = Inr reg'"
    by (auto split: sum.splits)
  then have "set (names_of duplicate_reservation_total) \<subseteq> set reg'"
    using registered_stay [OF r(2)] by (auto simp: register_def split: if_splits)
  moreover have "names_of duplicate_reservation_total \<noteq> []"
    by (simp add: metric_defs)
  ultimately show ?thesis by (cases "names_of duplicate_reservation_total") (auto simp: METRICS_def register_def)
qed

end
