(* ===== verification/Reliable_Runs.thy ===== *)
theory Reliable_Runs
  imports Reservation_Closing
begin

text \<open>
  What holding seats and the clean-up achieve when nothing fails, and what the parts under the lock then do with an
  object that is out of date. The properties of \<open>Reservation_Closing\<close> hold whatever the services
  behind the backend do, and a clean-up whose every call fails does nothing. Here the world has a condition \<open>calm\<close>
  under which each call of these methods succeeds, where it can at all, and leaves the world calm.
\<close>

section \<open>Calls that succeed\<close>

text \<open>\<open>P\<close> is what a call needs of the view to succeed; the view is watched together with the condition.\<close>

definition works :: "('w \<Rightarrow> 's) \<Rightarrow> ('w \<Rightarrow> bool) \<Rightarrow> ('s \<Rightarrow> bool) \<Rightarrow> ('w, 'a) py \<Rightarrow> bool" where
  "works v calm P m \<longleftrightarrow> (\<forall>w. calm w \<and> P (v w) \<longrightarrow> (\<exists>a. fst (m w) = Inr a) \<and> calm (snd (m w)))"

definition watched :: "('w \<Rightarrow> 's) \<Rightarrow> ('w \<Rightarrow> bool) \<Rightarrow> 'w \<Rightarrow> 's \<times> bool" where
  "watched v calm w = (v w, calm w)"

lemma calm_call:
  assumes "works v calm P m" and "P s" and "vc v m (\<lambda>a s'. Q a (s', True)) (\<lambda>_ _. True) s"
  shows "vc (watched v calm) m Q E (s, True)"
proof (rule vcI)
  fix w
  assume "watched v calm w = (s, True)"
  then have w: "v w = s" "calm w" by (simp_all add: watched_def)
  with assms(1,2) obtain a where "fst (m w) = Inr a" "calm (snd (m w))" by (auto simp: works_def)
  with vcD [of v m _ _ w] assms(3) w(1)
  show "wp m (\<lambda>a w'. Q a (watched v calm w')) (\<lambda>e w'. E e (watched v calm w')) w"
    by (cases "m w") (fastforce simp: wp_def watched_def)
qed

lemma worksI:
  assumes "\<And>s. P s \<Longrightarrow> vc (watched v calm) m (\<lambda>_. snd) (\<lambda>_ _. False) (s, True)"
  shows "works v calm P m"
  unfolding works_def
proof (intro allI impI)
  fix w
  assume "calm w \<and> P (v w)"
  with assms [of "v w"] have "vc (watched v calm) m (\<lambda>_. snd) (\<lambda>_ _. False) (watched v calm w)"
    by (simp add: watched_def)
  from vcD [OF this] show "(\<exists>a. fst (m w) = Inr a) \<and> calm (snd (m w))"
    by (auto simp: wp_def watched_def split: prod.splits sum.splits)
qed

lemma calm_run:
  assumes "vc (watched v calm) m (\<lambda>a p. Q a (fst p)) (\<lambda>_ _. False) (v w, True)" and "calm w"
  shows "wp m (\<lambda>a w'. Q a (v w')) (\<lambda>_ _. False) w"
proof -
  have "(v w, True) = watched v calm w" using assms(2) by (simp add: watched_def)
  from vcD [OF assms(1) [unfolded this]] show ?thesis by (simp add: watched_def)
qed

text \<open>The locks of all events, and the identifiers drawn so far.\<close>

definition locks_kept :: "vstate \<Rightarrow> vstate \<Rightarrow> bool" where
  "locks_kept s s' \<longleftrightarrow> issued s' = issued s \<and>
     (\<forall>e. rdb_get (LOCK_RESERVATION_KEY e) (redis s') = rdb_get (LOCK_RESERVATION_KEY e) (redis s))"

definition locks_free :: "vstate \<Rightarrow> bool" where
  "locks_free s \<longleftrightarrow> (\<forall>e. rdb_get (LOCK_RESERVATION_KEY e) (redis s) = None)"

text \<open>One turn of the loop, and the loop.\<close>

definition calm_turn :: "reservation \<Rightarrow> vstate \<Rightarrow> vstate \<Rightarrow> bool" where
  "calm_turn r s s' \<longleftrightarrow> com s' = (if res_status r = Held then cancel_tables r (com s) else com s) \<and>
     locks_free s' \<and> tidy s' \<and> length (issued s') = Suc (length (issued s))"

text \<open>
  An identifier can be drawn while there is one that was not; a row can be loaded again while it is there.
\<close>

locale calm_backend = backend R D T v
  for R :: "'w redis_client" and D :: "'w db_session" and T :: "'w runtime" and v :: "'w \<Rightarrow> vstate" +
  fixes calm :: "'w \<Rightarrow> bool"
  assumes calm_set_nx: "works v calm (\<lambda>_. True) (r_set_nx R k val ttl)"
    and calm_pipeline: "works v calm (\<lambda>_. True) (r_pipeline R cs)"
    and calm_eval: "works v calm (\<lambda>_. True) (r_eval R script)"
    and calm_uuid4: "works v calm (\<lambda>s. length (issued s) + 1 < 2 ^ 128) (uuid4 T)"
    and calm_utcnow: "works v calm (\<lambda>_. True) (utcnow T)"
    and calm_q_seats_for_update: "works v calm (\<lambda>_. True) (q_seats_for_update D P)"
    and calm_save_seat: "works v calm (\<lambda>_. True) (save_seat D seat)"
    and calm_reload_seats: "works v calm (\<lambda>s. seat_id ` set xs \<subseteq> seat_id ` set (seats (ses s))) (reload_seats D xs)"
    and calm_q_reservations: "works v calm (\<lambda>_. True) (q_reservations D PR)"
    and calm_assign: "works v calm (\<lambda>_. True) (assign_reservation_status D i st)"
    and calm_reload_reservation: "works v calm
      (\<lambda>s. reservation_id r \<in> reservation_id ` set (reservations (ses s))) (reload_reservation D r)"
    and calm_insert_reservation: "works v calm (\<lambda>s. length (reservations (ses s)) + 1 < 2 ^ 128)
      (insert_reservation D u e sids st ex)"
    and calm_inc_duplicates: "works v calm (\<lambda>_. True) (inc_duplicates T)"
    and calm_flush: "works v calm (\<lambda>_. True) (flush D)"
    and calm_commit: "works v calm (\<lambda>_. True) (commit D)"
begin

lemma works_get_by_id: "works v calm (\<lambda>_. True) (reservation_get_by_id D i)"
  unfolding reservation_get_by_id_def
  by (rule worksI, rule vc_bnd, rule calm_call [OF calm_q_reservations]) (auto intro!: vc_q_reservations vc_ret)

lemma works_update_status: "works v calm (\<lambda>_. True) (reservation_update_status D i st)"
proof (rule worksI, unfold reservation_update_status_def, rule vc_bnd, rule calm_call [OF works_get_by_id], simp)
  fix s :: vstate
  show "vc v (reservation_get_by_id D i) (\<lambda>r s'. vc (watched v calm) (case r of None \<Rightarrow> ret None
      | Some x \<Rightarrow> seqn (assign_reservation_status D i st) (seqn (flush D) (ret (Some (x\<lparr>res_status := st\<rparr>)))))
      (\<lambda>_. snd) (\<lambda>_ _. False) (s', True)) (\<lambda>_ _. True) s"
    unfolding reservation_get_by_id_def
    by (intro vc_bnd vc_q_reservations vc_ret vc_case_option calm_call [OF calm_assign] vc_assign_reservation_status
        calm_call [OF calm_flush] vc_flush) (simp_all add: vc_ret)
qed

lemma calm_save_seats:
  "Q () (s\<lparr>ses := fold (\<lambda>x. put_seat (f x)) xs (ses s)\<rparr>, True) \<Longrightarrow>
    vc (watched v calm) (for_each (\<lambda>x. save_seat D (f x)) xs) Q E (s, True)"
  unfolding for_each_def
proof (induction xs arbitrary: s)
  case Nil
  then show ?case by (auto intro: vc_ret)
next
  case (Cons x xs)
  from Cons.prems show ?case by (auto intro!: vc_bnd calm_call [OF calm_save_seat] vc_save_seat Cons.IH)
qed

lemma works_publish: "works v calm (\<lambda>_. True) (publish_seat_update R T e xs st)"
  unfolding publish_seat_update_def
  by (rule worksI, rule vc_bnd, rule calm_call [OF calm_utcnow])
    (auto intro!: vc_utcnow vc_try_except calm_call [OF calm_pipeline] vc_pipeline)

lemma calm_publish: "(\<And>s'. ses s' = ses s \<Longrightarrow> Q () (s', True)) \<Longrightarrow> vc (watched v calm) (publish_seat_update R T e xs st) Q E (s, True)"
  by (rule calm_call [OF works_publish]) (auto intro: vc_publish_seat_update)

lemma fold_put_seat_ids: "map seat_id (seats (fold (\<lambda>x. put_seat (f x)) xs t)) = map seat_id (seats t)"
  by (induction xs arbitrary: t) (simp_all add: put_seat_def comp_def if_distrib cong: if_cong)

lemma put_seat_ids: "seat_id ` set (seats (fold (\<lambda>x. put_seat (f x)) xs t)) = seat_id ` set (seats t)"
  using fold_put_seat_ids by (metis list.set_map)

lemma works_close_announced:
  "works v calm (\<lambda>s. ses s = com s \<and> booking_ok (com s) \<and> refers_ok (com s) r)
    (bnd (named_seats_for_update D r) (\<lambda>xs.
      seqn (for_each (\<lambda>x. save_seat D (f x)) xs)
      (seqn (reservation_update_status D (reservation_id r) st)
      (seqn (commit D)
      (bnd (reload_seats D xs) (\<lambda>ys.
      seqn (drop_hold_keys R e ys) (seqn (publish_seat_update R T e ys st') (ret (g ys)))))))))"
proof (rule worksI)
  fix s :: vstate
  assume s: "ses s = com s \<and> booking_ok (com s) \<and> refers_ok (com s) r"
  then obtain us where us: "parse_seat_ids (res_seat_ids r) = Inr us" using refers_parse by blast
  show "vc (watched v calm) (bnd (named_seats_for_update D r) (\<lambda>xs.
      seqn (for_each (\<lambda>x. save_seat D (f x)) xs)
      (seqn (reservation_update_status D (reservation_id r) st)
      (seqn (commit D)
      (bnd (reload_seats D xs) (\<lambda>ys.
      seqn (drop_hold_keys R e ys) (seqn (publish_seat_update R T e ys st') (ret (g ys))))))))) (\<lambda>_. snd) (\<lambda>_ _. False) (s, True)"
    unfolding named_seats_for_update_def us lift_res_simps bnd_ret drop_hold_keys_def
  proof (intro vc_bnd calm_call [OF calm_q_seats_for_update] vc_q_seats_for_update TrueI calm_save_seats
      calm_call [OF works_update_status] vc_reservation_update_status calm_call [OF calm_commit] vc_commit
      calm_call [OF calm_reload_seats] vc_reload_seats calm_call [OF calm_pipeline] vc_pipeline
      calm_publish vc_ret, goal_cases)
    case (1 xs)
    then show ?case using s booking_okD(2) by simp
  next
    case (2 xs r' m)
    have "set xs \<subseteq> set (seats (ses s))" using rows_like_set [OF 2] by auto
    then show ?case by (simp add: put_reservation_status_def commit_changes_def put_seat_ids image_mono)
  qed simp
qed

lemma works_release_committed:
  "works v calm (\<lambda>s. ses s = com s \<and> booking_ok (com s) \<and> refers_ok (com s) r) (release_committed D R T e r)"
  unfolding release_committed_def by (rule works_close_announced)

lemma works_complete_under_lock:
  "works v calm (\<lambda>s. ses s = com s \<and> booking_ok (com s) \<and> refers_ok (com s) r) (complete_under_lock D R T r)"
  unfolding complete_under_lock_def Let_def by (rule works_close_announced [where g = "\<lambda>_. ()", unfolded seqn_unit])

lemma vc_release_committed_locks:
  assumes "distinct (map reservation_id (reservations (ses s)))"
  shows "vc v (release_committed D R T e r) (\<lambda>_. locks_kept s) (\<lambda>_ _. True) s"
  unfolding release_committed_def named_seats_for_update_def bnd_assoc
  by (intro vc_bnd vc_lift_res vc_q_seats_for_update vc_save_seats vc_reservation_update_status vc_commit vc_reload_seats
      vc_drop_hold_keys vc_publish_seat_update vc_ret)
    (use assms in \<open>simp_all add: locks_kept_def commit_changes_def\<close>)

lemma works_acquire:
  "works v calm (\<lambda>s. locks_free s \<and> length (issued s) + 1 < 2 ^ 128) (acquire_reservation_lock R T e 3 100)"
  unfolding acquire_reservation_lock_def acquire_def bnd_assoc bnd_ret
  by (rule worksI, rule vc_bnd, rule calm_call [OF calm_uuid4])
    (auto simp: upt_conv_Cons locks_free_def new_lock_def intro!: vc_uuid4 vc_bnd calm_call [OF calm_set_nx] vc_set_nx vc_ret)

lemma works_release: "lock_value l = Some val \<Longrightarrow> works v calm (\<lambda>_. True) (release R l)"
  by (rule worksI) (auto simp: release_def intro!: vc_bnd calm_call [OF calm_eval] vc_eval vc_ret)

lemma calm_counting_lock:
  assumes "locks_free s" and "length (issued s) + 1 < 2 ^ 128"
    and body: "\<And>u. vc (watched v calm) body (\<lambda>(n', failed) p. snd p \<and> failed = None \<and> Q (n', None)
        (fst p\<lparr>redis := snd (release_script (LOCK_RESERVATION_KEY e) (uuid_str u) (redis (fst p)))\<rparr>, True)) E
        (s\<lparr>issued := u # issued s,
           redis := rdb_set (LOCK_RESERVATION_KEY e) (Text (uuid_str u)) (Some LOCK_TTL_MS) (redis s)\<rparr>, True)"
  shows "vc (watched v calm) (counting_lock R T e n body) Q E (s, True)"
  unfolding counting_lock_def
proof (rule vc_bnd, rule vc_capture, rule calm_call [OF works_acquire], intro conjI assms(1,2),
    rule vc_acquire_reservation_lock, goal_cases)
  case (1 u)
  show ?case
    unfolding sum.case
    by (rule vc_bnd, rule vc_conseq [OF body [of u]])
      (auto intro!: vc_bnd vc_capture calm_call [OF works_release] vc_release [where val = "uuid_str u"] vc_ret simp: raised_def)
next
  case (2 u t)
  then show ?case using assms(1) by (simp add: locks_free_def)
qed simp

lemma calm_release_held:
  assumes ses: "ses s = com s" and ok: "booking_ok (com s)" and refs: "refers_ok (com s) r"
    and there: "reservation_id r \<in> reservation_id ` set (reservations (com s))"
    and fin: "\<And>n' s'. com s' = cancel_tables r (com s) \<Longrightarrow> locks_kept s s' \<Longrightarrow> tidy s' \<Longrightarrow> Q (n', None) (s', True)"
  shows "vc (watched v calm) (bnd (capture (release_committed D R T e r)) (\<lambda>done1. case done1 of
        Inl x \<Rightarrow> ret (n, Some x)
      | Inr k \<Rightarrow> bnd (capture (reload_reservation D r)) (\<lambda>logged. ret (n + k, raised logged)))) Q E (remember [r] s, True)"
proof (rule vc_bnd, rule vc_capture, rule calm_call [OF works_release_committed])
  show "ses (remember [r] s) = com (remember [r] s) \<and> booking_ok (com (remember [r] s)) \<and> refers_ok (com (remember [r] s)) r"
    using ses ok refs by (simp add: remember_def)
  note ids = booking_okD(2) [OF ok]
  have "vc v (release_committed D R T e r)
      (\<lambda>k s'. (com s' = cancel_tables r (com s) \<and> fresh_session s') \<and> locks_kept (remember [r] s) s')
      (\<lambda>_ _. True \<and> True) (remember [r] s)"
    by (rule vc_both, rule vc_release_committed)
      (use ses ok ids refs in \<open>auto simp: remember_def intro!: vc_release_committed_locks\<close>)
  then show "vc v (release_committed D R T e r) (\<lambda>k s'. vc (watched v calm) (case Inr k of
      Inl x \<Rightarrow> ret (n, Some x)
    | Inr k \<Rightarrow> bnd (capture (reload_reservation D r)) (\<lambda>logged. ret (n + k, raised logged))) Q E (s', True))
      (\<lambda>_ _. True) (remember [r] s)"
  proof (rule vc_conseq, goal_cases)
    case (1 k s')
    then have s': "com s' = cancel_tables r (com s)" "fresh_session s'" "locks_kept s s'"
      by (simp_all add: locks_kept_def remember_def)
    have "map reservation_id (reservations (com s')) = map reservation_id (reservations (com s))"
      by (simp add: s'(1) close_ids)
    then have "reservation_id ` set (reservations (ses s')) = reservation_id ` set (reservations (com s))"
      "distinct (map reservation_id (reservations (com s')))"
      using s'(2) ids by (metis fresh_session_def list.set_map, simp)
    with s' there tidy_remember [OF tidy_fresh [OF s'(2)]] as_loaded_fresh [OF s'(2)] show ?case
      by (auto simp: raised_def fresh_session_def locks_kept_def
          intro!: vc_bnd vc_capture calm_call [OF calm_reload_reservation] vc_reload_reservation vc_ret fin)
  qed simp
qed

text \<open>The block under the lock, when looking the row up again gives the object \<open>r\<close>.\<close>

lemma calm_release_looked_up:
  assumes ses: "ses s = com s" and ok: "booking_ok (com s)" and r0: "r0 \<in> set (reservations (com s))"
    and r: "as_loaded s r0 = r" "reservation_id r = reservation_id r0" "refers_ok (com s) r"
    and held: "\<And>n' s'. res_status r = Held \<Longrightarrow> com s' = cancel_tables r (com s) \<Longrightarrow> locks_kept s s' \<Longrightarrow> tidy s' \<Longrightarrow>
      Q (n', None) (s', True)"
    and closed: "res_status r \<noteq> Held \<Longrightarrow> Q (n, None) (remember [r] s, True)"
  shows "vc (watched v calm) (release_expired_block D R T e r n) Q E (s, True)"
  unfolding release_expired_block_def
proof (rule vc_bnd, rule vc_capture, rule calm_call [OF works_get_by_id TrueI], rule vc_reservation_get_by_id, goal_cases)
  case (3 q)
  then have "q = r0" using same_key [OF booking_okD(2) [OF ok]] r0 ses r(2) by metis
  with r(1) have q: "as_loaded s q = r" by simp
  show ?case
    unfolding q sum.case option.case
    by (intro vc_if vc_ret closed calm_release_held ses ok r(3) held) (use r0 r(2) in auto)
qed (use booking_okD(2) [OF ok] ses r0 r(2) in auto)

lemma calm_release_expired_block:
  assumes "tidy s" and ok: "booking_ok (com s)" and r: "r \<in> set (reservations (com s))"
    and fin: "\<And>n' s'. com s' = (if res_status r = Held then cancel_tables r (com s) else com s) \<Longrightarrow>
      locks_kept s s' \<Longrightarrow> tidy s' \<Longrightarrow> Q (n', None) (s', True)"
  shows "vc (watched v calm) (release_expired_block D R T e r n) Q E (s, True)"
  by (rule calm_release_looked_up [OF _ ok r _ refl booking_okD(3) [OF ok r]])
    (use assms(1) tidy_remember [OF assms(1) booking_okD(2) [OF ok] r] r in
      \<open>auto simp: tidy_def locks_kept_def remember_def intro!: fin\<close>)

lemma calm_release_expired_one:
  assumes "tidy s" and ok: "booking_ok (com s)" and "locks_free s" and "length (issued s) + 1 < 2 ^ 128"
    and r: "r \<in> set (reservations (com s))" "reservation_id r = reservation_id r0"
    and fin: "\<And>n' s'. calm_turn r s s' \<Longrightarrow> Q n' (s', True)"
  shows "vc (watched v calm) (release_expired_one D R T n r0) Q E (s, True)"
proof -
  note ids = booking_okD(2) [OF ok]
  have ses: "ses s = com s" and row: "as_loaded s r = r" using assms(1) r by (simp_all add: tidy_def)
  have same: "q = r" if "q \<in> set (reservations (com s))" "reservation_id q = reservation_id r0" for q
    using same_key [OF ids that(1) r(1)] that(2) r(2) by simp
  let ?e = "uuid_str (res_event r)" and ?s = "remember [r] s"
  have locked: "vc (watched v calm) (counting_lock R T ?e n (release_expired_block D R T ?e r n))
      (\<lambda>a. vc (watched v calm) (case a of (n', failed) \<Rightarrow> (case failed of None \<Rightarrow> ret n'
        | Some x \<Rightarrow> seqn (reload_reservation D r0) (seqn (capture (rollback D)) (ret n')))) Q E) E (?s, True)"
  proof (rule calm_counting_lock)
    show "locks_free ?s" "length (issued ?s) + 1 < 2 ^ 128" using assms(3,4) by (simp_all add: locks_free_def remember_def)
    fix u
    let ?t = "?s\<lparr>issued := u # issued ?s,
        redis := rdb_set (LOCK_RESERVATION_KEY ?e) (Text (uuid_str u)) (Some LOCK_TTL_MS) (redis ?s)\<rparr>"
    show "vc (watched v calm) (release_expired_block D R T ?e r n) (\<lambda>(n', failed) p. snd p \<and> failed = None \<and>
        vc (watched v calm) (case (n', None) of (n', failed) \<Rightarrow> (case failed of None \<Rightarrow> ret n'
          | Some x \<Rightarrow> seqn (reload_reservation D r0) (seqn (capture (rollback D)) (ret n')))) Q E
        (fst p\<lparr>redis := snd (release_script (LOCK_RESERVATION_KEY ?e) (uuid_str u) (redis (fst p)))\<rparr>, True)) E (?t, True)"
    proof (rule calm_release_expired_block, goal_cases)
      case (4 n' s')
      have "locks_free (s'\<lparr>redis := snd (release_script (LOCK_RESERVATION_KEY ?e) (uuid_str u) (redis s'))\<rparr>)"
        using 4(2) assms(3) by (simp add: locks_kept_def locks_free_def remember_def)
      moreover have "length (issued s') = Suc (length (issued s))" using 4(2) by (simp add: locks_kept_def remember_def)
      ultimately show ?case
        using 4(1,3) by (auto simp: calm_turn_def remember_def intro!: vc_ret fin)
    qed (use tidy_remember [OF assms(1) ids r(1)] ok r in \<open>simp_all add: remember_def\<close>)
  qed
  show ?thesis
    unfolding release_expired_one_def Let_def
  proof (rule vc_bnd, rule calm_call [OF calm_reload_reservation], goal_cases)
    case 1
    show ?case using r ses by (metis image_eqI)
  next
    case 2
    show ?case
    proof (rule vc_reload_reservation)
      fix q
      assume "q \<in> set (reservations (ses s))" "reservation_id q = reservation_id r0"
      then have q: "as_loaded s q = r" using same ses row by metis
      show "vc (watched v calm) (bnd (counting_lock R T (uuid_str (res_event (as_loaded s q))) n
            (release_expired_block D R T (uuid_str (res_event (as_loaded s q))) (as_loaded s q) n))
          (\<lambda>(n', failed). case failed of None \<Rightarrow> ret n'
            | Some x \<Rightarrow> seqn (reload_reservation D r0) (seqn (capture (rollback D)) (ret n')))) Q E
          (remember [as_loaded s q] s, True)"
        unfolding q by (rule vc_bnd, rule locked)
    qed simp
  qed
qed

end

definition held_rows :: "tables \<Rightarrow> reservation set" where
  "held_rows t = {q \<in> set (reservations t). res_status q = Held}"

lemma held_rows_cancel: "held_rows (cancel_tables r t) = {q \<in> held_rows t. reservation_id q \<noteq> reservation_id r}"
  by (force simp: held_rows_def close_tables_def image_iff)

context calm_backend
begin

lemma calm_loop:
  assumes "tidy s" and "booking_ok (com s)" and "locks_free s" and "length (issued s) + length rs < 2 ^ 128"
    and "reservation_id ` set rs \<subseteq> reservation_id ` set (reservations (com s))"
    and fin: "\<And>n' s'. booking_ok (com s') \<Longrightarrow>
      held_rows (com s') = {q \<in> held_rows (com s). reservation_id q \<notin> reservation_id ` set rs} \<Longrightarrow> Q n' (s', True)"
  shows "vc (watched v calm) (foldM (release_expired_one D R T) n rs) Q E (s, True)"
  using assms
proof (induction rs arbitrary: n s)
  case Nil
  then show ?case by (auto intro!: vc_ret)
next
  case (Cons x rs)
  from Cons.prems(5) obtain r where r: "r \<in> set (reservations (com s))" "reservation_id r = reservation_id x" by auto
  note ids = booking_okD(2) [OF Cons.prems(2)]
  show ?case
    unfolding foldM.simps
  proof (rule vc_bnd, rule calm_release_expired_one [OF Cons.prems(1-3) _ r], goal_cases)
    case (2 n' s')
    have "booking_ok (com s') \<and> held_rows (com s') = {q \<in> held_rows (com s). reservation_id q \<noteq> reservation_id x} \<and>
      reservation_id ` set (reservations (com s')) = reservation_id ` set (reservations (com s))"
    proof (cases "res_status r = Held")
      case True
      have "map reservation_id (reservations (cancel_tables r (com s))) = map reservation_id (reservations (com s))"
        by (simp add: close_ids)
      then have "reservation_id ` set (reservations (cancel_tables r (com s))) = reservation_id ` set (reservations (com s))"
        by (metis list.set_map)
      then show ?thesis
        using 2 True r booking_ok_cancel [OF Cons.prems(2) r(1)] by (auto simp: calm_turn_def held_rows_cancel)
    next
      case False
      have "reservation_id q \<noteq> reservation_id x" if "q \<in> held_rows (com s)" for q
        using that False same_key [OF ids _ r(1), of q] r(2) by (auto simp: held_rows_def)
      then show ?thesis using 2 False Cons.prems(2) by (auto simp: calm_turn_def)
    qed
    with 2 Cons.prems(4,5) show ?case
      by (intro Cons.IH) (auto simp: calm_turn_def intro!: Cons.prems(6))
  qed (use Cons.prems(4) in simp)
qed

lemma calm_release_expired_holds:
  assumes fresh: "fresh_session s" and ok: "booking_ok (com s)" and "locks_free s"
    and "length (issued s) + length (reservations (com s)) < 2 ^ 128"
    and fin: "\<And>n t s'. clk s \<le> t \<Longrightarrow> booking_ok (com s') \<Longrightarrow>
      held_rows (com s') = {q \<in> held_rows (com s). t \<le> instant (expires_at q)} \<Longrightarrow> Q n (s', True)"
  shows "vc (watched v calm) (release_expired_holds D R T) Q E (s, True)"
proof -
  note ids = booking_okD(2) [OF ok]
  have ses: "ses s = com s" using fresh by (simp add: fresh_session_def)
  have loop: "vc (watched v calm) (if rs = [] then ret 0 else foldM (release_expired_one D R T) 0 rs) Q E
      (remember rs (s\<lparr>clk := t\<rparr>), True)"
    if rs: "rows_like rs (filter (\<lambda>r. res_status r = Held \<and> instant (expires_at r) < t) (reservations (com s)))"
      and t: "clk s \<le> t" for rs t
  proof -
    note set = rows_like_set [OF rs]
    have "reservation_id q \<in> reservation_id ` set rs \<longleftrightarrow> instant (expires_at q) < t" if "q \<in> held_rows (com s)" for q
    proof
      assume "reservation_id q \<in> reservation_id ` set rs"
      then obtain p where p: "p \<in> set rs" "reservation_id q = reservation_id p" by blast
      then have "p \<in> set (reservations (com s))" "q \<in> set (reservations (com s))"
        using set that by (simp_all add: held_rows_def)
      from same_key [OF ids this(2,1) p(2)] p(1) set show "instant (expires_at q) < t" by simp
    next
      assume "instant (expires_at q) < t"
      with that set have "q \<in> set rs" by (simp add: held_rows_def)
      then show "reservation_id q \<in> reservation_id ` set rs" by blast
    qed
    then have rest: "{q \<in> held_rows (com s). reservation_id q \<notin> reservation_id ` set rs} =
        {q \<in> held_rows (com s). t \<le> instant (expires_at q)}"
      by (intro Collect_cong conj_cong refl) (simp add: not_less)
    have "vc (watched v calm) (foldM (release_expired_one D R T) 0 rs) Q E (remember rs (s\<lparr>clk := t\<rparr>), True)"
    proof (rule calm_loop)
      show "tidy (remember rs (s\<lparr>clk := t\<rparr>))"
        using tidy_remember_all [of "s\<lparr>clk := t\<rparr>" rs] fresh ids set by (auto simp: fresh_session_def)
      have "length rs \<le> length (reservations (com s))"
        using rows_like_length [OF rs] length_filter_le by metis
      then show "length (issued (remember rs (s\<lparr>clk := t\<rparr>))) + length rs < 2 ^ 128"
        using assms(4) by (simp add: remember_def)
    qed (use assms(2,3) set rest in \<open>auto simp: remember_def locks_free_def intro!: fin [OF t]\<close>)
    then show ?thesis by (cases rs) simp_all
  qed
  show ?thesis
    unfolding release_expired_holds_def get_expired_held_def bnd_assoc
  proof (rule vc_bnd, rule calm_call [OF calm_utcnow TrueI], rule vc_utcnow, rule vc_bnd,
      rule calm_call [OF calm_q_reservations TrueI], rule vc_q_reservations, goal_cases)
    case (1 t xs)
    have loaded: "map (as_loaded (s\<lparr>clk := t\<rparr>)) xs = xs"
      using fresh by (simp add: as_loaded_def fresh_session_def map_idI)
    from 1(2) have "rows_like xs (filter (\<lambda>r. res_status r = Held \<and> instant (expires_at r) < t) (reservations (com s)))"
      by (simp add: ses)
    then show ?case unfolding loaded by (rule loop [OF _ 1(1)])
  qed simp
qed

end

section \<open>Holding seats\<close>

context calm_backend
begin

lemma calm_reservation_lock:
  assumes "locks_free s" and "length (issued s) + 1 < 2 ^ 128"
    and body: "\<And>u. vc (watched v calm) body
        (\<lambda>a p. snd p \<and> Q a (fst p\<lparr>redis := snd (release_script (LOCK_RESERVATION_KEY e) (uuid_str u) (redis (fst p)))\<rparr>, True))
        (\<lambda>x p. snd p \<and> E x (fst p\<lparr>redis := snd (release_script (LOCK_RESERVATION_KEY e) (uuid_str u) (redis (fst p)))\<rparr>, True))
        (s\<lparr>issued := u # issued s,
           redis := rdb_set (LOCK_RESERVATION_KEY e) (Text (uuid_str u)) (Some LOCK_TTL_MS) (redis s)\<rparr>, True)"
  shows "vc (watched v calm) (reservation_lock R T e body) Q E (s, True)"
  unfolding reservation_lock_def
proof (rule vc_bnd, rule calm_call [OF works_acquire], intro conjI assms(1,2), rule vc_acquire_reservation_lock, goal_cases)
  case (1 u)
  show ?case
    by (rule vc_try_finally, rule vc_conseq [OF body [of u]])
      (auto intro!: calm_call [OF works_release] vc_release [where val = "uuid_str u"])
next
  case (2 u t)
  then show ?case using assms(1) by (simp add: locks_free_def)
qed simp

lemma calm_hold_under_lock:
  assumes "length (reservations (ses s)) + 1 < 2 ^ 128"
  shows "vc (watched v calm) (hold_under_lock D R T user_id event_id u ev ids)
    (\<lambda>(r, xs) p. snd p \<and> reservation_id r \<in> reservation_id ` set (reservations (ses (fst p))))
    (\<lambda>x p. snd p \<and> \<not> is_external x) (s, True)"
  unfolding hold_under_lock_def get_held_by_user_and_event_def reservation_create_def bnd_assoc bnd_ret Let_def
proof (intro vc_bnd calm_call [OF calm_utcnow] vc_utcnow TrueI calm_call [OF calm_q_reservations] vc_q_reservations
      vc_if calm_call [OF calm_inc_duplicates] vc_inc_duplicates vc_raising calm_call [OF calm_q_seats_for_update]
      vc_q_seats_for_update calm_save_seats calm_call [OF calm_insert_reservation] vc_insert_reservation
      calm_call [OF calm_pipeline] vc_pipeline calm_call [OF calm_commit] vc_commit
      calm_call [OF calm_reload_seats] vc_reload_seats calm_publish vc_ret, goal_cases)
    case (5 t rs xs t' r)
    have "set xs \<subseteq> set (seats (ses s))" using rows_like_set [OF 5(4)] by (auto simp: remember_def)
    then show ?case by (simp add: remember_def commit_changes_def put_seat_ids image_mono)
qed (use assms in \<open>auto simp: remember_def commit_changes_def\<close>)

lemma calm_hold_seats:
  assumes "locks_free s" and "length (issued s) + 1 < 2 ^ 128" and "length (reservations (ses s)) + 1 < 2 ^ 128"
  shows "vc (watched v calm) (hold_seats D R T user_id event_id ids) (\<lambda>_. snd) (\<lambda>x _. \<not> is_external x) (s, True)"
  unfolding hold_seats_def
proof (intro vc_bnd vc_lift_res calm_reservation_lock assms(1,2), goal_cases)
  case (1 u ev i)
  show ?case
    by (rule vc_conseq [OF calm_hold_under_lock])
      (use assms(3) in \<open>auto intro!: vc_bnd calm_call [OF calm_reload_reservation] vc_reload_reservation vc_ret\<close>)
qed (auto dest: uuid_parse_error)

end

section \<open>In memory\<close>

lemma fresh_uuid_exists:
  assumes "length used + 1 < 2 ^ 128"
  shows "fresh_uuid used \<noteq> None"
proof
  let ?us = "map word_of_nat [1..<Suc (Suc (length used))] :: uuid list"
  assume "fresh_uuid used = None"
  then have sub: "set ?us \<subseteq> set used" by (auto simp: fresh_uuid_def find_None_iff)
  have "inj_on (word_of_nat :: nat \<Rightarrow> uuid) {1..<Suc (Suc (length used))}"
  proof (rule inj_onI)
    fix i j :: nat
    assume "i \<in> {1..<Suc (Suc (length used))}" "j \<in> {1..<Suc (Suc (length used))}" "(word_of_nat i :: uuid) = word_of_nat j"
    moreover from this have "i < 2 ^ 128" "j < 2 ^ 128" using assms by simp_all
    ultimately show "i = j" by (simp add: word_of_nat_eq_iff take_bit_nat_eq_self)
  qed
  then have "card (set ?us) = Suc (length used)" by (simp only: set_map set_upt card_image card_atLeastLessThan)
  moreover have "card (set ?us) \<le> length used" using card_mono [OF _ sub] card_length [of used] by simp
  ultimately show False by simp
qed

lemma works_attempt:
  "(\<And>s. P s \<Longrightarrow> f s \<noteq> None) \<Longrightarrow> works mview (\<lambda>w. faults w = []) P (attempt f undo)"
  by (fastforce simp: works_def attempt_def Let_def split: option.split)

lemma works_always: "works mview (\<lambda>w. faults w = []) P (always f)"
  by (simp add: works_def always_def)

interpretation mem_calm: calm_backend mem_redis mem_db mem_runtime mview "\<lambda>w. faults w = []"
proof unfold_locales
  show "works mview (\<lambda>w. faults w = []) (\<lambda>_. True) (utcnow mem_runtime)"
    by (auto simp: works_def mem_runtime_def Let_def split: list.split)
  show "works mview (\<lambda>w. faults w = []) (\<lambda>s. length (issued s) + 1 < 2 ^ 128) (uuid4 mem_runtime)"
    unfolding mem_runtime_def runtime.simps
    by (rule works_attempt) (use fresh_uuid_exists in \<open>auto split: option.split\<close>)
  show "works mview (\<lambda>w. faults w = []) (\<lambda>s. seat_id ` set xs \<subseteq> seat_id ` set (seats (ses s))) (reload_seats mem_db xs)" for xs
    unfolding mem_db_def db_session.simps
  proof (rule works_attempt, goal_cases)
    case (1 s)
    have "List.find (\<lambda>y. seat_id y = seat_id x) (seats (ses s)) \<noteq> None" if "x \<in> set xs" for x
    proof -
      from 1 that obtain y where "y \<in> set (seats (ses s))" "seat_id x = seat_id y" by auto
      then show ?thesis by (auto simp: find_None_iff)
    qed
    then show ?case by (simp add: Let_def list_all_iff)
  qed
  show "works mview (\<lambda>w. faults w = [])
      (\<lambda>s. reservation_id r \<in> reservation_id ` set (reservations (ses s))) (reload_reservation mem_db r)" for r
    unfolding mem_db_def db_session.simps
    by (rule works_attempt) (auto simp: find_None_iff split: option.split)
  show "works mview (\<lambda>w. faults w = []) (\<lambda>s. length (reservations (ses s)) + 1 < 2 ^ 128)
      (insert_reservation mem_db u e sids st ex)" for u e sids st ex
    unfolding mem_db_def db_session.simps
  proof (rule works_attempt, goal_cases)
    case (1 s)
    then have "fresh_uuid (map reservation_id (reservations (ses s))) \<noteq> None" by (intro fresh_uuid_exists) simp
    then show ?case by (auto simp: Let_def)
  qed
  show "works mview (\<lambda>w. faults w = []) (\<lambda>_. True) (inc_duplicates mem_runtime)"
    unfolding mem_runtime_def runtime.simps by (rule works_always)
qed (unfold mem_redis_def mem_db_def redis_client.simps db_session.simps, (rule works_attempt works_always; simp add: Let_def)+)

section \<open>Properties\<close>


text \<open>C7: seats that are free can be had: where no call fails and nobody holds a lock, a user without a held
  reservation for the event who asks for available seats of it, each once, is given them.\<close>

theorem free_seats_are_held:
  assumes "calm_backend R D T v calm" and "calm w" and "fresh_session (v w)" and "booking_ok (com (v w))"
    and "locks_free (v w)" and "length (issued (v w)) + 1 < 2 ^ 128"
    and "length (reservations (com (v w))) + 1 < 2 ^ 128"
    and "uuid_parse user_id = Inr u" and "uuid_parse event_id = Inr ev" and "distinct ids"
    and "\<forall>i \<in> set ids. \<exists>x \<in> set (seats (com (v w))). seat_id x = i \<and> seat_event x = ev \<and> seat_status x = Available"
    and "\<forall>r \<in> set (reservations (com (v w))). \<not> (res_user r = u \<and> res_event r = ev \<and> res_status r = Held)"
  shows "wp (hold_seats D R T user_id event_id ids)
    (\<lambda>resp w'. hold_result user_id event_id ids (v w) resp (v w')) (\<lambda>e w'. False) w"
proof -
  have ses: "ses (v w) = com (v w)" using assms(3) by (simp add: fresh_session_def)
  have "vc (watched v calm) (hold_seats D R T user_id event_id ids) (\<lambda>_. snd) (\<lambda>x _. \<not> is_external x) (watched v calm w)"
    using calm_backend.calm_hold_seats [OF assms(1,5,6), of user_id event_id ids] assms(2,7) ses by (simp add: watched_def)
  note both = wp_conj [OF vcD [OF backend.vc_hold_seats [OF calm_backend.axioms(1) [OF assms(1)] assms(3,4)]] vcD [OF this]]
  have no: False if "hold_failed user_id event_id ids (v w) x s'" "\<not> is_external x" for x s'
    using that assms(5,8-12) same_key [OF booking_okD(1) [OF assms(4)]]
    by (cases x) (auto simp: hold_failed_def hold_reason_def locks_free_def)
  show ?thesis by (rule wp_mono [OF both]) (use no in blast)+
qed

theorem free_seats_are_held_witness:
  "wp (hold_seats mem_db mem_redis mem_runtime (uuid_str 7) (uuid_str 9) [1, 2])
     (\<lambda>resp w'. rr_user_id resp = 7 \<and> rr_total_price resp = 100000) (\<lambda>e w'. False) (start_mem sample_tables)"
proof -
  have ok: "booking_ok (com (mview (start_mem sample_tables)))" by (simp add: sample_tables_ok)
  show ?thesis
    by (rule wp_mono [OF free_seats_are_held [OF mem_calm.calm_backend_axioms _ _ ok _ _ _ uuid_parse_str uuid_parse_str]])
      (auto simp: start_mem_def locks_free_def rdb_get_def empty_redis_def sample_tables_def sample_seat_def
        hold_result_def hold_committed_def to_reservation_response_def seats_total_def)
qed

text \<open>The sample reservation, held until five minutes after the epoch, a minute later.\<close>

definition late_mem :: mem where
  "late_mem = (start_mem held_tables)\<lparr>mview := (start_view held_tables)\<lparr>clk := 360000000\<rparr>\<rparr>"


text \<open>C24: \<open>complete_reservation\<close> decides before it takes the lock and does not look again. If between
  its check (which found the object \<open>r\<close> held) and its lock the clean-up cancelled the reservation
  and another user took the seat, the locked part still completes the cancelled reservation and
  marks the other user's seat sold, after which one seat belongs to two reservations.\<close>

theorem complete_does_not_recheck:
  assumes "calm_backend R D T v calm" and "calm w" and "ses (v w) = com (v w)" and "booking_ok (com (v w))"
    and "r0 \<in> set (reservations (com (v w)))" and "res_status r0 = Cancelled"
    and "r = r0\<lparr>res_status := Held\<rparr>"
    and "q \<in> set (reservations (com (v w)))" and "res_status q = Held"
    and "x \<in> set (seats (com (v w)))" and "names r0 x" and "names q x"
  shows "wp (complete_under_lock D R T r)
    (\<lambda>_ w'. com (v w') = complete_tables r (com (v w)) \<and> \<not> booking_ok (com (v w')))
    (\<lambda>e w'. False) w"
proof -
  note ids = booking_okD(1,2) [OF assms(4)] and backend = calm_backend.axioms(1) [OF assms(1)]
  have "reservation_id q \<noteq> reservation_id r"
    using same_key [OF ids(2) assms(8,5)] assms(6,7,9) by auto
  then have breaks: "\<not> booking_ok (complete_tables r (com (v w)))"
    using assms(5-12) by (intro stale_close_breaks [where ?r0.0 = r0 and q = q and x = x]) simp_all
  have refs: "refers_ok (com (v w)) r"
    using booking_okD(3) [OF assms(4,5)] assms(7) refers_cong [of r r0] by simp
  have closes: "vc v (complete_under_lock D R T r)
    (\<lambda>_ s'. com s' = complete_tables r (com (v w)) \<and> \<not> booking_ok (com s')) (\<lambda>_ _. True) (v w)"
    unfolding complete_under_lock_def Let_def
    by (rule backend.vc_close_announced [OF backend assms(3) refs ids, where g = "\<lambda>_. ()", unfolded seqn_unit])
      (use breaks in simp_all)
  show ?thesis
    by (rule calm_run [where calm = calm, OF calm_call [OF calm_backend.works_complete_under_lock [OF assms(1)]] assms(2)])
      (use assms(3,4) refs closes in simp_all)
qed

theorem complete_does_not_recheck_witness:
  "wp (complete_under_lock mem_db mem_redis mem_runtime (sample_reservation 5 7 Held))
    (\<lambda>_ w'. \<not> booking_ok (com (mview w'))) (\<lambda>e w'. False) (start_mem retaken_tables)"
proof -
  have ok: "booking_ok (com (mview (start_mem retaken_tables)))" by (simp add: sample_booking_ok)
  show ?thesis
    by (rule wp_mono [OF complete_does_not_recheck [OF mem_calm.calm_backend_axioms _ _ ok,
          where ?r0.0 = "sample_reservation 5 7 Cancelled" and q = "sample_reservation 6 8 Held"
            and x = "hold_seat 8 (Naive 300000000) (sample_seat 1)"]])
      (auto simp: retaken_tables_def sample_tables_def sample_reservation_def names_def sample_seat_def start_mem_def)
qed

text \<open>
  What a clean-up does under the lock with an object that its session still has as held, whatever the row
  says by now: \<open>get_by_id\<close> returns that object, and it is cancelled.
\<close>

lemma wp_release_stale_object:
  assumes "calm_backend R D T v calm" and "calm w" and "ses (v w) = com (v w)" and "booking_ok (com (v w))"
    and "r0 \<in> set (reservations (com (v w)))" and "r = r0\<lparr>res_status := Held\<rparr>"
    and "imap (v w) (reservation_id r) = Some r"
  shows "wp (release_expired_block D R T e r n)
    (\<lambda>a w'. snd a = None \<and> com (v w') = cancel_tables r (com (v w))) (\<lambda>x w'. False) w"
proof -
  have refs: "refers_ok (com (v w)) r"
    using booking_okD(3) [OF assms(4,5)] assms(6) refers_cong [of r r0] by simp
  have "vc (watched v calm) (release_expired_block D R T e r n)
    (\<lambda>a p. snd a = None \<and> com (fst p) = cancel_tables r (com (v w))) (\<lambda>_ _. False) (v w, True)"
    by (rule calm_backend.calm_release_looked_up [OF assms(1,3,4,5) _ _ refs])
      (use assms(6,7) in \<open>auto simp: as_loaded_def\<close>)
  then show ?thesis by (rule calm_run [where calm = calm and Q = "\<lambda>a s'. snd a = None \<and> com s' = cancel_tables r (com (v w))", OF _ assms(2)])
qed

lemma cancelled_row:
  "r0 \<in> set (reservations t) \<Longrightarrow> r0\<lparr>res_status := Cancelled\<rparr> \<in> set (reservations (cancel_tables (r0\<lparr>res_status := st\<rparr>) t))"
  by (force simp: close_tables_def image_iff)

lemma freed_seat: "x \<in> set (seats t) \<Longrightarrow> names r0 x \<Longrightarrow> free_seat x \<in> set (seats (cancel_tables (r0\<lparr>res_status := st\<rparr>) t))"
  by (force simp: image_iff names_def)

text \<open>C25: the second look of the clean-up is not one. It reads the reservation again under the lock, but
  through the session that loaded it before, which keeps the object it has. If a payment completed
  the reservation in between, the object still says held, and the block cancels the completed
  reservation and frees its seats.\<close>

theorem release_rereads_stale_object:
  assumes "calm_backend R D T v calm" and "calm w" and "ses (v w) = com (v w)" and "booking_ok (com (v w))"
    and "r0 \<in> set (reservations (com (v w)))" and "res_status r0 = Completed"
    and "r = r0\<lparr>res_status := Held\<rparr>" and "imap (v w) (reservation_id r) = Some r"
  shows "wp (release_expired_block D R T e r n)
    (\<lambda>(n', failed) w'. failed = None \<and> r0\<lparr>res_status := Cancelled\<rparr> \<in> set (reservations (com (v w'))) \<and>
       (\<forall>x. x \<in> set (seats (com (v w))) \<and> names r0 x \<longrightarrow> free_seat x \<in> set (seats (com (v w')))))
    (\<lambda>x w'. False) w"
  by (rule wp_mono [OF wp_release_stale_object [OF assms(1-5,7,8)]])
    (auto simp: assms(7) cancelled_row [OF assms(5)] freed_seat)

theorem release_rereads_stale_object_witness:
  "let w = (start_mem sold_tables)\<lparr>mview := (start_view sold_tables)
        \<lparr>imap := [5 \<mapsto> sample_reservation 5 7 Held]\<rparr>\<rparr>
   in wp (release_expired_block mem_db mem_redis mem_runtime ''9'' (sample_reservation 5 7 Held) 0)
     (\<lambda>(n', failed) w'. failed = None \<and> sample_reservation 5 7 Cancelled \<in> set (reservations (com (mview w'))))
     (\<lambda>x w'. False) w"
proof -
  let ?w = "(start_mem sold_tables)\<lparr>mview := (start_view sold_tables)
        \<lparr>imap := [5 \<mapsto> sample_reservation 5 7 Held]\<rparr>\<rparr>"
  have ok: "booking_ok (com (mview ?w))" by (simp add: sold_tables_ok)
  have "wp (release_expired_block mem_db mem_redis mem_runtime ''9'' (sample_reservation 5 7 Held) 0)
     (\<lambda>(n', failed) w'. failed = None \<and> sample_reservation 5 7 Cancelled \<in> set (reservations (com (mview w'))))
     (\<lambda>x w'. False) ?w"
    by (rule wp_mono [OF release_rereads_stale_object [OF mem_calm.calm_backend_axioms _ _ ok,
          where ?r0.0 = "sample_reservation 5 7 Completed"]])
      (auto simp: sold_tables_def sample_reservation_def start_mem_def)
  then show ?thesis by (simp only: Let_def)
qed

text \<open>C26: two clean-ups can meet. Every process of the service runs one, and each has listed the expired
  reservations before it takes the lock. If the other one was first and the seat has a new holder by
  then, this one cancels the cancelled reservation once more and frees the seat: it is on sale
  while the new holder's reservation still names it.\<close>

theorem second_clean_up_frees_retaken_seat:
  assumes "calm_backend R D T v calm" and "calm w" and "ses (v w) = com (v w)" and "booking_ok (com (v w))"
    and "r0 \<in> set (reservations (com (v w)))" and "res_status r0 = Cancelled"
    and "r = r0\<lparr>res_status := Held\<rparr>" and "imap (v w) (reservation_id r) = Some r"
    and "q \<in> set (reservations (com (v w)))" and "res_status q = Held"
    and "x \<in> set (seats (com (v w)))" and "names r0 x" and "names q x"
  shows "wp (release_expired_block D R T e r n)
    (\<lambda>(n', failed) w'. failed = None \<and> free_seat x \<in> set (seats (com (v w'))) \<and>
       q \<in> set (reservations (com (v w'))) \<and> \<not> booking_ok (com (v w')))
    (\<lambda>x w'. False) w"
proof -
  let ?t = "cancel_tables r (com (v w))"
  note ids = booking_okD(2) [OF assms(4)]
  have named: "names q (free_seat x)" using assms(13) by (simp add: names_def)
  have free: "free_seat x \<in> set (seats ?t)" using freed_seat [OF assms(11,12)] assms(7) by simp
  have "reservation_id q \<noteq> reservation_id r"
    using same_key [OF ids assms(9,5)] assms(6,7,10) by auto
  then have kept: "q \<in> set (reservations ?t)" using assms(9) by (force simp: close_tables_def image_iff)
  then have "q \<in> set (holders ?t (free_seat x))" using assms(10) named by (simp add: holders_def)
  moreover have "seat_status (free_seat x) = Available" by (simp add: free_seat_def)
  ultimately have "\<not> seat_ok ?t (free_seat x)" by (auto simp: seat_ok_def split: list.splits)
  with free have "\<not> booking_ok ?t" using booking_okD(4) by blast
  with free kept show ?thesis
    by (intro wp_mono [OF wp_release_stale_object [OF assms(1-5,7,8)]]) auto
qed

theorem second_clean_up_frees_retaken_seat_witness:
  "let w = (start_mem retaken_tables)\<lparr>mview := (start_view retaken_tables)
        \<lparr>imap := [5 \<mapsto> sample_reservation 5 7 Held]\<rparr>\<rparr>
   in wp (release_expired_block mem_db mem_redis mem_runtime ''9'' (sample_reservation 5 7 Held) 0)
     (\<lambda>(n', failed) w'. failed = None \<and> \<not> booking_ok (com (mview w'))) (\<lambda>x w'. False) w"
proof -
  let ?w = "(start_mem retaken_tables)\<lparr>mview := (start_view retaken_tables)
        \<lparr>imap := [5 \<mapsto> sample_reservation 5 7 Held]\<rparr>\<rparr>"
  have ok: "booking_ok (com (mview ?w))" by (simp add: sample_booking_ok)
  have "wp (release_expired_block mem_db mem_redis mem_runtime ''9'' (sample_reservation 5 7 Held) 0)
     (\<lambda>(n', failed) w'. failed = None \<and> \<not> booking_ok (com (mview w'))) (\<lambda>x w'. False) ?w"
    by (rule wp_mono [OF second_clean_up_frees_retaken_seat [OF mem_calm.calm_backend_axioms _ _ ok,
          where ?r0.0 = "sample_reservation 5 7 Cancelled" and q = "sample_reservation 6 8 Held"
            and x = "hold_seat 8 (Naive 300000000) (sample_seat 1)"]])
      (auto simp: retaken_tables_def sample_tables_def sample_reservation_def names_def sample_seat_def start_mem_def)
  then show ?thesis by (simp only: Let_def)
qed

end
